(* ===== verification/Prelude.thy ===== *)
theory Prelude
  imports Main "HOL-Library.Word" "HOL-Library.Sublist"
begin

text \<open>
  Shared vocabulary of the development: the machine types of the Go and C code, the parts of Go's
  \<^verbatim>\<open>strings\<close> and \<^verbatim>\<open>encoding/binary\<close> packages the agent uses, and the fact collections the
  component theories rely on. A Go string is a HOL \<open>string\<close> holding its UTF-8 bytes.
\<close>

unbundle bit_operations_syntax

named_theorems codec_simps \<open>round trips of the byte codecs\<close>
named_theorems gostr_simps \<open>facts on the string helpers\<close>

section \<open>Machine types\<close>

type_synonym u8 = "8 word"
type_synonym u16 = "16 word"
type_synonym u32 = "32 word"
type_synonym u64 = "64 word"
type_synonym bytes = "u8 list"

section \<open>encoding/binary\<close>

text \<open>\<^verbatim>\<open>binary.BigEndian.PutUint32\<close> and \<^verbatim>\<open>binary.LittleEndian.PutUint32\<close>, and their readers.\<close>

definition put_be32 :: "u32 \<Rightarrow> bytes" where
  "put_be32 w = [ucast (drop_bit 24 w), ucast (drop_bit 16 w), ucast (drop_bit 8 w), ucast w]"

definition put_le32 :: "u32 \<Rightarrow> bytes" where
  "put_le32 w = rev (put_be32 w)"

definition join_be32 :: "u8 \<Rightarrow> u8 \<Rightarrow> u8 \<Rightarrow> u8 \<Rightarrow> u32" where
  "join_be32 b0 b1 b2 b3 =
     ucast b3 OR push_bit 8 (ucast b2) OR push_bit 16 (ucast b1) OR push_bit 24 (ucast b0)"

text \<open>The readers index the slice they are given; a slice of another length is out of the model
  (every call site slices exactly four or two bytes), so the result is an option.\<close>

fun get_be32 :: "bytes \<Rightarrow> u32 option" where
  "get_be32 [b0, b1, b2, b3] = Some (join_be32 b0 b1 b2 b3)"
| "get_be32 _ = None"

fun get_le32 :: "bytes \<Rightarrow> u32 option" where
  "get_le32 [b0, b1, b2, b3] = Some (join_be32 b3 b2 b1 b0)"
| "get_le32 _ = None"

definition join_be16 :: "u8 \<Rightarrow> u8 \<Rightarrow> u16" where
  "join_be16 b0 b1 = ucast b1 OR push_bit 8 (ucast b0)"

fun get_be16 :: "bytes \<Rightarrow> u16 option" where
  "get_be16 [b0, b1] = Some (join_be16 b0 b1)"
| "get_be16 _ = None"

fun get_le16 :: "bytes \<Rightarrow> u16 option" where
  "get_le16 [b0, b1] = Some (join_be16 b1 b0)"
| "get_le16 _ = None"

definition put_be16 :: "u16 \<Rightarrow> bytes" where
  "put_be16 w = [ucast (drop_bit 8 w), ucast w]"

lemma join_be32_split [codec_simps]:
  "join_be32 (ucast (drop_bit 24 w)) (ucast (drop_bit 16 w)) (ucast (drop_bit 8 w)) (ucast w) = w"
proof (rule bit_word_eqI)
  fix n
  assume n: "n < LENGTH(32)"
  consider "n < 8" | "8 \<le> n" "n < 16" | "16 \<le> n" "n < 24" | "24 \<le> n"
    by linarith
  then show "bit (join_be32 (ucast (drop_bit 24 w)) (ucast (drop_bit 16 w))
                            (ucast (drop_bit 8 w)) (ucast w)) n \<longleftrightarrow> bit w n"
    using n by cases (auto simp: join_be32_def bit_simps)
qed

lemma ucast_join_be32 [codec_simps]:
  "(ucast (join_be32 b0 b1 b2 b3) :: u8) = b3"
  "(ucast (drop_bit 8 (join_be32 b0 b1 b2 b3)) :: u8) = b2"
  "(ucast (drop_bit 16 (join_be32 b0 b1 b2 b3)) :: u8) = b1"
  "(ucast (drop_bit 24 (join_be32 b0 b1 b2 b3)) :: u8) = b0"
  by (rule bit_word_eqI, auto simp: join_be32_def bit_simps dest: bit_imp_le_length)+

lemma join_be16_split [codec_simps]:
  "join_be16 (ucast (drop_bit 8 w)) (ucast w) = w"
  by (rule bit_word_eqI) (auto simp: join_be16_def bit_simps not_less)

lemma ucast_join_be16 [codec_simps]:
  "(ucast (join_be16 b0 b1) :: u8) = b1"
  "(ucast (drop_bit 8 (join_be16 b0 b1)) :: u8) = b0"
  by (rule bit_word_eqI, auto simp: join_be16_def bit_simps dest: bit_imp_le_length)+

lemma length_put32 [simp]: "length (put_be32 w) = 4" "length (put_le32 w) = 4"
  by (simp_all add: put_be32_def put_le32_def)

lemma put_join_be32 [codec_simps]:
  "put_be32 (join_be32 b0 b1 b2 b3) = [b0, b1, b2, b3]"
  "put_le32 (join_be32 b0 b1 b2 b3) = [b3, b2, b1, b0]"
  by (simp_all add: put_be32_def put_le32_def codec_simps)

lemma get_put32 [codec_simps]:
  "get_be32 (put_be32 w) = Some w" "get_le32 (put_le32 w) = Some w"
  by (simp_all add: put_be32_def put_le32_def codec_simps)

lemma put_be32_inject [simp]: "put_be32 v = put_be32 w \<longleftrightarrow> v = w"
  by (metis get_put32(1) option.inject)

lemma put_le32_inject [simp]: "put_le32 v = put_le32 w \<longleftrightarrow> v = w"
  by (metis get_put32(2) option.inject)

lemma u32_bytes_cases: obtains b0 b1 b2 b3 where "w = join_be32 b0 b1 b2 b3"
  by (metis join_be32_split)

section \<open>Memory\<close>

text \<open>
  Byte order of the host. \<open>mem32\<close> and \<open>mem16\<close> are the memory image of an integer, \<open>load32\<close> and \<open>load16\<close>
  read one back. Reads outside a buffer are \<open>None\<close>: an out-of-bounds access of the C program, a
  run-time panic of the Go program.
\<close>

datatype endian = LittleEndian | BigEndian

fun mem32 :: "endian \<Rightarrow> u32 \<Rightarrow> bytes" where
  "mem32 LittleEndian w = put_le32 w"
| "mem32 BigEndian w = put_be32 w"

fun load32 :: "endian \<Rightarrow> bytes \<Rightarrow> u32 option" where
  "load32 LittleEndian bs = get_le32 bs"
| "load32 BigEndian bs = get_be32 bs"

fun mem16 :: "endian \<Rightarrow> u16 \<Rightarrow> bytes" where
  "mem16 LittleEndian w = rev (put_be16 w)"
| "mem16 BigEndian w = put_be16 w"

fun load16 :: "endian \<Rightarrow> bytes \<Rightarrow> u16 option" where
  "load16 LittleEndian bs = get_le16 bs"
| "load16 BigEndian bs = get_be16 bs"

definition slice :: "bytes \<Rightarrow> nat \<Rightarrow> nat \<Rightarrow> bytes option" where
  "slice bs i n = (if i + n \<le> length bs then Some (take n (drop i bs)) else None)"

definition ld8 :: "bytes \<Rightarrow> nat \<Rightarrow> u8 option" where
  "ld8 bs i = (if i < length bs then Some (bs ! i) else None)"

lemma length_mem [simp]: "length (mem32 en w) = 4" "length (mem16 en v) = 2"
  by (cases en; simp add: put_be16_def)+

lemma length_4E:
  assumes "length bs = 4" obtains b0 b1 b2 b3 where "bs = [b0, b1, b2, b3]"
  using assms by (auto simp: numeral_eq_Suc length_Suc_conv)

lemma length_2E:
  assumes "length bs = 2" obtains b0 b1 where "bs = [b0, b1]"
  using assms by (auto simp: numeral_eq_Suc length_Suc_conv)

lemma load_mem [codec_simps]: "load32 en (mem32 en w) = Some w" "load16 en (mem16 en v) = Some v"
  by (cases en; simp add: codec_simps put_be16_def)+

lemma load32_Some:
  assumes "length bs = 4" obtains w where "load32 en bs = Some w" "mem32 en w = bs"
  using assms by (cases en; auto elim!: length_4E simp: codec_simps)

lemma load16_total: "length bs = 2 \<Longrightarrow> \<exists>w. load16 en bs = Some w"
  by (cases en; auto elim!: length_2E)

lemma slice_Some [simp]: "i + n \<le> length bs \<Longrightarrow> slice bs i n = Some (take n (drop i bs))"
  by (simp add: slice_def)

lemma ld8_Some [simp]: "i < length bs \<Longrightarrow> ld8 bs i = Some (bs ! i)"
  by (simp add: ld8_def)

section \<open>strings\<close>

definition is_ascii :: "string \<Rightarrow> bool" where
  "is_ascii s = list_all (\<lambda>c. of_char c < (128::nat)) s"

definition ascii_lower :: "char \<Rightarrow> char" where
  "ascii_lower c =
     (let n = of_char c :: nat in if 65 \<le> n \<and> n \<le> 90 then char_of (n + 32) else c)"

text \<open>
  \<^verbatim>\<open>strings.ToLower\<close>: the ASCII path of the library is written out; for a string with a byte
  \<open>\<ge> 0x80\<close> the library maps runes through the Unicode tables, which the parameter \<open>uni\<close> stands for.
\<close>

definition strings_ToLower :: "(string \<Rightarrow> string) \<Rightarrow> string \<Rightarrow> string" where
  "strings_ToLower uni s = (if is_ascii s then map ascii_lower s else uni s)"

definition trim_suffix :: "string \<Rightarrow> string \<Rightarrow> string" where
  "trim_suffix s suf = (if suffix suf s then take (length s - length suf) s else s)"

fun split_on :: "char \<Rightarrow> string \<Rightarrow> string list" where
  "split_on d [] = [[]]"
| "split_on d (c # cs) =
     (if c = d then [] # split_on d cs
      else (case split_on d cs of [] \<Rightarrow> [[c]] | w # ws \<Rightarrow> (c # w) # ws))"

fun join_with :: "string \<Rightarrow> string list \<Rightarrow> string" where
  "join_with sep [] = []"
| "join_with sep [w] = w"
| "join_with sep (w # v # ws) = w @ sep @ join_with sep (v # ws)"

definition contains_any :: "string \<Rightarrow> string \<Rightarrow> bool" where
  "contains_any s cs = list_ex (\<lambda>c. c \<in> set cs) s"

text \<open>The UTF-8 encodings of the runes \<^verbatim>\<open>unicode.IsSpace\<close> accepts.\<close>

definition go_spaces :: "string list" where
  "go_spaces = map (map char_of)
     ([[9], [10], [11], [12], [13], [32], [194, 133], [194, 160], [225, 154, 128],
       [226, 128, 168], [226, 128, 169], [226, 128, 175], [226, 129, 159], [227, 128, 128]]
      @ map (\<lambda>k. [226, 128, 128 + k]) [0, 1, 2, 3, 4, 5, 6, 7, 8, 9, 10 :: nat])"

function trim_left :: "string list \<Rightarrow> string \<Rightarrow> string" where
  "trim_left ws s = (case find (\<lambda>w. w \<noteq> [] \<and> prefix w s) ws of
      None \<Rightarrow> s | Some w \<Rightarrow> trim_left ws (drop (length w) s))"
  by pat_completeness auto
termination
  by (relation "measure (\<lambda>(ws, s). length s)") (auto simp: find_Some_iff prefix_def)

declare trim_left.simps [simp del]

definition trim_space :: "string \<Rightarrow> string" where
  "trim_space s = rev (trim_left (map rev go_spaces) (rev (trim_left go_spaces s)))"

lemma split_on_nonempty [simp]: "split_on d s \<noteq> []"
  by (induction s) (auto split: list.splits)

lemma join_split_on [gostr_simps]: "join_with [d] (split_on d s) = s"
proof (induction s)
  case (Cons c cs)
  then show ?case
    by (cases "split_on d cs"; cases "tl (split_on d cs)") auto
qed simp

lemma split_on_no_sep: "w \<in> set (split_on d s) \<Longrightarrow> d \<notin> set w"
  by (induction s arbitrary: w) (auto split: list.splits if_splits)

lemma split_on_append [gostr_simps]: "split_on d (a @ d # b) = split_on d a @ split_on d b"
proof (induction a)
  case (Cons c a)
  then show ?case by (cases "split_on d a") (auto split: list.splits)
qed simp

lemma split_on_plain [gostr_simps]: "d \<notin> set w \<Longrightarrow> split_on d w = [w]"
  by (induction w) auto

lemma is_ascii_append [gostr_simps]: "is_ascii (a @ b) \<longleftrightarrow> is_ascii a \<and> is_ascii b"
  by (simp add: is_ascii_def)

lemma strings_ToLower_ascii [gostr_simps]:
  "is_ascii s \<Longrightarrow> strings_ToLower uni s = map ascii_lower s"
  by (simp add: strings_ToLower_def)

lemma trim_suffix_snoc [gostr_simps]: "trim_suffix (s @ suf) suf = s"
  by (simp add: trim_suffix_def suffix_def)

lemma trim_suffix_noop [gostr_simps]: "\<not> suffix suf s \<Longrightarrow> trim_suffix s suf = s"
  by (simp add: trim_suffix_def)

lemma is_ascii_trim [gostr_simps]: "is_ascii s \<Longrightarrow> is_ascii (trim_suffix s suf)"
  by (auto simp: trim_suffix_def is_ascii_def list_all_iff dest: in_set_takeD)

lemma ascii_lower_dot [simp]: "ascii_lower c = CHR ''.'' \<longleftrightarrow> c = CHR ''.''"
proof
  assume h: "ascii_lower c = CHR ''.''"
  show "c = CHR ''.''"
  proof (cases "65 \<le> (of_char c :: nat) \<and> (of_char c :: nat) \<le> 90")
    case True
    with h have "of_char (char_of (of_char c + 32 :: nat) :: char) = (46 :: nat)"
      by (simp add: ascii_lower_def)
    with True show ?thesis by (simp add: take_bit_eq_mod)
  next
    case False
    with h show ?thesis by (simp add: ascii_lower_def Let_def split: if_splits)
  qed
qed (simp add: ascii_lower_def)

lemma ascii_lower_dot' [simp]: "CHR ''.'' = ascii_lower c \<longleftrightarrow> c = CHR ''.''"
  by (metis ascii_lower_dot)

lemma ascii_lower_idem [simp]: "ascii_lower (ascii_lower c) = ascii_lower c"
  by (simp add: ascii_lower_def Let_def take_bit_eq_mod)

lemma suffix_single [gostr_simps]: "suffix [x] s \<longleftrightarrow> s \<noteq> [] \<and> last s = x"
  by (cases s rule: rev_cases) auto

lemma map_lower_trim_dot [gostr_simps]:
  "map ascii_lower (trim_suffix s ''.'') = trim_suffix (map ascii_lower s) ''.''"
  by (cases s rule: rev_cases) (auto simp: trim_suffix_def suffix_single)

lemma is_ascii_lower [gostr_simps]: "is_ascii s \<Longrightarrow> is_ascii (map ascii_lower s)"
  by (auto simp: is_ascii_def list_all_iff ascii_lower_def Let_def take_bit_eq_mod)

section \<open>Lists\<close>

text \<open>The list of first occurrences, in order.\<close>

fun first_occ :: "'a list \<Rightarrow> 'a list" where
  "first_occ [] = []"
| "first_occ (x # xs) = x # first_occ (filter (\<lambda>y. y \<noteq> x) xs)"

lemma set_first_occ [simp]: "set (first_occ xs) = set xs"
  by (induction xs rule: first_occ.induct) auto

lemma distinct_first_occ [simp]: "distinct (first_occ xs)"
  by (induction xs rule: first_occ.induct) auto

lemma first_occ_append:
  "first_occ (xs @ ys) = first_occ xs @ first_occ (filter (\<lambda>y. y \<notin> set xs) ys)"
proof (induction xs arbitrary: ys rule: first_occ.induct)
  case (2 x xs)
  have sep: "filter (\<lambda>y. y \<notin> set (filter (\<lambda>y. y \<noteq> x) xs)) (filter (\<lambda>y. y \<noteq> x) ys)
      = filter (\<lambda>y. y \<notin> set (x # xs)) ys"
    by (simp only: filter_filter) (rule filter_cong, auto)
  have "first_occ ((x # xs) @ ys) = x # first_occ (filter (\<lambda>y. y \<noteq> x) xs @ filter (\<lambda>y. y \<noteq> x) ys)"
    by simp
  then show ?case by (simp only: "2.IH" sep first_occ.simps append_Cons)
qed simp

lemma first_occ_distinct: "distinct xs \<Longrightarrow> first_occ xs = xs"
  by (induction xs rule: first_occ.induct) (auto simp: filter_id_conv)

end
