(* ===== verification/NetAddr.thy ===== *)
theory NetAddr
  imports Prelude
begin

text \<open>
  The part of Go's \<^verbatim>\<open>net/netip\<close> the agent uses, and the text form of addresses (\<^verbatim>\<open>net.IP.String\<close>).
  An IPv6 address is its four big-endian 32-bit words. Zones do not occur: no address of the program
  is built with one.
\<close>

datatype Addr = AddrZero | Addr4 u32 | Addr6 u32 u32 u32 u32

fun IsValid :: "Addr \<Rightarrow> bool" where
  "IsValid AddrZero = False"
| "IsValid _ = True"

fun Is4 :: "Addr \<Rightarrow> bool" where
  "Is4 (Addr4 _) = True"
| "Is4 _ = False"

fun Is6 :: "Addr \<Rightarrow> bool" where
  "Is6 (Addr6 _ _ _ _) = True"
| "Is6 _ = False"

fun Is4In6 :: "Addr \<Rightarrow> bool" where
  "Is4In6 (Addr6 w0 w1 w2 w3) = (w0 = 0 \<and> w1 = 0 \<and> w2 = 65535)"
| "Is4In6 _ = False"

fun Unmap :: "Addr \<Rightarrow> Addr" where
  "Unmap (Addr6 w0 w1 w2 w3) = (if w0 = 0 \<and> w1 = 0 \<and> w2 = 65535 then Addr4 w3 else Addr6 w0 w1 w2 w3)"
| "Unmap a = a"

text \<open>\<^verbatim>\<open>As4\<close> panics on an address that is neither IPv4 nor IPv4-mapped, \<^verbatim>\<open>As16\<close> maps IPv4 into IPv6.\<close>

fun As4 :: "Addr \<Rightarrow> bytes option" where
  "As4 (Addr4 w) = Some (put_be32 w)"
| "As4 (Addr6 w0 w1 w2 w3) = (if w0 = 0 \<and> w1 = 0 \<and> w2 = 65535 then Some (put_be32 w3) else None)"
| "As4 AddrZero = None"

fun As16 :: "Addr \<Rightarrow> bytes" where
  "As16 AddrZero = replicate 16 0"
| "As16 (Addr4 w) = replicate 10 0 @ [255, 255] @ put_be32 w"
| "As16 (Addr6 w0 w1 w2 w3) = put_be32 w0 @ put_be32 w1 @ put_be32 w2 @ put_be32 w3"

definition AddrFrom4 :: "bytes \<Rightarrow> Addr option" where
  "AddrFrom4 b = map_option Addr4 (get_be32 b)"

fun AddrFrom16 :: "bytes \<Rightarrow> Addr option" where
  "AddrFrom16 [a0, a1, a2, a3, b0, b1, b2, b3, c0, c1, c2, c3, d0, d1, d2, d3] =
     Some (Addr6 (join_be32 a0 a1 a2 a3) (join_be32 b0 b1 b2 b3) (join_be32 c0 c1 c2 c3)
       (join_be32 d0 d1 d2 d3))"
| "AddrFrom16 _ = None"

text \<open>\<^verbatim>\<open>netip.AddrFromSlice\<close>: only slices of 4 or 16 bytes are addresses.\<close>

definition AddrFromSlice :: "bytes \<Rightarrow> Addr option" where
  "AddrFromSlice b =
     (if length b = 4 then AddrFrom4 b else if length b = 16 then AddrFrom16 b else None)"

fun IsUnspecified :: "Addr \<Rightarrow> bool" where
  "IsUnspecified (Addr4 w) = (w = 0)"
| "IsUnspecified (Addr6 w0 w1 w2 w3) = (w0 = 0 \<and> w1 = 0 \<and> w2 = 0 \<and> w3 = 0)"
| "IsUnspecified AddrZero = False"

fun IsLoopback :: "Addr \<Rightarrow> bool" where
  "IsLoopback (Addr4 w) = (drop_bit 24 w = 127)"
| "IsLoopback (Addr6 w0 w1 w2 w3) =
     (if w0 = 0 \<and> w1 = 0 \<and> w2 = 65535 then drop_bit 24 w3 = 127
      else w0 = 0 \<and> w1 = 0 \<and> w2 = 0 \<and> w3 = 1)"
| "IsLoopback AddrZero = False"

section \<open>Prefixes\<close>

record Prefix =
  pAddr :: Addr
  pBits :: int

text \<open>\<^verbatim>\<open>IsValid\<close>: a zero address has no valid prefix, and the length fits the family. \<^verbatim>\<open>Masked\<close>
  clears the host bits of a valid prefix.\<close>

definition prefixValid :: "Prefix \<Rightarrow> bool" where
  "prefixValid p =
     (0 \<le> pBits p \<and> (case pAddr p of AddrZero \<Rightarrow> False | Addr4 _ \<Rightarrow> pBits p \<le> 32 | Addr6 _ _ _ _ \<Rightarrow> pBits p \<le> 128))"

definition mask_word :: "nat \<Rightarrow> u32 \<Rightarrow> u32" where
  "mask_word n w = push_bit (32 - min n 32) (drop_bit (32 - min n 32) w)"

fun maskAddr :: "nat \<Rightarrow> Addr \<Rightarrow> Addr" where
  "maskAddr n (Addr4 w) = Addr4 (mask_word n w)"
| "maskAddr n (Addr6 w0 w1 w2 w3) =
     Addr6 (mask_word n w0) (mask_word (n - 32) w1) (mask_word (n - 64) w2) (mask_word (n - 96) w3)"
| "maskAddr n AddrZero = AddrZero"

definition Masked :: "Prefix \<Rightarrow> Prefix" where
  "Masked p = p\<lparr>pAddr := maskAddr (nat (pBits p)) (pAddr p)\<rparr>"

section \<open>Text form\<close>

fun dec_digits :: "nat \<Rightarrow> string" where
  "dec_digits n = (if n < 10 then [char_of (48 + n)] else dec_digits (n div 10) @ [char_of (48 + n mod 10)])"

definition hex_digit :: "nat \<Rightarrow> char" where
  "hex_digit d = char_of (if d < 10 then 48 + d else 87 + d)"

fun hex_digits :: "nat \<Rightarrow> string" where
  "hex_digits n = (if n < 16 then [hex_digit n] else hex_digits (n div 16) @ [hex_digit (n mod 16)])"

declare dec_digits.simps [simp del] hex_digits.simps [simp del]

definition ip4_string :: "bytes \<Rightarrow> string" where
  "ip4_string b = join_with ''.'' (map (\<lambda>x. dec_digits (unat x)) b)"

text \<open>The longest run of at least two zero groups (the first of the longest), as start and end.\<close>

definition zero_run_from :: "nat list \<Rightarrow> nat \<Rightarrow> nat" where
  "zero_run_from gs i = i + length (takeWhile (\<lambda>g. g = 0) (drop i gs))"

definition best_run :: "nat list \<Rightarrow> (nat \<times> nat) option" where
  "best_run gs = fold (\<lambda>i best. let j = zero_run_from gs i; l = j - i in
       if l \<ge> 2 \<and> (case best of None \<Rightarrow> True | Some (s, e) \<Rightarrow> l > e - s) then Some (i, j) else best)
     [0..<length gs] None"

definition ip6_string :: "nat list \<Rightarrow> string" where
  "ip6_string gs = (case best_run gs of
       None \<Rightarrow> join_with '':'' (map hex_digits gs)
     | Some (s, e) \<Rightarrow> join_with '':'' (map hex_digits (take s gs)) @ ''::''
                      @ join_with '':'' (map hex_digits (drop e gs)))"

fun groups16 :: "bytes \<Rightarrow> nat list" where
  "groups16 (a # b # bs) = (unat a * 256 + unat b) # groups16 bs"
| "groups16 _ = []"

text \<open>\<^verbatim>\<open>net.IP.String\<close> on the two slice lengths the agent passes: a 16-byte slice holding an
  IPv4-mapped address prints as IPv4.\<close>

definition IP_String :: "bytes \<Rightarrow> string" where
  "IP_String b =
     (if length b = 4 then ip4_string b
      else if length b = 16 then
        (if take 12 b = replicate 10 0 @ [255, 255] then ip4_string (drop 12 b) else ip6_string (groups16 b))
      else if b = [] then ''<nil>''
      else ''?'' @ concat (map (\<lambda>x. [hex_digit (unat x div 16), hex_digit (unat x mod 16)]) b))"

section \<open>Facts\<close>

lemma AddrFrom16_total:
  assumes "length b = 16"
  shows "\<exists>a. AddrFrom16 b = Some a \<and> As16 a = b \<and> Is6 a"
proof -
  from assms obtain a0 a1 a2 a3 b0 b1 b2 b3 c0 c1 c2 c3 d0 d1 d2 d3 where
    "b = [a0, a1, a2, a3, b0, b1, b2, b3, c0, c1, c2, c3, d0, d1, d2, d3]"
    by (auto simp: numeral_eq_Suc length_Suc_conv)
  then show ?thesis by (simp add: codec_simps)
qed

lemma length_As16 [simp]: "length (As16 a) = 16"
  by (cases a) simp_all

lemma AddrFrom4_total: "length b = 4 \<Longrightarrow> \<exists>w. AddrFrom4 b = Some (Addr4 w) \<and> put_be32 w = b"
  by (auto simp: AddrFrom4_def codec_simps elim!: length_4E)

lemma AddrFrom16_As16: "Is6 a \<Longrightarrow> AddrFrom16 (As16 a) = Some a"
  by (cases a) (auto simp: put_be32_def codec_simps)

end
