(* ===== verification/CensorBpf.thy ===== *)
theory CensorBpf
  imports Prelude "HOL-Library.Monad_Syntax"
begin

text \<open>
  The eBPF programs of \<^verbatim>\<open>bpf/kern/censor.c\<close>: the egress filter, the two connect hooks, and the exec
  tracepoint, over the state of the five BPF maps. A program returns \<open>None\<close> if it reads outside the
  packet. The LPM trie and the LRU hash are kernel data structures: their operations are a parameter
  (\<open>bpf_ops\<close>), and what the programs rely on of them is the locale \<open>bpf_maps\<close>.
\<close>

section \<open>State\<close>

definition ETH_P_IP :: u16 where "ETH_P_IP = 0x0800"
definition ETH_P_IPV6 :: u16 where "ETH_P_IPV6 = 0x86DD"
definition IPPROTO_TCP :: u8 where "IPPROTO_TCP = 6"
definition IPPROTO_UDP :: u8 where "IPPROTO_UDP = 17"
definition IPPROTO_ICMPV6 :: u8 where "IPPROTO_ICMPV6 = 58"
definition TC_ACT_OK :: int where "TC_ACT_OK = 0"
definition TC_ACT_SHOT :: int where "TC_ACT_SHOT = 2"
definition EVENT_KIND_NET :: u8 where "EVENT_KIND_NET = 0"
definition EVENT_KIND_SUDO :: u8 where "EVENT_KIND_SUDO = 1"

lemmas bpf_consts = ETH_P_IP_def ETH_P_IPV6_def IPPROTO_TCP_def IPPROTO_UDP_def IPPROTO_ICMPV6_def
  TC_ACT_OK_def TC_ACT_SHOT_def EVENT_KIND_NET_def EVENT_KIND_SUDO_def

text \<open>\<^verbatim>\<open>struct event\<close>; \<open>e_dst_v6\<close> has four words, \<open>e_comm\<close> sixteen bytes.\<close>

record event =
  e_pid :: u32
  e_dst_v4 :: u32
  e_dst_v6 :: "u32 list"
  e_dport :: u16
  e_proto :: u8
  e_allowed :: u8
  e_family :: u8
  e_kind :: u8
  e_comm :: bytes

text \<open>Operations on the kernel's map types: an LPM trie keyed by a prefix length and the key's data
  bytes, and an LRU hash from socket cookies to process ids. A failing update is \<open>Inl\<close> of the error text
  (trie) or \<open>None\<close> (hash, whose failures the program ignores).\<close>

record ('m, 'p) bpf_ops =
  lpm_lookup :: "'m \<Rightarrow> u32 \<Rightarrow> bytes \<Rightarrow> u8 option"
  lpm_update :: "'m \<Rightarrow> u32 \<Rightarrow> bytes \<Rightarrow> u8 \<Rightarrow> string + 'm"
  lru_lookup :: "'p \<Rightarrow> u64 \<Rightarrow> u32 option"
  lru_update :: "'p \<Rightarrow> u64 \<Rightarrow> u32 \<Rightarrow> 'p option"

text \<open>The maps: \<open>config\<close> is an array of two words, \<open>events\<close> the submitted ring-buffer records.\<close>

record ('m, 'p) kstate =
  allow_v4 :: 'm
  allow_v6 :: 'm
  config :: "u32 list"
  sock_pid :: 'p
  events :: "event list"

text \<open>What the helpers return in one run of a program: the socket cookie, the current pid/tgid, the
  current command name, and whether the ring buffer has room.\<close>

record hooks =
  h_cookie :: u64
  h_pid_tgid :: u64
  h_comm :: bytes
  h_reserve :: bool

definition array_lookup :: "u32 list \<Rightarrow> u32 \<Rightarrow> u32 option" where
  "array_lookup a i = (if unat i < length a then Some (a ! unat i) else None)"

section \<open>Helpers of the program\<close>

definition emit :: "hooks \<Rightarrow> u32 \<Rightarrow> u32 \<Rightarrow> u32 list option \<Rightarrow> u16 \<Rightarrow> u8 \<Rightarrow> u8 \<Rightarrow> u8 \<Rightarrow> u8 \<Rightarrow>
    bytes option \<Rightarrow> ('m, 'p) kstate \<Rightarrow> ('m, 'p) kstate" where
  "emit h pid dst4 dst6 dport proto allowed family kind comm k =
     (if \<not> h_reserve h then k
      else k\<lparr>events := events k @
        [\<lparr>e_pid = pid, e_dst_v4 = dst4,
          e_dst_v6 = (case dst6 of Some ws \<Rightarrow> ws | None \<Rightarrow> [0, 0, 0, 0]),
          e_dport = dport, e_proto = proto, e_allowed = allowed, e_family = family, e_kind = kind,
          e_comm = (case comm of Some c \<Rightarrow> c | None \<Rightarrow> replicate 16 0)\<rparr>]\<rparr>)"

definition lookup_allow_v4 ::
  "('m, 'p) bpf_ops \<Rightarrow> endian \<Rightarrow> ('m, 'p) kstate \<Rightarrow> u32 \<Rightarrow> bool" where
  "lookup_allow_v4 L en k dst_be = (lpm_lookup L (allow_v4 k) 32 (mem32 en dst_be) \<noteq> None)"

definition lookup_allow_v6 ::
  "('m, 'p) bpf_ops \<Rightarrow> endian \<Rightarrow> ('m, 'p) kstate \<Rightarrow> u32 list \<Rightarrow> bool" where
  "lookup_allow_v6 L en k addr = (lpm_lookup L (allow_v6 k) 128 (concat (map (mem32 en) addr)) \<noteq> None)"

definition current_pid_for_skb :: "('m, 'p) bpf_ops \<Rightarrow> ('m, 'p) kstate \<Rightarrow> hooks \<Rightarrow> u32" where
  "current_pid_for_skb L k h =
     (case lru_lookup L (sock_pid k) (h_cookie h) of Some p \<Rightarrow> p | None \<Rightarrow> 0)"

text \<open>\<^verbatim>\<open>__builtin_bswap16\<close>, which \<^verbatim>\<open>bpf_htons\<close> is on every target.\<close>

definition bpf_htons :: "u16 \<Rightarrow> u16" where
  "bpf_htons x = push_bit 8 x OR drop_bit 8 x"

text \<open>The first bit-field of a byte: the low nibble on a little-endian target, the high one on a
  big-endian target.\<close>

definition first_nibble :: "endian \<Rightarrow> u8 \<Rightarrow> u8" where
  "first_nibble en b = (case en of LittleEndian \<Rightarrow> b AND 15 | BigEndian \<Rightarrow> drop_bit 4 b)"

definition audit_mode :: "('m, 'p) kstate \<Rightarrow> u32" where
  "audit_mode k = (case array_lookup (config k) 0 of Some v \<Rightarrow> v | None \<Rightarrow> 1)"

section \<open>Egress\<close>

text \<open>Offsets: the Ethernet header has 14 bytes, the IPv4 header 20 (protocol at 9, destination at 16),
  the IPv6 header 40 (next header at 6, destination at 24).\<close>

definition handle_v4 :: "('m, 'p) bpf_ops \<Rightarrow> endian \<Rightarrow> hooks \<Rightarrow> bytes \<Rightarrow> ('m, 'p) kstate \<Rightarrow>
    (int \<times> ('m, 'p) kstate) option" where
  "handle_v4 L en h skb k =
     (let ip = 14 in
      if ip + 20 > length skb then Some (TC_ACT_OK, k)
      else do {
        protocol \<leftarrow> ld8 skb (ip + 9);
        if protocol \<noteq> IPPROTO_TCP \<and> protocol \<noteq> IPPROTO_UDP then Some (TC_ACT_OK, k)
        else do {
          b0 \<leftarrow> ld8 skb ip;
          let ihl = first_nibble en b0;
          if ihl < 5 then Some (TC_ACT_OK, k)
          else do {
            let l4 = ip + unat ihl * 4;
            if l4 + 4 > length skb then Some (TC_ACT_OK, k)
            else do {
              p2 \<leftarrow> ld8 skb (l4 + 2);
              p3 \<leftarrow> ld8 skb (l4 + 3);
              let dport = push_bit 8 (ucast p2) OR ucast p3;
              d \<leftarrow> slice skb (ip + 16) 4;
              daddr \<leftarrow> load32 en d;
              let pid = current_pid_for_skb L k h;
              let allowed = lookup_allow_v4 L en k daddr;
              let k' = emit h pid daddr None dport protocol (if allowed then 1 else 0) 4 EVENT_KIND_NET None k;
              if \<not> allowed \<and> audit_mode k = 0 then Some (TC_ACT_SHOT, k')
              else Some (TC_ACT_OK, k')
            }
          }
        }
      })"

definition load_addr6 :: "endian \<Rightarrow> bytes \<Rightarrow> nat \<Rightarrow> u32 list option" where
  "load_addr6 en skb i = do {
     s0 \<leftarrow> slice skb i 4; w0 \<leftarrow> load32 en s0;
     s1 \<leftarrow> slice skb (i + 4) 4; w1 \<leftarrow> load32 en s1;
     s2 \<leftarrow> slice skb (i + 8) 4; w2 \<leftarrow> load32 en s2;
     s3 \<leftarrow> slice skb (i + 12) 4; w3 \<leftarrow> load32 en s3;
     Some [w0, w1, w2, w3]
   }"

definition handle_v6 :: "('m, 'p) bpf_ops \<Rightarrow> endian \<Rightarrow> hooks \<Rightarrow> bytes \<Rightarrow> ('m, 'p) kstate \<Rightarrow>
    (int \<times> ('m, 'p) kstate) option" where
  "handle_v6 L en h skb k =
     (let ip6 = 14 in
      if ip6 + 40 > length skb then Some (TC_ACT_OK, k)
      else do {
        nexthdr \<leftarrow> ld8 skb (ip6 + 6);
        if nexthdr = IPPROTO_ICMPV6 then Some (TC_ACT_OK, k)
        else do {
          d0 \<leftarrow> ld8 skb (ip6 + 24);
          if d0 = 0xff then Some (TC_ACT_OK, k)
          else if nexthdr \<noteq> IPPROTO_TCP \<and> nexthdr \<noteq> IPPROTO_UDP then Some (TC_ACT_OK, k)
          else do {
            let l4 = ip6 + 40;
            if l4 + 4 > length skb then Some (TC_ACT_OK, k)
            else do {
              p2 \<leftarrow> ld8 skb (l4 + 2);
              p3 \<leftarrow> ld8 skb (l4 + 3);
              let dport = push_bit 8 (ucast p2) OR ucast p3;
              addr \<leftarrow> load_addr6 en skb (ip6 + 24);
              let pid = current_pid_for_skb L k h;
              let allowed = lookup_allow_v6 L en k addr;
              let k' = emit h pid 0 (Some addr) dport nexthdr (if allowed then 1 else 0) 6 EVENT_KIND_NET None k;
              if \<not> allowed \<and> audit_mode k = 0 then Some (TC_ACT_SHOT, k')
              else Some (TC_ACT_OK, k')
            }
          }
        }
      })"

definition censor_egress :: "('m, 'p) bpf_ops \<Rightarrow> endian \<Rightarrow> hooks \<Rightarrow> bytes \<Rightarrow> ('m, 'p) kstate \<Rightarrow>
    (int \<times> ('m, 'p) kstate) option" where
  "censor_egress L en h skb k =
     (if 14 > length skb then Some (TC_ACT_OK, k)
      else do {
        pr \<leftarrow> slice skb 12 2;
        h_proto \<leftarrow> load16 en pr;
        if h_proto = bpf_htons ETH_P_IP then handle_v4 L en h skb k
        else if h_proto = bpf_htons ETH_P_IPV6 then handle_v6 L en h skb k
        else Some (TC_ACT_OK, k)
      })"

section \<open>Connect and exec hooks\<close>

definition censor_connect4 :: "('m, 'p) bpf_ops \<Rightarrow> hooks \<Rightarrow> ('m, 'p) kstate \<Rightarrow> int \<times> ('m, 'p) kstate" where
  "censor_connect4 L h k =
     (let cookie = h_cookie h; pid = ucast (drop_bit 32 (h_pid_tgid h))
      in (1, case lru_update L (sock_pid k) cookie pid of
               Some m \<Rightarrow> k\<lparr>sock_pid := m\<rparr> | None \<Rightarrow> k))"

definition censor_connect6 :: "('m, 'p) bpf_ops \<Rightarrow> hooks \<Rightarrow> ('m, 'p) kstate \<Rightarrow> int \<times> ('m, 'p) kstate" where
  "censor_connect6 L h k =
     (let cookie = h_cookie h; pid = ucast (drop_bit 32 (h_pid_tgid h))
      in (1, case lru_update L (sock_pid k) cookie pid of
               Some m \<Rightarrow> k\<lparr>sock_pid := m\<rparr> | None \<Rightarrow> k))"

text \<open>The bytes compared are \<^verbatim>\<open>'s' 'u' 'd' 'o'\<close>, then NUL or newline, or \<^verbatim>\<open>'e'\<close>.\<close>

definition comm_is_sudo :: "bytes \<Rightarrow> bool" where
  "comm_is_sudo comm =
     (let c0 = comm ! 0; c1 = comm ! 1; c2 = comm ! 2; c3 = comm ! 3; c4 = comm ! 4 in
      if c0 = 115 \<and> c1 = 117 \<and> c2 = 100 \<and> c3 = 111 \<and> (c4 = 0 \<or> c4 = 10) then True
      else if c0 = 115 \<and> c1 = 117 \<and> c2 = 100 \<and> c3 = 111 \<and> c4 = 101 then True
      else False)"

definition censor_exec :: "hooks \<Rightarrow> ('m, 'p) kstate \<Rightarrow> int \<times> ('m, 'p) kstate" where
  "censor_exec h k =
     (let comm = take 16 (h_comm h @ replicate 16 0) in
      if \<not> comm_is_sudo comm then (0, k)
      else (let pid = ucast (drop_bit 32 (h_pid_tgid h))
            in (0, emit h pid 0 None 0 0 1 0 EVENT_KIND_SUDO (Some comm) k)))"

section \<open>The flow view of a packet\<close>

text \<open>What the filter looks at, if it looks at the packet at all: the family, the destination address in
  network byte order, the destination port and the transport protocol.\<close>

record flow =
  f_v6 :: bool
  f_dst :: bytes
  f_dport :: u16
  f_proto :: u8

definition flow4 :: "endian \<Rightarrow> bytes \<Rightarrow> flow option" where
  "flow4 en skb =
     (let n = unat (first_nibble en (skb ! 14)) in
      if 34 \<le> length skb \<and> (skb ! 23 = 6 \<or> skb ! 23 = 17) \<and> 5 \<le> n \<and> 18 + n * 4 \<le> length skb
      then Some \<lparr>f_v6 = False, f_dst = take 4 (drop 30 skb),
                 f_dport = join_be16 (skb ! (16 + n * 4)) (skb ! (17 + n * 4)), f_proto = skb ! 23\<rparr>
      else None)"

definition flow6 :: "bytes \<Rightarrow> flow option" where
  "flow6 skb =
     (if 58 \<le> length skb \<and> (skb ! 20 = 6 \<or> skb ! 20 = 17) \<and> skb ! 38 \<noteq> 255
      then Some \<lparr>f_v6 = True, f_dst = take 16 (drop 38 skb),
                 f_dport = join_be16 (skb ! 56) (skb ! 57), f_proto = skb ! 20\<rparr>
      else None)"

definition flow_of :: "endian \<Rightarrow> bytes \<Rightarrow> flow option" where
  "flow_of en skb =
     (if length skb < 14 then None
      else if load16 en (take 2 (drop 12 skb)) = Some (bpf_htons ETH_P_IP) then flow4 en skb
      else if load16 en (take 2 (drop 12 skb)) = Some (bpf_htons ETH_P_IPV6) then flow6 skb
      else None)"

definition flow_allowed :: "('m, 'p) bpf_ops \<Rightarrow> ('m, 'p) kstate \<Rightarrow> flow \<Rightarrow> bool" where
  "flow_allowed L k f =
     ((if f_v6 f then lpm_lookup L (allow_v6 k) 128 (f_dst f)
       else lpm_lookup L (allow_v4 k) 32 (f_dst f)) \<noteq> None)"

fun words_of :: "endian \<Rightarrow> bytes \<Rightarrow> u32 list" where
  "words_of en (b0 # b1 # b2 # b3 # bs) =
     (case load32 en [b0, b1, b2, b3] of Some w \<Rightarrow> [w] | None \<Rightarrow> []) @ words_of en bs"
| "words_of en _ = []"

definition flow_event :: "('m, 'p) bpf_ops \<Rightarrow> endian \<Rightarrow> hooks \<Rightarrow> ('m, 'p) kstate \<Rightarrow> flow \<Rightarrow> event" where
  "flow_event L en h k f =
     \<lparr>e_pid = current_pid_for_skb L k h,
      e_dst_v4 = (if f_v6 f then 0 else hd (words_of en (f_dst f))),
      e_dst_v6 = (if f_v6 f then words_of en (f_dst f) else [0, 0, 0, 0]),
      e_dport = f_dport f, e_proto = f_proto f, e_allowed = (if flow_allowed L k f then 1 else 0),
      e_family = (if f_v6 f then 6 else 4), e_kind = EVENT_KIND_NET, e_comm = replicate 16 0\<rparr>"

definition flow_verdict :: "('m, 'p) bpf_ops \<Rightarrow> ('m, 'p) kstate \<Rightarrow> flow \<Rightarrow> int" where
  "flow_verdict L k f = (if \<not> flow_allowed L k f \<and> audit_mode k = 0 then TC_ACT_SHOT else TC_ACT_OK)"

definition flow_step :: "('m, 'p) bpf_ops \<Rightarrow> endian \<Rightarrow> hooks \<Rightarrow> bytes \<Rightarrow> ('m, 'p) kstate \<Rightarrow>
    int \<times> ('m, 'p) kstate" where
  "flow_step L en h skb k =
     (case flow_of en skb of
        None \<Rightarrow> (TC_ACT_OK, k)
      | Some f \<Rightarrow> (flow_verdict L k f,
          if h_reserve h then k\<lparr>events := events k @ [flow_event L en h k f]\<rparr> else k))"

lemma port_join: "push_bit 8 (ucast a) OR ucast b = join_be16 a b"
  by (simp add: join_be16_def or.commute)

lemma first_nibble_ge5: "5 \<le> unat (first_nibble en b) \<longleftrightarrow> \<not> first_nibble en b < 5"
  by (simp add: word_less_nat_alt not_less)

lemma slice4_load:
  assumes "i + 4 \<le> length skb"
  obtains w where "slice skb i 4 = Some (take 4 (drop i skb))"
    "load32 en (take 4 (drop i skb)) = Some w" "mem32 en w = take 4 (drop i skb)"
proof -
  from assms have "length (take 4 (drop i skb)) = 4" by simp
  then obtain w where "load32 en (take 4 (drop i skb)) = Some w" "mem32 en w = take 4 (drop i skb)"
    by (rule load32_Some)
  then show ?thesis by (rule that [rotated]) (use assms in simp)
qed

lemma words_of_4: "length d = 4 \<Longrightarrow> load32 en d = Some w \<Longrightarrow> words_of en d = [w]"
  by (auto elim!: length_4E)

lemma handle_v4_flow:
  assumes "14 \<le> length skb"
  shows "handle_v4 L en h skb k = Some (case flow4 en skb of
      None \<Rightarrow> (TC_ACT_OK, k)
    | Some f \<Rightarrow> (flow_verdict L k f,
          if h_reserve h then k\<lparr>events := events k @ [flow_event L en h k f]\<rparr> else k))"
proof (cases "34 \<le> length skb")
  case True
  then have "30 + 4 \<le> length skb" by simp
  then obtain w where w: "slice skb 30 4 = Some (take 4 (drop 30 skb))"
      "load32 en (take 4 (drop 30 skb)) = Some w" "mem32 en w = take 4 (drop 30 skb)"
    by (rule slice4_load)
  have "words_of en (take 4 (drop 30 skb)) = [w]"
    using True w(2) by (intro words_of_4) auto
  then show ?thesis
    using True w
    by (auto simp: handle_v4_def flow4_def Let_def bpf_consts flow_verdict_def flow_event_def
        flow_allowed_def lookup_allow_v4_def emit_def port_join first_nibble_ge5)
next
  case False
  then show ?thesis by (simp add: handle_v4_def flow4_def Let_def)
qed

lemma words_of_append4:
  "length d = 4 \<Longrightarrow> load32 en d = Some w \<Longrightarrow> words_of en (d @ bs) = w # words_of en bs"
  by (auto elim!: length_4E)

lemma load_addr6_words:
  assumes "i + 16 \<le> length skb"
  shows "load_addr6 en skb i = Some (words_of en (take 16 (drop i skb)))
       \<and> concat (map (mem32 en) (words_of en (take 16 (drop i skb)))) = take 16 (drop i skb)"
proof -
  have b: "i + 4 \<le> length skb" "(i + 4) + 4 \<le> length skb" "(i + 8) + 4 \<le> length skb"
      "(i + 12) + 4 \<le> length skb"
    using assms by simp_all
  obtain w0 where w0: "slice skb i 4 = Some (take 4 (drop i skb))"
      "load32 en (take 4 (drop i skb)) = Some w0" "mem32 en w0 = take 4 (drop i skb)"
    by (rule slice4_load [OF b(1)])
  obtain w1 where w1: "slice skb (i + 4) 4 = Some (take 4 (drop (i + 4) skb))"
      "load32 en (take 4 (drop (i + 4) skb)) = Some w1" "mem32 en w1 = take 4 (drop (i + 4) skb)"
    by (rule slice4_load [OF b(2)])
  obtain w2 where w2: "slice skb (i + 8) 4 = Some (take 4 (drop (i + 8) skb))"
      "load32 en (take 4 (drop (i + 8) skb)) = Some w2" "mem32 en w2 = take 4 (drop (i + 8) skb)"
    by (rule slice4_load [OF b(3)])
  obtain w3 where w3: "slice skb (i + 12) 4 = Some (take 4 (drop (i + 12) skb))"
      "load32 en (take 4 (drop (i + 12) skb)) = Some w3" "mem32 en w3 = take 4 (drop (i + 12) skb)"
    by (rule slice4_load [OF b(4)])
  have split: "take 16 (drop i skb) = take 4 (drop i skb) @ take 4 (drop (i + 4) skb)
      @ take 4 (drop (i + 8) skb) @ take 4 (drop (i + 12) skb) @ []"
    by (simp add: take_add [of 4 12, simplified] take_add [of 4 8, simplified]
        take_add [of 4 4, simplified] add.commute)
  have "words_of en (take 16 (drop i skb)) = [w0, w1, w2, w3]"
    unfolding split using assms w0(2) w1(2) w2(2) w3(2) by (simp add: words_of_append4 words_of_4)
  then show ?thesis
    using w0 w1 w2 w3 split by (simp add: load_addr6_def)
qed

lemma handle_v6_flow:
  assumes "14 \<le> length skb"
  shows "handle_v6 L en h skb k = Some (case flow6 skb of
      None \<Rightarrow> (TC_ACT_OK, k)
    | Some f \<Rightarrow> (flow_verdict L k f,
          if h_reserve h then k\<lparr>events := events k @ [flow_event L en h k f]\<rparr> else k))"
proof (cases "54 \<le> length skb")
  case True
  then have "38 + 16 \<le> length skb" by simp
  note w = load_addr6_words [OF this, of en]
  show ?thesis
    using True w
    by (auto simp: handle_v6_def flow6_def Let_def bpf_consts flow_verdict_def flow_event_def
        flow_allowed_def lookup_allow_v6_def emit_def port_join)
next
  case False
  then show ?thesis by (simp add: handle_v6_def flow6_def Let_def)
qed

lemma egress_flow: "censor_egress L en h skb k = Some (flow_step L en h skb k)"
proof (cases "14 \<le> length skb")
  case True
  then have "length (take 2 (drop 12 skb)) = 2" by simp
  from load16_total [OF this, of en] obtain w where "load16 en (take 2 (drop 12 skb)) = Some w" ..
  with True show ?thesis
    by (simp add: censor_egress_def flow_step_def flow_of_def handle_v4_flow handle_v6_flow)
next
  case False
  then show ?thesis by (simp add: censor_egress_def flow_step_def flow_of_def)
qed

end
