(* ===== verification/BpfMaps.thy ===== *)
theory BpfMaps
  imports CensorBpf
begin

text \<open>
  The contract of the kernel's map types, as locales over \<open>bpf_ops\<close>, and a reference implementation
  that meets it: an LPM trie of at most 16384 prefixes and an LRU hash of at most 65536 sockets, the
  sizes \<^verbatim>\<open>censor.c\<close> declares.
\<close>

section \<open>Prefixes of keys\<close>

text \<open>Key data is compared bit by bit from the most significant bit of the first byte.\<close>

definition byte_bits :: "u8 \<Rightarrow> bool list" where
  "byte_bits b = map (\<lambda>i. bit b (7 - i)) [0..<8]"

definition bits_of :: "bytes \<Rightarrow> bool list" where
  "bits_of bs = concat (map byte_bits bs)"

definition covers :: "u32 \<Rightarrow> bytes \<Rightarrow> u32 \<Rightarrow> bytes \<Rightarrow> bool" where
  "covers p e n d =
     (unat p \<le> unat n \<and> length e = length d \<and> take (unat p) (bits_of e) = take (unat p) (bits_of d))"

lemma length_byte_bits [simp]: "length (byte_bits b) = 8"
  by (simp add: byte_bits_def)

lemma length_bits_of [simp]: "length (bits_of bs) = 8 * length bs"
  by (induction bs) (simp_all add: bits_of_def)

lemma byte_bits_inject [simp]: "byte_bits a = byte_bits b \<longleftrightarrow> a = b"
proof
  assume eq: "byte_bits a = byte_bits b"
  show "a = b"
  proof (rule bit_word_eqI)
    fix n assume n: "n < LENGTH(8)"
    have "[0..<8] ! (7 - n) = 7 - n" using nth_upt [of 0 "7 - n" 8] n by simp
    with n have "byte_bits a ! (7 - n) = bit a n" "byte_bits b ! (7 - n) = bit b n"
      by (simp_all add: byte_bits_def)
    with eq show "bit a n = bit b n" by simp
  qed
qed simp

lemma bits_of_Cons: "bits_of (b # bs) = byte_bits b @ bits_of bs"
  by (simp add: bits_of_def)

lemma bits_of_append: "bits_of (as @ bs) = bits_of as @ bits_of bs"
  by (simp add: bits_of_def)

lemma bits_of_inject: "length as = length bs \<Longrightarrow> bits_of as = bits_of bs \<longleftrightarrow> as = bs"
  by (induction as bs rule: list_induct2) (simp_all add: bits_of_Cons)

lemma covers_host:
  "length e = length d \<Longrightarrow> unat p = 8 * length d \<Longrightarrow> covers p e p d \<longleftrightarrow> e = d"
  by (simp add: covers_def bits_of_inject)

lemma covers_refl: "covers p e p e"
  by (simp add: covers_def)

lemma covers_same: "covers p e q f \<Longrightarrow> q = p \<Longrightarrow> covers p e n d = covers q f n d"
  by (auto simp: covers_def)

section \<open>The contracts\<close>

locale lpm_trie =
  fixes L :: "('m, 'p) bpf_ops"
  assumes lpm_put: "lpm_update L m p e v = Inr m' \<Longrightarrow>
      lpm_lookup L m' n d \<noteq> None \<longleftrightarrow> covers p e n d \<or> lpm_lookup L m n d \<noteq> None"
begin

lemma lpm_put_hit: "lpm_update L m p e v = Inr m' \<Longrightarrow> covers p e n d \<Longrightarrow> lpm_lookup L m' n d \<noteq> None"
  using lpm_put by blast

lemma lpm_put_keeps:
  "lpm_update L m p e v = Inr m' \<Longrightarrow> lpm_lookup L m n d \<noteq> None \<Longrightarrow> lpm_lookup L m' n d \<noteq> None"
  using lpm_put by blast

lemma lpm_put_other:
  "lpm_update L m p e v = Inr m' \<Longrightarrow> \<not> covers p e n d \<Longrightarrow>
   lpm_lookup L m' n d \<noteq> None \<longleftrightarrow> lpm_lookup L m n d \<noteq> None"
  using lpm_put by blast

end

locale lru_hash =
  fixes L :: "('m, 'p) bpf_ops"
  assumes lru_put: "lru_update L m c v = Some m' \<Longrightarrow> lru_lookup L m' c = Some v"
    and lru_other: "lru_update L m c v = Some m' \<Longrightarrow> c' \<noteq> c \<Longrightarrow>
      lru_lookup L m' c' = lru_lookup L m c' \<or> lru_lookup L m' c' = None"

locale bpf_maps = lpm_trie L + lru_hash L for L :: "('m, 'p) bpf_ops"

section \<open>A reference implementation\<close>

type_synonym ref_trie = "((u32 \<times> bytes) \<times> u8) list"
type_synonym ref_lru = "(u64 \<times> u32) list"

definition ref_lookup :: "ref_trie \<Rightarrow> u32 \<Rightarrow> bytes \<Rightarrow> u8 option" where
  "ref_lookup m n d =
     (case filter (\<lambda>((p, e), v). covers p e n d) m of
        [] \<Rightarrow> None
      | x # xs \<Rightarrow> Some (snd (foldl (\<lambda>b c. if fst (fst b) < fst (fst c) then c else b) x xs)))"

definition ref_update :: "ref_trie \<Rightarrow> u32 \<Rightarrow> bytes \<Rightarrow> u8 \<Rightarrow> string + ref_trie" where
  "ref_update m p e v =
     (let rest = filter (\<lambda>((q, f), _). \<not> (q = p \<and> covers p e q f)) m in
      if unat p > 8 * length e \<or> length rest \<ge> 16384 then Inl ''update failed''
      else Inr (((p, e), v) # rest))"

definition ref_lru_update :: "ref_lru \<Rightarrow> u64 \<Rightarrow> u32 \<Rightarrow> ref_lru option" where
  "ref_lru_update m c v = Some (take 65536 ((c, v) # filter (\<lambda>(c', _). c' \<noteq> c) m))"

definition ref_ops :: "(ref_trie, ref_lru) bpf_ops" where
  "ref_ops = \<lparr>lpm_lookup = ref_lookup, lpm_update = ref_update,
              lru_lookup = map_of, lru_update = ref_lru_update\<rparr>"

lemma ref_lookup_iff: "ref_lookup m n d \<noteq> None \<longleftrightarrow> (\<exists>((p, e), v) \<in> set m. covers p e n d)"
  by (fastforce simp: ref_lookup_def filter_empty_conv split: list.splits dest: filter_eq_ConsD)

lemma ref_update_lookup:
  assumes "ref_update m p e v = Inr m'"
  shows "ref_lookup m' n d \<noteq> None \<longleftrightarrow> covers p e n d \<or> ref_lookup m n d \<noteq> None"
proof -
  from assms have m': "m' = ((p, e), v) # filter (\<lambda>((q, f), _). \<not> (q = p \<and> covers p e q f)) m"
    by (auto simp: ref_update_def Let_def split: if_splits)
  show ?thesis
    unfolding ref_lookup_iff m' using covers_same by fastforce
qed

lemma map_of_take_other: "map_of (take n xs) k = map_of xs k \<or> map_of (take n xs) k = None"
proof (induction xs arbitrary: n)
  case (Cons x xs)
  then show ?case by (cases n) auto
qed simp

lemma map_of_filter_key: "c' \<noteq> c \<Longrightarrow> map_of (filter (\<lambda>(k, _). k \<noteq> c) m) c' = map_of m c'"
  by (induction m) auto

lemma ref_lru_lookup:
  assumes "ref_lru_update m c v = Some m'"
  shows "map_of m' c = Some v"
    and "c' \<noteq> c \<Longrightarrow> map_of m' c' = map_of m c' \<or> map_of m' c' = None"
  using assms map_of_take_other [of 65535 "filter (\<lambda>(k, _). k \<noteq> c) m" c']
  by (auto simp: ref_lru_update_def map_of_filter_key)

interpretation ref: bpf_maps ref_ops
  by unfold_locales (auto simp: ref_ops_def dest: ref_update_lookup ref_lru_lookup)

lemma ref_lpm_trie: "lpm_trie ref_ops"
  by (rule ref.lpm_trie_axioms)

lemma ref_lru_hash: "lru_hash ref_ops"
  by (rule ref.lru_hash_axioms)

text \<open>The state after load: empty maps and a zeroed configuration.\<close>

definition ref_boot :: "(ref_trie, ref_lru) kstate" where
  "ref_boot = \<lparr>allow_v4 = [], allow_v6 = [], config = [0, 0], sock_pid = [], events = []\<rparr>"

end
