(* ===== verification/BpfProps.thy ===== *)
theory BpfProps
  imports BpfMaps
begin

text \<open>
  Properties of the eBPF programs: memory safety and the flow-level account of the egress filter, what
  it drops, what it logs, the attribution of packets to processes, and the sudo tracepoint.
\<close>

section \<open>Ether types\<close>

lemma htons_consts: "bpf_htons ETH_P_IP = 8" "bpf_htons ETH_P_IPV6 = 0xDD86"
  by (simp_all add: bpf_htons_def bpf_consts)

lemma load16_pair:
  assumes "14 \<le> length skb"
  shows "take 2 (drop 12 skb) = [skb ! 12, skb ! 13]"
  by (rule nth_equalityI) (use assms in \<open>auto simp: numeral_2_eq_2 less_Suc_eq\<close>)

lemma join_be16_inject [simp]: "join_be16 a b = join_be16 c d \<longleftrightarrow> a = c \<and> b = d"
  by (metis ucast_join_be16)

lemma join_be16_eq: "join_be16 a b = w \<longleftrightarrow> a = ucast (drop_bit 8 w) \<and> b = ucast w"
  by (metis join_be16_inject join_be16_split)

lemma ethertype_little:
  assumes "14 \<le> length skb"
  shows "load16 LittleEndian (take 2 (drop 12 skb)) = Some (bpf_htons ETH_P_IP)
      \<longleftrightarrow> skb ! 12 = 0x08 \<and> skb ! 13 = 0x00"
    and "load16 LittleEndian (take 2 (drop 12 skb)) = Some (bpf_htons ETH_P_IPV6)
      \<longleftrightarrow> skb ! 12 = 0x86 \<and> skb ! 13 = 0xDD"
  by (auto simp: load16_pair [OF assms] htons_consts join_be16_eq)

lemma ethertype_big:
  assumes "14 \<le> length skb"
  shows "load16 BigEndian (take 2 (drop 12 skb)) = Some (bpf_htons ETH_P_IP)
      \<longleftrightarrow> skb ! 12 = 0x00 \<and> skb ! 13 = 0x08"
    and "load16 BigEndian (take 2 (drop 12 skb)) = Some (bpf_htons ETH_P_IPV6)
      \<longleftrightarrow> skb ! 12 = 0xDD \<and> skb ! 13 = 0x86"
  by (auto simp: load16_pair [OF assms] htons_consts join_be16_eq)

lemma flow_of_little:
  assumes "14 \<le> length skb"
  shows "flow_of LittleEndian skb =
     (if skb ! 12 = 0x08 \<and> skb ! 13 = 0x00 then flow4 LittleEndian skb
      else if skb ! 12 = 0x86 \<and> skb ! 13 = 0xDD then flow6 skb else None)"
  using assms unfolding flow_of_def ethertype_little [OF assms] by simp

lemma flow_of_big:
  assumes "14 \<le> length skb"
  shows "flow_of BigEndian skb =
     (if skb ! 12 = 0x00 \<and> skb ! 13 = 0x08 then flow4 BigEndian skb
      else if skb ! 12 = 0xDD \<and> skb ! 13 = 0x86 then flow6 skb else None)"
  using assms unfolding flow_of_def ethertype_big [OF assms] by simp

lemma shot_not_ok [simp]: "TC_ACT_SHOT \<noteq> TC_ACT_OK" "TC_ACT_OK \<noteq> TC_ACT_SHOT"
  by (simp_all add: bpf_consts)

lemma flow_step_verdict:
  "fst (flow_step L en h skb k) = TC_ACT_SHOT
   \<longleftrightarrow> audit_mode k = 0 \<and> (\<exists>f. flow_of en skb = Some f \<and> \<not> flow_allowed L k f)"
  by (simp add: flow_step_def flow_verdict_def split: option.splits)

section \<open>Sample packets\<close>

text \<open>An IPv4 TCP frame to port 443 (the one of \<^verbatim>\<open>bpf/testrun_linux_test.go\<close>, without its TCP tail)
  and an IPv6 frame with a given next header.\<close>

definition pkt4 :: "u8 \<Rightarrow> u8 \<Rightarrow> u8 \<Rightarrow> u8 \<Rightarrow> bytes" where
  "pkt4 a b c d = [0,0,0,0,0,0, 0,0,0,0,0,0, 8,0, 69,0,0,0, 0,0,0,0, 0,6,0,0, 0,0,0,0, a,b,c,d, 0,0,1,187]"

definition pkt6 :: "u8 \<Rightarrow> bytes" where
  "pkt6 nxt = [0,0,0,0,0,0, 0,0,0,0,0,0, 134,221, 96,0,0,0, 0,0,nxt,64,
     0,0,0,0,0,0,0,0,0,0,0,0,0,0,0,0, 32,1,13,184,0,0,0,0,0,0,0,0,0,0,0,1, 0,0,1,187]"

definition hooks0 :: hooks where
  "hooks0 = \<lparr>h_cookie = 7, h_pid_tgid = push_bit 32 42, h_comm = [], h_reserve = True\<rparr>"

lemma pkt4_flow:
  "flow_of LittleEndian (pkt4 a b c d) =
     Some \<lparr>f_v6 = False, f_dst = [a, b, c, d], f_dport = 443, f_proto = 6\<rparr>"
  by (simp add: flow_of_little pkt4_def flow4_def first_nibble_def join_be16_def)

section \<open>Properties\<close>

text \<open>The egress program is safe and transparent: on every packet, however short or malformed, it
  stays inside the packet buffer and returns pass or drop; it writes none of the maps, and it submits
  at most one record, after those already there.\<close>

theorem egress_safe:
  "\<exists>v k' es. censor_egress L en h skb k = Some (v, k') \<and> v \<in> {TC_ACT_OK, TC_ACT_SHOT}
     \<and> length es \<le> 1 \<and> k' = k\<lparr>events := events k @ es\<rparr>"
proof (cases "flow_of en skb")
  case None
  then show ?thesis by (intro exI [of _ TC_ACT_OK] exI [of _ k] exI [of _ "[]"]) (simp add: egress_flow flow_step_def)
next
  case (Some f)
  let ?es = "if h_reserve h then [flow_event L en h k f] else []"
  show ?thesis
    by (intro exI [of _ "flow_verdict L k f"] exI [of _ "k\<lparr>events := events k @ ?es\<rparr>"] exI [of _ ?es])
       (simp add: egress_flow flow_step_def Some flow_verdict_def)
qed

text \<open>C18: The egress program refines the flow-level filter: its verdict and its log record are a
  function of the packet's flow (family, destination, port, protocol) alone, packets without a flow
  pass unlogged, and the record carries the verdict of the allow map.\<close>

theorem egress_refines_flow:
  "censor_egress L en h skb k =
     Some (case flow_of en skb of
             None \<Rightarrow> (TC_ACT_OK, k)
           | Some f \<Rightarrow> (flow_verdict L k f,
               if h_reserve h then k\<lparr>events := events k @ [flow_event L en h k f]\<rparr> else k))"
  by (simp add: egress_flow flow_step_def)

text \<open>C17: What is dropped, in terms of packet bytes, on a little-endian host: exactly the packets of an
  enforcing configuration that are IPv4 or IPv6 by Ethernet type, carry TCP or UDP (for IPv6 directly
  after the fixed header, and not to a multicast address) with the ports inside the buffer, and whose
  destination bytes find no entry in the allow map of their family.\<close>

theorem egress_drops_iff:
  assumes "14 \<le> length skb"
  shows "map_option fst (censor_egress L LittleEndian h skb k) = Some TC_ACT_SHOT \<longleftrightarrow>
     audit_mode k = 0 \<and>
     (skb ! 12 = 0x08 \<and> skb ! 13 = 0x00 \<and> 34 \<le> length skb \<and> skb ! 23 \<in> {6, 17}
        \<and> 5 \<le> unat (skb ! 14 AND 15) \<and> 18 + unat (skb ! 14 AND 15) * 4 \<le> length skb
        \<and> lpm_lookup L (allow_v4 k) 32 (take 4 (drop 30 skb)) = None
      \<or> skb ! 12 = 0x86 \<and> skb ! 13 = 0xDD \<and> 58 \<le> length skb \<and> skb ! 20 \<in> {6, 17} \<and> skb ! 38 \<noteq> 0xff
        \<and> lpm_lookup L (allow_v6 k) 128 (take 16 (drop 38 skb)) = None)"
  using assms
  by (auto simp: egress_flow flow_step_verdict flow_of_little flow4_def flow6_def Let_def
      flow_allowed_def first_nibble_def)

theorem egress_drops_iff_witness:
  "map_option fst (censor_egress ref_ops LittleEndian hooks0 (pkt4 1 2 3 4) ref_boot) = Some TC_ACT_SHOT"
  by (subst egress_drops_iff)
     (simp_all add: pkt4_def ref_boot_def ref_ops_def ref_lookup_def audit_mode_def array_lookup_def)

text \<open>In monitor mode (a non-zero configuration word, or none) no packet is dropped, on either byte
  order.\<close>

theorem monitor_never_drops:
  assumes "audit_mode k \<noteq> 0"
  shows "map_option fst (censor_egress L en h skb k) = Some TC_ACT_OK"
  using assms by (simp add: egress_flow flow_step_def flow_verdict_def split: option.splits)

theorem monitor_never_drops_witness:
  "map_option fst (censor_egress ref_ops LittleEndian hooks0 (pkt4 1 2 3 4) (ref_boot\<lparr>config := [1, 0]\<rparr>))
     = Some TC_ACT_OK"
  by (rule monitor_never_drops) (simp add: audit_mode_def array_lookup_def)

text \<open>C35: On a big-endian host the filter is inert: \<^verbatim>\<open>bpf_htons\<close> always swaps, so real IPv4 and IPv6
  frames are not recognised, and every one of them passes unlogged in every configuration.\<close>

theorem big_endian_inert:
  assumes "14 \<le> length skb"
    and "skb ! 12 = 0x08 \<and> skb ! 13 = 0x00 \<or> skb ! 12 = 0x86 \<and> skb ! 13 = 0xDD"
  shows "censor_egress L BigEndian h skb k = Some (TC_ACT_OK, k)"
  using assms by (auto simp: egress_flow flow_step_def flow_of_big)

theorem big_endian_inert_witness:
  "censor_egress ref_ops BigEndian hooks0 (pkt4 1 2 3 4) ref_boot = Some (TC_ACT_OK, ref_boot)"
  by (rule big_endian_inert) (simp_all add: pkt4_def)

text \<open>IPv6 extension headers escape the filter: an IPv6 frame whose next header is neither TCP nor
  UDP (hop-by-hop, routing, fragment, destination options, tunnels) passes unlogged, whatever the
  transport behind it and whatever the configuration.\<close>

theorem extension_headers_pass:
  assumes "14 \<le> length skb" "skb ! 12 = 0x86" "skb ! 13 = 0xDD" "skb ! 20 \<notin> {6, 17}"
  shows "censor_egress L LittleEndian h skb k = Some (TC_ACT_OK, k)"
  using assms by (simp add: egress_flow flow_step_def flow_of_little flow6_def)

theorem extension_headers_pass_witness:
  "censor_egress ref_ops LittleEndian hooks0 (pkt6 44) ref_boot = Some (TC_ACT_OK, ref_boot)"
  by (rule extension_headers_pass) (simp_all add: pkt6_def)

text \<open>No silent drop: when a packet is dropped and the ring buffer has room, the record submitted
  for it is a network event with the allowed flag clear, TCP or UDP as protocol, and the pid the
  socket map gives.\<close>

theorem drops_are_logged:
  assumes "censor_egress L en h skb k = Some (TC_ACT_SHOT, k')" "h_reserve h"
  shows "\<exists>e. events k' = events k @ [e] \<and> e_allowed e = 0 \<and> e_kind e = EVENT_KIND_NET
     \<and> e_proto e \<in> {IPPROTO_TCP, IPPROTO_UDP} \<and> e_pid e = current_pid_for_skb L k h"
proof -
  from assms obtain f where f: "flow_of en skb = Some f" "flow_verdict L k f = TC_ACT_SHOT"
      "k' = k\<lparr>events := events k @ [flow_event L en h k f]\<rparr>"
    by (auto simp: egress_flow flow_step_def split: option.splits)
  then have "f_proto f \<in> {6, 17}"
    by (auto simp: flow_of_def flow4_def flow6_def Let_def split: if_splits)
  with f show ?thesis
    by (auto simp: flow_event_def flow_verdict_def bpf_consts split: if_splits)
qed



theorem drops_are_logged_witness:
  "\<exists>k' e. censor_egress ref_ops LittleEndian hooks0 (pkt4 1 2 3 4) ref_boot = Some (TC_ACT_SHOT, k')
     \<and> events k' = events ref_boot @ [e] \<and> e_allowed e = 0"
proof -
  have "\<exists>k'. censor_egress ref_ops LittleEndian hooks0 (pkt4 1 2 3 4) ref_boot = Some (TC_ACT_SHOT, k')"
    by (simp add: egress_flow flow_step_def pkt4_flow flow_verdict_def flow_allowed_def ref_boot_def
        ref_ops_def ref_lookup_def audit_mode_def array_lookup_def)
  then obtain k' where k': "censor_egress ref_ops LittleEndian hooks0 (pkt4 1 2 3 4) ref_boot = Some (TC_ACT_SHOT, k')" ..
  have "h_reserve hooks0" by (simp add: hooks0_def)
  from drops_are_logged [OF k' this] k' show ?thesis by blast
qed

section \<open>Connect attribution and the exec tracepoint\<close>

text \<open>A history of connect hooks, each for IPv4 (\<open>False\<close>) or IPv6 (\<open>True\<close>).\<close>

fun run_connects :: "('m, 'p) bpf_ops \<Rightarrow> (bool \<times> hooks) list \<Rightarrow> ('m, 'p) kstate \<Rightarrow> ('m, 'p) kstate" where
  "run_connects L [] k = k"
| "run_connects L ((v6, h) # hs) k =
     run_connects L hs (snd (if v6 then censor_connect6 L h k else censor_connect4 L h k))"

definition hook_pid :: "hooks \<Rightarrow> u32" where
  "hook_pid h = ucast (drop_bit 32 (h_pid_tgid h))"

lemma connect6_as_4: "censor_connect6 L h k = censor_connect4 L h k"
  by (simp add: censor_connect4_def censor_connect6_def)

lemma connect_state:
  "snd (censor_connect4 L h k) =
     (case lru_update L (sock_pid k) (h_cookie h) (hook_pid h) of Some m \<Rightarrow> k\<lparr>sock_pid := m\<rparr> | None \<Rightarrow> k)"
  by (simp add: censor_connect4_def hook_pid_def Let_def)

context lru_hash
begin

lemma connect_pid:
  "lru_lookup L (sock_pid (snd (censor_connect4 L h k))) c = None
   \<or> lru_lookup L (sock_pid (snd (censor_connect4 L h k))) c = lru_lookup L (sock_pid k) c
   \<or> c = h_cookie h \<and> lru_lookup L (sock_pid (snd (censor_connect4 L h k))) c = Some (hook_pid h)"
proof (cases "lru_update L (sock_pid k) (h_cookie h) (hook_pid h)")
  case (Some m)
  then show ?thesis
    using lru_put [OF Some] lru_other [OF Some, of c]
    by (cases "c = h_cookie h") (auto simp: connect_state)
qed (simp add: connect_state)

lemma connects_pid:
  "lru_lookup L (sock_pid (run_connects L hs k)) c = None
   \<or> lru_lookup L (sock_pid (run_connects L hs k)) c = lru_lookup L (sock_pid k) c
   \<or> (\<exists>v6 h. (v6, h) \<in> set hs \<and> h_cookie h = c
        \<and> lru_lookup L (sock_pid (run_connects L hs k)) c = Some (hook_pid h))"
proof (induction hs arbitrary: k)
  case (Cons a hs)
  obtain v6 h where a: "a = (v6, h)" by (cases a)
  have run: "run_connects L (a # hs) k = run_connects L hs (snd (censor_connect4 L h k))"
    by (simp add: a connect6_as_4)
  let ?r = "lru_lookup L (sock_pid (run_connects L hs (snd (censor_connect4 L h k)))) c"
  consider "?r = None" | "?r = lru_lookup L (sock_pid (snd (censor_connect4 L h k))) c"
    | v6' h' where "(v6', h') \<in> set hs" "h_cookie h' = c" "?r = Some (hook_pid h')"
    using Cons.IH [of "snd (censor_connect4 L h k)"] by (elim disjE exE conjE) simp_all
  then show ?case
  proof cases
    case 2
    from connect_pid [of h k c] show ?thesis unfolding run 2 by (auto simp: a)
  next
    case 3
    then have "(v6', h') \<in> set (a # hs)" by simp
    with 3 show ?thesis unfolding run by blast
  qed (simp add: run)
qed simp

lemma connect_then_lookup:
  "lru_update L (sock_pid k) (h_cookie h) (hook_pid h) \<noteq> None \<Longrightarrow>
   lru_lookup L (sock_pid (snd (censor_connect4 L h k))) (h_cookie h) = Some (hook_pid h)"
  by (auto simp: connect_state intro: lru_put)

end

text \<open>C34: Packets are never blamed on a stranger: after any history of connects from an empty socket map,
  an egress packet's record carries pid 0 or the pid of a process that connected with that very
  socket cookie.\<close>

theorem attribution_sound:
  assumes "lru_hash L" "\<And>c. lru_lookup L (sock_pid k) c = None"
    and "censor_egress L en h skb (run_connects L hs k) = Some (v, k')"
    and "events k' = events (run_connects L hs k) @ [e]"
  shows "e_pid e = 0 \<or> (\<exists>v6 h'. (v6, h') \<in> set hs \<and> h_cookie h' = h_cookie h \<and> e_pid e = hook_pid h')"
proof -
  let ?k = "run_connects L hs k"
  from assms(3,4) have "e_pid e = current_pid_for_skb L ?k h"
    by (auto simp: egress_flow flow_step_def flow_event_def split: option.splits if_splits)
  with lru_hash.connects_pid [OF assms(1), where hs = hs and k = k and c = "h_cookie h"] assms(2)
  show ?thesis
    by (auto simp: current_pid_for_skb_def split: option.splits)
qed

theorem attribution_sound_witness:
  "\<exists>v k' e. censor_egress ref_ops LittleEndian hooks0 (pkt4 1 2 3 4)
       (run_connects ref_ops [(False, hooks0)] ref_boot) = Some (v, k')
     \<and> events k' = events (run_connects ref_ops [(False, hooks0)] ref_boot) @ [e]
     \<and> (e_pid e = 0 \<or> (\<exists>v6 h'. (v6, h') \<in> set [(False, hooks0)] \<and> h_cookie h' = h_cookie hooks0 \<and> e_pid e = hook_pid h'))
     \<and> e_pid e = 42"
proof -
  let ?k = "run_connects ref_ops [(False, hooks0)] ref_boot"
  let ?f = "\<lparr>f_v6 = False, f_dst = [1, 2, 3, 4], f_dport = 443, f_proto = 6\<rparr> :: flow"
  let ?e = "flow_event ref_ops LittleEndian hooks0 ?k ?f"
  have run: "censor_egress ref_ops LittleEndian hooks0 (pkt4 1 2 3 4) ?k
      = Some (flow_verdict ref_ops ?k ?f, ?k\<lparr>events := events ?k @ [?e]\<rparr>)"
    by (simp add: egress_flow flow_step_def pkt4_flow hooks0_def)
  have empty: "\<And>c. lru_lookup ref_ops (sock_pid ref_boot) c = None"
    by (simp add: ref_ops_def ref_boot_def)
  have pid: "e_pid ?e = 42"
    by (simp add: flow_event_def current_pid_for_skb_def censor_connect4_def ref_ops_def
        ref_lru_update_def ref_boot_def hooks0_def Let_def)
  from attribution_sound [OF ref_lru_hash empty run, of ?e]
  have "e_pid ?e = 0 \<or> (\<exists>v6 h'. (v6, h') \<in> set [(False, hooks0)] \<and> h_cookie h' = h_cookie hooks0
      \<and> e_pid ?e = hook_pid h')" by simp
  note blame = this
  show ?thesis
    by (rule exI, rule exI, rule exI [of _ ?e], intro conjI) (rule run, simp, rule blame, rule pid)
qed

text \<open>A connect is remembered: right after a successful record, a packet of that socket that is
  logged carries the connecting process's pid.\<close>

theorem connect_attributes:
  assumes "lru_hash L" "lru_update L (sock_pid k) (h_cookie h) (hook_pid h) \<noteq> None"
    and "h_cookie h' = h_cookie h" "h_reserve h'" "flow_of en skb = Some f"
    and "k1 = snd (censor_connect4 L h k) \<or> k1 = snd (censor_connect6 L h k)"
  shows "\<exists>v k2 e. censor_egress L en h' skb k1 = Some (v, k2) \<and> events k2 = events k1 @ [e]
      \<and> e_pid e = hook_pid h \<and> e_proto e = f_proto f \<and> e_dport e = f_dport f"
proof -
  have "lru_lookup L (sock_pid k1) (h_cookie h) = Some (hook_pid h)"
    using lru_hash.connect_then_lookup [OF assms(1,2)] assms(6) by (auto simp: connect6_as_4)
  then show ?thesis
    using assms(3-5) by (simp add: egress_flow flow_step_def flow_event_def current_pid_for_skb_def)
qed

theorem connect_attributes_witness:
  "\<exists>v k2 e. censor_egress ref_ops LittleEndian hooks0 (pkt4 1 2 3 4)
        (snd (censor_connect4 ref_ops hooks0 ref_boot)) = Some (v, k2)
      \<and> events k2 = events (snd (censor_connect4 ref_ops hooks0 ref_boot)) @ [e] \<and> e_pid e = hook_pid hooks0"
proof -
  have "lru_update ref_ops (sock_pid ref_boot) (h_cookie hooks0) (hook_pid hooks0) \<noteq> None" "h_reserve hooks0"
    by (simp_all add: ref_ops_def ref_lru_update_def hooks0_def)
  from connect_attributes [OF ref_lru_hash this(1) refl this(2) pkt4_flow [of 1 2 3 4]
      disjI1 [OF refl]]
  show ?thesis by auto
qed

definition sudo_bytes :: bytes where
  "sudo_bytes = [115, 117, 100, 111]"

text \<open>The exec tracepoint always returns 0 and logs, room permitting, exactly the processes whose
  name is \<^verbatim>\<open>sudo\<close> or starts with \<^verbatim>\<open>sudo\<close> followed by a newline or the letter \<^verbatim>\<open>e\<close>: so every name that
  begins with \<^verbatim>\<open>sudoe\<close>, not only \<^verbatim>\<open>sudoedit\<close>.\<close>

theorem exec_logs_sudo:
  assumes "length (h_comm h) \<le> 15" "0 \<notin> set (h_comm h)"
  shows "censor_exec h k = (0,
     if h_reserve h \<and> (h_comm h = sudo_bytes \<or> prefix (sudo_bytes @ [10]) (h_comm h)
                        \<or> prefix (sudo_bytes @ [101]) (h_comm h))
     then k\<lparr>events := events k @
       [\<lparr>e_pid = hook_pid h, e_dst_v4 = 0, e_dst_v6 = [0, 0, 0, 0], e_dport = 0, e_proto = 0,
         e_allowed = 1, e_family = 0, e_kind = EVENT_KIND_SUDO,
         e_comm = take 16 (h_comm h @ replicate 16 0)\<rparr>]\<rparr>
     else k)"
proof -
  have "comm_is_sudo (take 16 (h_comm h @ replicate 16 0)) \<longleftrightarrow>
      h_comm h = sudo_bytes \<or> prefix (sudo_bytes @ [10]) (h_comm h) \<or> prefix (sudo_bytes @ [101]) (h_comm h)"
  proof (cases "length (h_comm h) < 5")
    case True
    then consider "h_comm h = []" | a where "h_comm h = [a]" | a b where "h_comm h = [a, b]"
      | a b c where "h_comm h = [a, b, c]" | a b c d where "h_comm h = [a, b, c, d]"
      by (auto simp: numeral_eq_Suc less_Suc_eq length_Suc_conv)
    then show ?thesis
      using assms(2) by cases (auto simp: comm_is_sudo_def sudo_bytes_def)
  next
    case False
    then obtain a b c d e xs where "h_comm h = a # b # c # d # e # xs"
      by (auto simp: numeral_eq_Suc not_less Suc_le_length_iff)
    then show ?thesis
      using assms(2) by (auto simp: comm_is_sudo_def sudo_bytes_def)
  qed
  then show ?thesis
    by (auto simp: censor_exec_def emit_def hook_pid_def Let_def)
qed

theorem exec_logs_sudo_witness:
  "events (snd (censor_exec (hooks0\<lparr>h_comm := sudo_bytes @ [101, 114, 115]\<rparr>) ref_boot)) \<noteq> []"
  by (subst exec_logs_sudo) (simp_all add: hooks0_def sudo_bytes_def)

end
