(* ===== verification/Firewall.thy ===== *)
theory Firewall
  imports NetAddr BpfProps
begin

text \<open>
  The user-space side of the firewall, \<^verbatim>\<open>internal/ebpf\<close>: the key builders of \<^verbatim>\<open>keys.go\<close>, the insertion
  of addresses and prefixes into the allow maps (\<^verbatim>\<open>attach_linux.go\<close>, \<^verbatim>\<open>cidr.go\<close>, \<^verbatim>\<open>cidr_linux.go\<close>), and
  the attach/detach state machine with its resources. The package's mutex makes each operation atomic,
  so the package-level variables are one record passed through. \<open>None\<close> is a run-time panic; errors are
  the text of the Go error.
\<close>

section \<open>State\<close>

text \<open>
  What the process holds in the kernel: loaded objects, links, the classic filter, the ring-buffer
  reader. A handle is a kind and a serial number. \<open>live\<close> are the handles open now; \<open>bad_close\<close> records
  a close of a handle that is not open.
\<close>

datatype kind = KObjs | KCg4 | KCg6 | KTcx | KFilter | KExec | KRing

type_synonym handle = "kind \<times> nat"

record egressAttach =
  tcx :: "handle option"
  filt :: "handle option"

record ('m, 'p) fw =
  loaded :: bool
  objs :: "('m, 'p) kstate"
  objsH :: "handle option"
  cg4 :: "handle option"
  cg6 :: "handle option"
  execL :: "handle option"
  tcAtt :: "egressAttach option"
  rd :: "handle option"
  eventCh :: bool
  fresh :: nat
  live :: "handle list"
  bad_close :: bool

definition acquire :: "kind \<Rightarrow> ('m, 'p) fw \<Rightarrow> handle \<times> ('m, 'p) fw" where
  "acquire kd s = ((kd, fresh s), s\<lparr>fresh := Suc (fresh s), live := (kd, fresh s) # live s\<rparr>)"

definition release :: "handle option \<Rightarrow> ('m, 'p) fw \<Rightarrow> ('m, 'p) fw" where
  "release ho s = (case ho of
     None \<Rightarrow> s
   | Some h \<Rightarrow> if h \<in> set (live s) then s\<lparr>live := remove1 h (live s)\<rparr> else s\<lparr>bad_close := True\<rparr>)"

section \<open>Keys\<close>

record LPMKeyV4 =
  PrefixLen :: u32
  LAddr :: u32

definition NewLPMKeyV4 :: "Addr \<Rightarrow> (string + LPMKeyV4) option" where
  "NewLPMKeyV4 addr =
     (if \<not> Is4 addr then Some (Inl ''address is not IPv4'')
      else do {
        b \<leftarrow> As4 addr;
        w \<leftarrow> get_be32 b;
        Some (Inr \<lparr>PrefixLen = 32, LAddr = w\<rparr>)
      })"

text \<open>
  A map update marshals the key struct, whose \<^verbatim>\<open>structs.HostLayout\<close> (in the generated bindings) makes
  the key bytes the host's memory image of its fields: the data of a v4 key is \<open>mem32\<close> of the address
  word, that of a v6 key the images of its four words in order.
\<close>

definition putV4 :: "('m, 'p) bpf_ops \<Rightarrow> endian \<Rightarrow> u32 \<Rightarrow> u32 \<Rightarrow> ('m, 'p) fw \<Rightarrow> ('m, 'p) fw \<times> string option" where
  "putV4 L en prefixLen addr s =
     (case lpm_update L (allow_v4 (objs s)) prefixLen (mem32 en addr) 1 of
        Inl e \<Rightarrow> (s, Some e)
      | Inr m \<Rightarrow> (s\<lparr>objs := (objs s)\<lparr>allow_v4 := m\<rparr>\<rparr>, None))"

definition putV6 :: "('m, 'p) bpf_ops \<Rightarrow> endian \<Rightarrow> u32 \<Rightarrow> u32 list \<Rightarrow> ('m, 'p) fw \<Rightarrow> ('m, 'p) fw \<times> string option" where
  "putV6 L en prefixLen addr s =
     (case lpm_update L (allow_v6 (objs s)) prefixLen (concat (map (mem32 en) addr)) 1 of
        Inl e \<Rightarrow> (s, Some e)
      | Inr m \<Rightarrow> (s\<lparr>objs := (objs s)\<lparr>allow_v6 := m\<rparr>\<rparr>, None))"

section \<open>Insertion\<close>

text \<open>The loop over the four words of an address: \<^verbatim>\<open>BigEndian.Uint32(b[i*4 : (i+1)*4])\<close>.\<close>

definition words16 :: "bytes \<Rightarrow> u32 list option" where
  "words16 b = do {
     s0 \<leftarrow> slice b 0 4; w0 \<leftarrow> get_be32 s0;
     s1 \<leftarrow> slice b 4 4; w1 \<leftarrow> get_be32 s1;
     s2 \<leftarrow> slice b 8 4; w2 \<leftarrow> get_be32 s2;
     s3 \<leftarrow> slice b 12 4; w3 \<leftarrow> get_be32 s3;
     Some [w0, w1, w2, w3]
   }"

definition AllowIP :: "('m, 'p) bpf_ops \<Rightarrow> endian \<Rightarrow> Addr \<Rightarrow> ('m, 'p) fw \<Rightarrow>
    (('m, 'p) fw \<times> string option) option" where
  "AllowIP L en addr s =
     (if \<not> loaded s then Some (s, None)
      else if Is4 addr then do {
        b \<leftarrow> As4 addr;
        w \<leftarrow> get_be32 b;
        Some (putV4 L en 32 w s)
      }
      else if Is6 addr then do {
        ws \<leftarrow> words16 (As16 addr);
        Some (putV6 L en 128 ws s)
      }
      else Some (s, None))"

definition allowV4Prefix :: "('m, 'p) bpf_ops \<Rightarrow> endian \<Rightarrow> u32 \<Rightarrow> u32 \<Rightarrow> ('m, 'p) fw \<Rightarrow>
    ('m, 'p) fw \<times> string option" where
  "allowV4Prefix L en addrBE prefixLen s = (if \<not> loaded s then (s, None) else putV4 L en prefixLen addrBE s)"

definition allowV6Prefix :: "('m, 'p) bpf_ops \<Rightarrow> endian \<Rightarrow> u32 list \<Rightarrow> u32 \<Rightarrow> ('m, 'p) fw \<Rightarrow>
    ('m, 'p) fw \<times> string option" where
  "allowV6Prefix L en addr prefixLen s = (if \<not> loaded s then (s, None) else putV6 L en prefixLen addr s)"

definition AllowPrefix :: "('m, 'p) bpf_ops \<Rightarrow> endian \<Rightarrow> Prefix \<Rightarrow> ('m, 'p) fw \<Rightarrow>
    (('m, 'p) fw \<times> string option) option" where
  "AllowPrefix L en pfx s =
     (if \<not> prefixValid pfx then Some (s, Some ''invalid prefix'')
      else (let pfx = Masked pfx; addr = pAddr pfx; bits = pBits pfx in
        if Is4 addr then do {
          b \<leftarrow> As4 addr;
          w \<leftarrow> get_be32 b;
          Some (allowV4Prefix L en w (word_of_int bits) s)
        }
        else if Is6 addr then do {
          ws \<leftarrow> words16 (As16 addr);
          Some (allowV6Prefix L en ws (word_of_int bits) s)
        }
        else Some (s, Some ''unsupported address family'')))"

text \<open>\<^verbatim>\<open>netip.ParsePrefix\<close> is the parameter \<open>parse\<close>. Errors carry the entry they belong to.\<close>

fun ParseAndAllowCIDRs :: "(string \<Rightarrow> string + Prefix) \<Rightarrow> ('m, 'p) bpf_ops \<Rightarrow> endian \<Rightarrow> string list \<Rightarrow>
    ('m, 'p) fw \<Rightarrow> (('m, 'p) fw \<times> nat \<times> (string \<times> string) list) option" where
  "ParseAndAllowCIDRs parse L en [] s = Some (s, 0, [])"
| "ParseAndAllowCIDRs parse L en (c # cidrs) s =
     (case parse c of
        Inl e \<Rightarrow> do {
          (s', n, errs) \<leftarrow> ParseAndAllowCIDRs parse L en cidrs s;
          Some (s', n, (c, e) # errs)
        }
      | Inr p \<Rightarrow> do {
          (s1, err) \<leftarrow> AllowPrefix L en p s;
          (s', n, errs) \<leftarrow> ParseAndAllowCIDRs parse L en cidrs s1;
          Some (case err of Some e \<Rightarrow> (s', n, (c, e) # errs) | None \<Rightarrow> (s', Suc n, errs))
        })"

section \<open>What an insertion admits\<close>

lemma words16_As16: "Is6 a \<Longrightarrow> \<exists>w0 w1 w2 w3. a = Addr6 w0 w1 w2 w3 \<and> words16 (As16 a) = Some [w0, w1, w2, w3]"
  by (cases a) (auto simp: words16_def codec_simps)

lemma words16_Addr6 [simp]:
  "words16 (put_be32 w0 @ put_be32 w1 @ put_be32 w2 @ put_be32 w3) = Some [w0, w1, w2, w3]"
  by (simp add: words16_def codec_simps)

lemma AllowIP_cases:
  "AllowIP L en addr s = Some
     (if \<not> loaded s then (s, None) else
      (case addr of Addr4 w \<Rightarrow> putV4 L en 32 w s
       | Addr6 w0 w1 w2 w3 \<Rightarrow> putV6 L en 128 [w0, w1, w2, w3] s
       | AddrZero \<Rightarrow> (s, None)))"
  by (cases addr) (simp_all add: AllowIP_def codec_simps)

lemma AllowPrefix_cases:
  "AllowPrefix L en p s = Some
     (if \<not> prefixValid p then (s, Some ''invalid prefix'')
      else if \<not> loaded s then (s, None)
      else (case maskAddr (nat (pBits p)) (pAddr p) of
         Addr4 w \<Rightarrow> putV4 L en (word_of_int (pBits p)) w s
       | Addr6 w0 w1 w2 w3 \<Rightarrow> putV6 L en (word_of_int (pBits p)) [w0, w1, w2, w3] s
       | AddrZero \<Rightarrow> (s, None)))"
  by (cases "pAddr p")
     (simp_all add: AllowPrefix_def codec_simps prefixValid_def Masked_def allowV4Prefix_def allowV6Prefix_def)

text \<open>The flows an allow-map key admits.\<close>

definition admits4 :: "u32 \<Rightarrow> bytes \<Rightarrow> flow \<Rightarrow> bool" where
  "admits4 p key f = (\<not> f_v6 f \<and> covers p key 32 (f_dst f))"

definition admits6 :: "u32 \<Rightarrow> bytes \<Rightarrow> flow \<Rightarrow> bool" where
  "admits6 p key f = (f_v6 f \<and> covers p key 128 (f_dst f))"

context lpm_trie
begin

lemma putV4_flow:
  "putV4 L en p w s = (s', None) \<Longrightarrow>
   flow_allowed L (objs s') f \<longleftrightarrow> admits4 p (mem32 en w) f \<or> flow_allowed L (objs s) f"
  using lpm_put [of "allow_v4 (objs s)" p "mem32 en w" 1 _ 32 "f_dst f"]
  by (auto simp: putV4_def flow_allowed_def admits4_def split: sum.splits)

lemma putV6_flow:
  "putV6 L en p ws s = (s', None) \<Longrightarrow>
   flow_allowed L (objs s') f \<longleftrightarrow> admits6 p (concat (map (mem32 en) ws)) f \<or> flow_allowed L (objs s) f"
  using lpm_put [of "allow_v6 (objs s)" p "concat (map (mem32 en) ws)" 1 _ 128 "f_dst f"]
  by (auto simp: putV6_def flow_allowed_def admits6_def split: sum.splits)

end

lemma put_error_same:
  "putV4 L en p w s = (s', Some e) \<Longrightarrow> s' = s" "putV6 L en p ws s = (s', Some e) \<Longrightarrow> s' = s"
  by (auto simp: putV4_def putV6_def split: sum.splits)

lemma put_frame:
  "loaded (fst (putV4 L en p w s)) = loaded s" "loaded (fst (putV6 L en p ws s)) = loaded s"
  "config (objs (fst (putV4 L en p w s))) = config (objs s)"
  "config (objs (fst (putV6 L en p ws s))) = config (objs s)"
  "live (fst (putV4 L en p w s)) = live s" "live (fst (putV6 L en p ws s)) = live s"
  by (simp_all add: putV4_def putV6_def split: sum.splits)

lemma admits4_host: "admits4 32 (mem32 en w) f \<longleftrightarrow> \<not> f_v6 f \<and> f_dst f = mem32 en w"
proof (cases "length (f_dst f) = 4")
  case True
  then have "covers 32 (mem32 en w) 32 (f_dst f) \<longleftrightarrow> mem32 en w = f_dst f"
    by (intro covers_host) simp_all
  then show ?thesis by (auto simp: admits4_def)
next
  case False
  then show ?thesis by (auto simp: admits4_def covers_def)
qed

lemma admits6_host:
  assumes "length ws = 4"
  shows "admits6 128 (concat (map (mem32 en) ws)) f \<longleftrightarrow> f_v6 f \<and> f_dst f = concat (map (mem32 en) ws)"
proof -
  have len: "length (concat (map (mem32 en) ws)) = 16"
    using assms by (elim length_4E) simp
  show ?thesis
  proof (cases "length (f_dst f) = 16")
    case True
    then have "covers 128 (concat (map (mem32 en) ws)) 128 (f_dst f) \<longleftrightarrow> concat (map (mem32 en) ws) = f_dst f"
      using len by (intro covers_host) simp_all
    then show ?thesis by (auto simp: admits6_def)
  next
    case False
    with len show ?thesis by (auto simp: admits6_def covers_def)
  qed
qed

lemma bits_put_be32: "bits_of (put_be32 w) = map (\<lambda>i. bit w (31 - i)) [0..<32]"
  by (rule nth_equalityI)
     (auto simp: put_be32_def bits_of_def byte_bits_def bit_simps upt_rec less_Suc_eq numeral_eq_Suc
       nth_Cons')

lemma mask_word_prefix:
  "n \<le> 32 \<Longrightarrow> take n (bits_of (put_be32 (mask_word n w))) = take n (bits_of (put_be32 w))"
  by (rule nth_equalityI) (auto simp: bits_put_be32 mask_word_def bit_simps)

section \<open>Loading and unloading\<close>

text \<open>The outcomes of the calls \<^verbatim>\<open>AttachFirewall\<close> makes: \<open>None\<close> is success, \<open>Some\<close> the error text. Loading
  yields fresh maps; \<open>o_has_exec\<close> says whether the collection has the exec program.\<close>

record ('m, 'p) outcomes =
  o_memlock :: "string option"
  o_load :: "string option"
  o_maps :: "('m, 'p) kstate"
  o_config :: "string option"
  o_cg4 :: "string option"
  o_cg6 :: "string option"
  o_iface :: "string option"
  o_tcx :: "string option"
  o_filter :: "string option"
  o_has_exec :: bool
  o_exec :: "string option"
  o_ring :: "string option"

definition closeEgress :: "egressAttach \<Rightarrow> ('m, 'p) fw \<Rightarrow> ('m, 'p) fw" where
  "closeEgress e s = release (filt e) (release (tcx e) s)"

definition attachEgress :: "('m, 'p) outcomes \<Rightarrow> ('m, 'p) fw \<Rightarrow> (string + egressAttach) \<times> ('m, 'p) fw" where
  "attachEgress out s =
     (case o_tcx out of
        None \<Rightarrow> (case acquire KTcx s of (h, s) \<Rightarrow> (Inr \<lparr>tcx = Some h, filt = None\<rparr>, s))
      | Some tcxErr \<Rightarrow>
          (case o_filter out of
             Some e \<Rightarrow> (Inl (''tcx: '' @ tcxErr @ ''; clsact: '' @ e), s)
           | None \<Rightarrow> (case acquire KFilter s of (h, s) \<Rightarrow> (Inr \<lparr>tcx = None, filt = Some h\<rparr>, s))))"

definition closeRd :: "('m, 'p) fw \<Rightarrow> ('m, 'p) fw" where
  "closeRd s = (release (rd s) s)\<lparr>rd := None\<rparr>"

definition closeExecL :: "('m, 'p) fw \<Rightarrow> ('m, 'p) fw" where
  "closeExecL s = (release (execL s) s)\<lparr>execL := None\<rparr>"

definition closeTcAtt :: "('m, 'p) fw \<Rightarrow> ('m, 'p) fw" where
  "closeTcAtt s = (case tcAtt s of None \<Rightarrow> s | Some e \<Rightarrow> (closeEgress e s)\<lparr>tcAtt := None\<rparr>)"

definition closeCg6 :: "('m, 'p) fw \<Rightarrow> ('m, 'p) fw" where
  "closeCg6 s = (release (cg6 s) s)\<lparr>cg6 := None\<rparr>"

definition closeCg4 :: "('m, 'p) fw \<Rightarrow> ('m, 'p) fw" where
  "closeCg4 s = (release (cg4 s) s)\<lparr>cg4 := None\<rparr>"

definition closeObjs :: "('m, 'p) fw \<Rightarrow> ('m, 'p) fw" where
  "closeObjs s = release (objsH s) s"

definition cleanupPartial :: "('m, 'p) fw \<Rightarrow> ('m, 'p) fw" where
  "cleanupPartial s = closeObjs (closeCg4 (closeCg6 (closeTcAtt (closeExecL (closeRd s)))))"

text \<open>
  \<^verbatim>\<open>AttachFirewall\<close>, cut at its calls and in their order; each stage continues with the next one. The
  assignment of a failing call stores nil, as Go's does.
\<close>

definition attachReader :: "('m, 'p) outcomes \<Rightarrow> ('m, 'p) fw \<Rightarrow> ('m, 'p) fw \<times> string option" where
  "attachReader out s =
     (case o_ring out of
        Some e \<Rightarrow> (cleanupPartial (s\<lparr>rd := None\<rparr>), Some (''ringbuf: '' @ e))
      | None \<Rightarrow> (case acquire KRing s of (h, s) \<Rightarrow>
          (s\<lparr>rd := Some h, eventCh := True, loaded := True\<rparr>, None)))"

definition attachExec :: "('m, 'p) outcomes \<Rightarrow> bool \<Rightarrow> ('m, 'p) fw \<Rightarrow> ('m, 'p) fw" where
  "attachExec out watchSudo s =
     (if watchSudo \<and> o_has_exec out then
        (case o_exec out of
           Some _ \<Rightarrow> s\<lparr>execL := None\<rparr>
         | None \<Rightarrow> (case acquire KExec s of (h, s) \<Rightarrow> s\<lparr>execL := Some h\<rparr>))
      else s)"

text \<open>The error paths before the reader close the links they hold without clearing the variables.\<close>

definition dropCg6 :: "('m, 'p) fw \<Rightarrow> ('m, 'p) fw" where
  "dropCg6 s = release (cg6 s) s"

definition dropCg4 :: "('m, 'p) fw \<Rightarrow> ('m, 'p) fw" where
  "dropCg4 s = release (cg4 s) s"

definition attachTc :: "('m, 'p) outcomes \<Rightarrow> bool \<Rightarrow> ('m, 'p) fw \<Rightarrow> ('m, 'p) fw \<times> string option" where
  "attachTc out watchSudo s =
     (case o_iface out of
        Some e \<Rightarrow> (closeObjs (dropCg4 (dropCg6 s)), Some (''iface: '' @ e))
      | None \<Rightarrow>
         (case attachEgress out s of
            (Inl e, s) \<Rightarrow> (closeObjs (dropCg4 (dropCg6 (s\<lparr>tcAtt := None\<rparr>))), Some (''attach egress: '' @ e))
          | (Inr a, s) \<Rightarrow> attachReader out (attachExec out watchSudo (s\<lparr>tcAtt := Some a\<rparr>))))"

definition attachCg6 :: "('m, 'p) outcomes \<Rightarrow> bool \<Rightarrow> ('m, 'p) fw \<Rightarrow> ('m, 'p) fw \<times> string option" where
  "attachCg6 out watchSudo s =
     (case o_cg6 out of
        Some e \<Rightarrow> (closeObjs (dropCg4 (s\<lparr>cg6 := None\<rparr>)), Some (''attach connect6: '' @ e))
      | None \<Rightarrow> (case acquire KCg6 s of (h, s) \<Rightarrow> attachTc out watchSudo (s\<lparr>cg6 := Some h\<rparr>)))"

definition attachCg4 :: "('m, 'p) outcomes \<Rightarrow> bool \<Rightarrow> ('m, 'p) fw \<Rightarrow> ('m, 'p) fw \<times> string option" where
  "attachCg4 out watchSudo s =
     (case o_cg4 out of
        Some e \<Rightarrow> (closeObjs (s\<lparr>cg4 := None\<rparr>), Some (''attach connect4: '' @ e))
      | None \<Rightarrow> (case acquire KCg4 s of (h, s) \<Rightarrow> attachCg6 out watchSudo (s\<lparr>cg4 := Some h\<rparr>)))"

text \<open>\<^verbatim>\<open>objs.Config.Put\<close> stores the mode word at index 0 of the configuration array.\<close>

definition putConfig :: "('m, 'p) outcomes \<Rightarrow> u32 \<Rightarrow> ('m, 'p) fw \<Rightarrow> ('m, 'p) fw \<times> string option" where
  "putConfig out audit s =
     (case o_config out of
        Some e \<Rightarrow> (s, Some e)
      | None \<Rightarrow> (s\<lparr>objs := (objs s)\<lparr>config := (config (objs s))[0 := audit]\<rparr>\<rparr>, None))"

definition AttachFirewall :: "('m, 'p) outcomes \<Rightarrow> bool \<Rightarrow> bool \<Rightarrow> ('m, 'p) fw \<Rightarrow>
    ('m, 'p) fw \<times> string option" where
  "AttachFirewall out auditMode watchSudo s =
     (if loaded s then (s, None)
      else case o_memlock out of
        Some e \<Rightarrow> (s, Some e)
      | None \<Rightarrow>
       (case o_load out of
          Some e \<Rightarrow> (s, Some (''load bpf: '' @ e))
        | None \<Rightarrow>
         (case acquire KObjs s of (h, s) \<Rightarrow>
           (case putConfig out (if auditMode then 1 else 0) (s\<lparr>objs := o_maps out, objsH := Some h\<rparr>) of
              (s, Some e) \<Rightarrow> (closeObjs s, Some (''config: '' @ e))
            | (s, None) \<Rightarrow> attachCg4 out watchSudo s))))"

definition DetachFirewall :: "('m, 'p) fw \<Rightarrow> ('m, 'p) fw" where
  "DetachFirewall s = (if \<not> loaded s then s else (cleanupPartial s)\<lparr>loaded := False\<rparr>)"

end
