(* ===== verification/FirewallProps.thy ===== *)
theory FirewallProps
  imports Firewall
begin

text \<open>
  Properties of the user-space firewall: which packets an inserted address or prefix really admits,
  what parsing a CIDR list reports, and the resource invariant of attach and detach.
\<close>

section \<open>Insertion\<close>

text \<open>A loaded firewall on fresh reference maps, enforcing.\<close>

definition fw0 :: "(ref_trie, ref_lru) fw" where
  "fw0 = \<lparr>loaded = True, objs = ref_boot, objsH = Some (KObjs, 0), cg4 = Some (KCg4, 1), cg6 = Some (KCg6, 2),
     execL = None, tcAtt = Some \<lparr>tcx = Some (KTcx, 3), filt = None\<rparr>, rd = Some (KRing, 4), eventCh = True,
     fresh = 5, live = [(KRing, 4), (KTcx, 3), (KCg6, 2), (KCg4, 1), (KObjs, 0)], bad_close = False\<rparr>"

lemma put_cases:
  "putV4 L en p w s = (s', err) \<Longrightarrow> err = None \<or> s' = s"
  "putV6 L en p ws s = (s', err) \<Longrightarrow> err = None \<or> s' = s"
  by (auto simp: putV4_def putV6_def split: sum.splits)

text \<open>Inserting an address is total and monotone: it never panics, does nothing before the firewall
  is loaded, changes nothing when the map refuses the entry, and never withdraws a flow that was
  allowed.\<close>

theorem AllowIP_monotone:
  assumes "lpm_trie L"
  shows "\<exists>s' err. AllowIP L en addr s = Some (s', err) \<and> (loaded s \<or> s' = s \<and> err = None)
     \<and> (err = None \<or> s' = s) \<and> {f. flow_allowed L (objs s) f} \<subseteq> {f. flow_allowed L (objs s') f}"
proof -
  obtain s' err where r: "AllowIP L en addr s = Some (s', err)"
    by (fastforce simp: AllowIP_cases)
  then have same: "err = None \<or> s' = s" and idle: "loaded s \<or> s' = s \<and> err = None"
    by (auto simp: AllowIP_cases dest: put_cases split: if_splits Addr.splits)
  have "flow_allowed L (objs s') f" if "flow_allowed L (objs s) f" for f
    using r same that lpm_trie.putV4_flow [OF assms] lpm_trie.putV6_flow [OF assms]
    by (auto simp: AllowIP_cases split: if_splits Addr.splits)
  with r same idle show ?thesis by blast
qed

theorem AllowIP_monotone_witness:
  "\<exists>s' err. AllowIP ref_ops LittleEndian (Addr4 1) fw0 = Some (s', err)
     \<and> {f. flow_allowed ref_ops (objs fw0) f} \<subseteq> {f. flow_allowed ref_ops (objs s') f}"
  using AllowIP_monotone [OF ref_lpm_trie, of LittleEndian "Addr4 1" fw0] by blast

text \<open>What an inserted IPv4 address admits depends on the host's byte order. The address word is built
  big-endian and stored as a native integer, so on a big-endian host the entry is the address, but on
  a little-endian host (the supported amd64 and arm64) it is the address with its bytes reversed: the
  flows newly admitted are exactly those to \<^verbatim>\<open>d.c.b.a\<close>, and \<^verbatim>\<open>a.b.c.d\<close> itself is admitted only if it
  reads the same backwards.\<close>

theorem AllowIP_admits4:
  assumes "lpm_trie L" "loaded s"
    and "AllowIP L en (Addr4 (join_be32 a b c d)) s = Some (s', None)"
  shows "flow_allowed L (objs s') f \<longleftrightarrow>
     \<not> f_v6 f \<and> f_dst f = (case en of BigEndian \<Rightarrow> [a, b, c, d] | LittleEndian \<Rightarrow> [d, c, b, a])
     \<or> flow_allowed L (objs s) f"
proof -
  have "putV4 L en 32 (join_be32 a b c d) s = (s', None)"
    using assms(2,3) by (simp add: AllowIP_cases)
  from lpm_trie.putV4_flow [OF assms(1) this, of f] show ?thesis
    unfolding admits4_host by (cases en) (simp_all add: codec_simps)
qed

theorem AllowIP_admits4_witness:
  "\<exists>s'. AllowIP ref_ops LittleEndian (Addr4 (join_be32 1 2 3 4)) fw0 = Some (s', None)
     \<and> map_option fst (censor_egress ref_ops LittleEndian hooks0 (pkt4 1 2 3 4) (objs s')) = Some TC_ACT_SHOT
     \<and> map_option fst (censor_egress ref_ops LittleEndian hooks0 (pkt4 4 3 2 1) (objs s')) = Some TC_ACT_OK"
proof -
  obtain s' where r: "AllowIP ref_ops LittleEndian (Addr4 (join_be32 1 2 3 4)) fw0 = Some (s', None)"
    and cfg: "config (objs s') = [0, 0]"
    by (simp add: AllowIP_cases putV4_def fw0_def ref_ops_def ref_update_def ref_boot_def Let_def)
  have l: "loaded fw0" by (simp add: fw0_def)
  have none: "\<not> flow_allowed ref_ops (objs fw0) f" for f
    by (simp add: flow_allowed_def fw0_def ref_boot_def ref_ops_def ref_lookup_def)
  from AllowIP_admits4 [OF ref_lpm_trie l r] none cfg r show ?thesis
    by (simp add: egress_flow flow_step_def pkt4_flow flow_verdict_def audit_mode_def array_lookup_def)
qed

text \<open>The same for IPv6: each of the four 32-bit groups of an inserted address is stored in the host's
  byte order, so on a little-endian host the admitted destination has the bytes of every group
  reversed.\<close>

theorem AllowIP_admits6:
  assumes "lpm_trie L" "loaded s"
    and "AllowIP L en (Addr6 w0 w1 w2 w3) s = Some (s', None)"
  shows "flow_allowed L (objs s') f \<longleftrightarrow>
     f_v6 f \<and> f_dst f = (case en of BigEndian \<Rightarrow> As16 (Addr6 w0 w1 w2 w3)
        | LittleEndian \<Rightarrow> rev (put_be32 w0) @ rev (put_be32 w1) @ rev (put_be32 w2) @ rev (put_be32 w3))
     \<or> flow_allowed L (objs s) f"
proof -
  have "putV6 L en 128 [w0, w1, w2, w3] s = (s', None)"
    using assms(2,3) by (simp add: AllowIP_cases)
  from lpm_trie.putV6_flow [OF assms(1) this, of f] admits6_host [of "[w0, w1, w2, w3]" en f] show ?thesis
    by (cases en) (simp_all add: put_le32_def)
qed

theorem AllowIP_admits6_witness:
  "\<exists>s'. AllowIP ref_ops LittleEndian (Addr6 0x20010db8 0 0 1) fw0 = Some (s', None)
     \<and> \<not> flow_allowed ref_ops (objs s') \<lparr>f_v6 = True, f_dst = As16 (Addr6 0x20010db8 0 0 1), f_dport = 443, f_proto = 6\<rparr>"
proof -
  obtain s' where r: "AllowIP ref_ops LittleEndian (Addr6 0x20010db8 0 0 1) fw0 = Some (s', None)"
    by (simp add: AllowIP_cases putV6_def fw0_def ref_ops_def ref_update_def ref_boot_def Let_def)
  have l: "loaded fw0" by (simp add: fw0_def)
  have none: "\<not> flow_allowed ref_ops (objs fw0) f" for f
    by (simp add: flow_allowed_def fw0_def ref_boot_def ref_ops_def ref_lookup_def)
  from AllowIP_admits6 [OF ref_lpm_trie l r] none r show ?thesis
    by (simp add: put_be32_def)
qed

text \<open>C28: What a CIDR prefix of \<open>n\<close> bits admits: on a big-endian host the destinations whose first \<open>n\<close> bits
  are the prefix's, as intended; on a little-endian host those whose first \<open>n\<close> bits are the first \<open>n\<close>
  bits of the masked network address written backwards, so \<^verbatim>\<open>10.0.0.0/8\<close> opens \<^verbatim>\<open>0.0.0.0/8\<close> and not
  itself.\<close>

theorem AllowPrefix_admits4:
  assumes "lpm_trie L" "loaded s" "prefixValid p" "pAddr p = Addr4 w" "pBits p = int n"
    and "AllowPrefix L en p s = Some (s', None)" "length (f_dst f) = 4"
  shows "flow_allowed L (objs s') f \<longleftrightarrow>
     \<not> f_v6 f \<and> take n (bits_of (f_dst f)) =
       (case en of BigEndian \<Rightarrow> take n (bits_of (put_be32 w))
        | LittleEndian \<Rightarrow> take n (bits_of (rev (put_be32 (mask_word n w)))))
     \<or> flow_allowed L (objs s) f"
proof -
  have n: "n \<le> 32" using assms(3,4,5) by (simp add: prefixValid_def)
  have "putV4 L en (word_of_int (int n)) (mask_word n w) s = (s', None)"
    using assms(2-6) by (simp add: AllowPrefix_cases)
  from lpm_trie.putV4_flow [OF assms(1) this, of f]
  have "flow_allowed L (objs s') f \<longleftrightarrow>
      admits4 (word_of_int (int n)) (mem32 en (mask_word n w)) f \<or> flow_allowed L (objs s) f" .
  moreover have "unat (word_of_int (int n) :: u32) = n"
    using n by (simp add: unat_of_nat take_bit_nat_eq_self)
  ultimately show ?thesis
    using n assms(7) mask_word_prefix [OF n, of w]
    by (cases en) (auto simp: admits4_def covers_def put_le32_def)
qed

theorem AllowPrefix_admits4_witness:
  "\<exists>s'. AllowPrefix ref_ops LittleEndian \<lparr>pAddr = Addr4 0x0a000000, pBits = 8\<rparr> fw0 = Some (s', None)
     \<and> flow_allowed ref_ops (objs s') \<lparr>f_v6 = False, f_dst = [0, 9, 9, 9], f_dport = 443, f_proto = 6\<rparr>
     \<and> \<not> flow_allowed ref_ops (objs s') \<lparr>f_v6 = False, f_dst = [10, 0, 0, 1], f_dport = 443, f_proto = 6\<rparr>"
proof -
  let ?p = "\<lparr>pAddr = Addr4 0x0a000000, pBits = 8\<rparr>"
  obtain s' where r: "AllowPrefix ref_ops LittleEndian ?p fw0 = Some (s', None)"
    by (simp add: AllowPrefix_cases prefixValid_def putV4_def fw0_def ref_ops_def ref_update_def ref_boot_def Let_def)
  have l: "loaded fw0" by (simp add: fw0_def)
  have p: "prefixValid ?p" "pAddr ?p = Addr4 0x0a000000" "pBits ?p = int 8"
    by (simp_all add: prefixValid_def)
  have none: "\<not> flow_allowed ref_ops (objs fw0) f" for f
    by (simp add: flow_allowed_def fw0_def ref_boot_def ref_ops_def ref_lookup_def)
  have m: "rev (put_be32 (mask_word 8 0x0a000000)) = [0, 0, 0, 10]"
    by (simp add: mask_word_def put_be32_def)
  from AllowPrefix_admits4 [OF ref_lpm_trie l p r] none r m show ?thesis
    by (simp add: bits_of_Cons byte_bits_def upt_rec)
qed

text \<open>An entry is rejected outright when it does not parse or is no valid prefix.\<close>

definition bad_cidr :: "(string \<Rightarrow> string + Prefix) \<Rightarrow> string \<Rightarrow> bool" where
  "bad_cidr parse c = (case parse c of Inl _ \<Rightarrow> True | Inr p \<Rightarrow> \<not> prefixValid p)"

lemma AllowPrefix_total: "\<exists>s' err. AllowPrefix L en p s = Some (s', err) \<and> loaded s' = loaded s
    \<and> (\<not> prefixValid p \<longrightarrow> err \<noteq> None) \<and> (prefixValid p \<longrightarrow> \<not> loaded s \<longrightarrow> err = None)"
  using put_frame
  by (cases "pAddr p") (auto simp: AllowPrefix_cases putV4_def putV6_def split: sum.splits)

text \<open>The CIDR list is processed to its end whatever its entries are: without panicking, every entry is
  either counted or reported, the reported ones are listed in order, no entry that does not parse to
  a valid prefix is counted, and before the firewall is loaded nothing else is reported.\<close>

theorem ParseAndAllowCIDRs_accounts:
  "\<exists>s' n errs. ParseAndAllowCIDRs parse L en cidrs s = Some (s', n, errs)
     \<and> n + length errs = length cidrs
     \<and> subseq (filter (bad_cidr parse) cidrs) (map fst errs) \<and> subseq (map fst errs) cidrs
     \<and> (loaded s \<or> map fst errs = filter (bad_cidr parse) cidrs)"
proof (induction cidrs arbitrary: s)
  case (Cons c cidrs)
  show ?case
  proof (cases "parse c")
    case (Inl e)
    then have "bad_cidr parse c" by (simp add: bad_cidr_def)
    with Cons [of s] Inl show ?thesis by (fastforce simp: list_emb_Cons)
  next
    case (Inr p)
    obtain s1 err where p: "AllowPrefix L en p s = Some (s1, err)" "loaded s1 = loaded s"
        "\<not> prefixValid p \<Longrightarrow> err \<noteq> None" "prefixValid p \<Longrightarrow> \<not> loaded s \<Longrightarrow> err = None"
      using AllowPrefix_total [of L en p s] by blast
    have bad: "bad_cidr parse c \<longleftrightarrow> \<not> prefixValid p" by (simp add: Inr bad_cidr_def)
    obtain s' n errs where r: "ParseAndAllowCIDRs parse L en cidrs s1 = Some (s', n, errs)"
      "n + length errs = length cidrs"
      "subseq (filter (bad_cidr parse) cidrs) (map fst errs)" "subseq (map fst errs) cidrs"
      "loaded s1 \<or> map fst errs = filter (bad_cidr parse) cidrs"
      using Cons [of s1] by blast
    show ?thesis
    proof (cases err)
      case None
      with p bad have "\<not> bad_cidr parse c" by blast
      with None r p Inr show ?thesis by (simp add: list_emb_Cons)
    next
      case (Some e)
      with r p Inr bad show ?thesis by (cases "bad_cidr parse c") (auto simp: list_emb_Cons)
    qed
  qed
qed simp

section \<open>Attach and detach\<close>

text \<open>The resource invariant: nothing is ever closed twice; while loaded exactly the handles in the
  package's variables are open, one of them the egress attachment (TCX or classic filter), in the order
  they were acquired; while not loaded nothing is open.\<close>

definition egress_of :: "bool \<Rightarrow> nat \<Rightarrow> egressAttach" where
  "egress_of b n = (if b then \<lparr>tcx = Some (KTcx, n), filt = None\<rparr> else \<lparr>tcx = None, filt = Some (KFilter, n)\<rparr>)"

definition fw_inv :: "('m, 'p) fw \<Rightarrow> bool" where
  "fw_inv s \<longleftrightarrow> \<not> bad_close s \<and>
     (if loaded s then
        (\<exists>n0 n1 n2 b n3 n4. objsH s = Some (KObjs, n0) \<and> cg4 s = Some (KCg4, n1) \<and> cg6 s = Some (KCg6, n2)
           \<and> tcAtt s = Some (egress_of b n3) \<and> rd s = Some (KRing, n4)
           \<and> (case execL s of None \<Rightarrow> True | Some h \<Rightarrow> fst h = KExec)
           \<and> live s = (KRing, n4) # (case execL s of None \<Rightarrow> [] | Some h \<Rightarrow> [h])
                @ [(if b then KTcx else KFilter, n3), (KCg6, n2), (KCg4, n1), (KObjs, n0)])
      else live s = [] \<and> rd s = None \<and> execL s = None \<and> tcAtt s = None)"

definition fw_init :: "('m, 'p) kstate \<Rightarrow> ('m, 'p) fw" where
  "fw_init k = \<lparr>loaded = False, objs = k, objsH = None, cg4 = None, cg6 = None, execL = None, tcAtt = None,
     rd = None, eventCh = False, fresh = 0, live = [], bad_close = False\<rparr>"

lemmas fw_ops = acquire_def release_def closeEgress_def closeRd_def closeExecL_def closeTcAtt_def
  closeCg6_def closeCg4_def closeObjs_def dropCg6_def dropCg4_def cleanupPartial_def
lemmas fw_stages = attachCg4_def attachCg6_def attachTc_def attachEgress_def attachExec_def attachReader_def

text \<open>An unloaded firewall, as far as attaching can tell.\<close>

definition fw_idle :: "('m, 'p) fw \<Rightarrow> bool" where
  "fw_idle s \<longleftrightarrow> \<not> bad_close s \<and> \<not> loaded s \<and> live s = [] \<and> rd s = None \<and> execL s = None \<and> tcAtt s = None"

text \<open>The outcomes under which the links, the egress program and the reader come up.\<close>

definition links_up :: "('m, 'p) outcomes \<Rightarrow> bool" where
  "links_up out \<longleftrightarrow> o_cg4 out = None \<and> o_cg6 out = None \<and> o_iface out = None
     \<and> (o_tcx out = None \<or> o_filter out = None) \<and> o_ring out = None"

text \<open>
  The states of an attach between its calls: the handles acquired so far, the links and the exec link
  \<open>x\<close> included, are exactly the live ones.
\<close>

definition fw_at :: "('m, 'p) kstate \<Rightarrow> handle option \<Rightarrow> handle option \<Rightarrow> handle option \<Rightarrow>
    egressAttach option \<Rightarrow> bool \<Rightarrow> nat \<Rightarrow> nat \<Rightarrow> handle list \<Rightarrow> ('m, 'p) fw" where
  "fw_at k c4 c6 x t ec n m hs = \<lparr>loaded = False, objs = k, objsH = Some (KObjs, n), cg4 = c4, cg6 = c6,
     execL = x, tcAtt = t, rd = None, eventCh = ec, fresh = m, live = hs @ [(KObjs, n)], bad_close = False\<rparr>"

abbreviation fw_loading :: "('m, 'p) kstate \<Rightarrow> handle option \<Rightarrow> handle option \<Rightarrow> bool \<Rightarrow> nat \<Rightarrow> ('m, 'p) fw" where
  "fw_loading k c4 c6 ec n \<equiv> fw_at k c4 c6 None None ec n (Suc n) []"

definition stage_ok :: "bool \<Rightarrow> ('m, 'p) kstate \<Rightarrow> ('m, 'p) fw \<times> string option \<Rightarrow> bool" where
  "stage_ok ok k r = (if ok then fw_inv (fst r) \<and> snd r = None \<and> loaded (fst r) \<and> objs (fst r) = k
     else fw_idle (fst r) \<and> snd r \<noteq> None)"

lemma reader_stage:
  assumes x: "x = None \<or> x = Some (KExec, n5)"
  shows "stage_ok (o_ring out = None) k (attachReader out
     (fw_at k (Some (KCg4, n1)) (Some (KCg6, n2)) x (Some (egress_of b n3)) ec n m
       ((case x of None \<Rightarrow> [] | Some h \<Rightarrow> [h]) @ [(if b then KTcx else KFilter, n3), (KCg6, n2), (KCg4, n1)])))"
proof (cases "o_ring out")
  case None
  with x show ?thesis
    by (cases b) (auto simp: stage_ok_def attachReader_def fw_at_def acquire_def fw_inv_def egress_of_def ex_bool_eq)
next
  case (Some e)
  with x show ?thesis
    by (cases b) (auto simp: stage_ok_def attachReader_def fw_at_def fw_ops fw_idle_def egress_of_def)
qed

lemma exec_stage:
  obtains x n5 m' where "x = None \<or> x = Some (KExec, n5)"
    "attachExec out w (fw_at k c4 c6 None t ec n m hs) =
     fw_at k c4 c6 x t ec n m' ((case x of None \<Rightarrow> [] | Some h \<Rightarrow> [h]) @ hs)"
proof (cases "w \<and> o_has_exec out \<and> o_exec out = None")
  case True
  then show ?thesis
    by (intro that [of "Some (KExec, m)" m "Suc m"]) (simp_all add: attachExec_def acquire_def fw_at_def)
next
  case False
  then show ?thesis
    by (intro that [of None 0 m]) (auto simp: attachExec_def fw_at_def split: option.split)
qed

lemma tc_stage:
  "stage_ok (o_iface out = None \<and> (o_tcx out = None \<or> o_filter out = None) \<and> o_ring out = None) k
     (attachTc out w (fw_at k (Some (KCg4, n1)) (Some (KCg6, n2)) None None ec n m [(KCg6, n2), (KCg4, n1)]))"
  (is "stage_ok _ _ (attachTc _ _ (?s None m [(KCg6, n2), (KCg4, n1)]))")
proof -
  consider (fail) e where "o_iface out = Some e"
    | (none) e e' where "o_iface out = None" "o_tcx out = Some e" "o_filter out = Some e'"
    | (up) b where "o_iface out = None" "o_tcx out = None \<or> o_filter out = None"
        "attachEgress out (?s None m [(KCg6, n2), (KCg4, n1)]) =
           (Inr (egress_of b m), ?s None (Suc m) [(if b then KTcx else KFilter, m), (KCg6, n2), (KCg4, n1)])"
    by (cases "o_iface out"; cases "o_tcx out"; cases "o_filter out")
       (auto simp: attachEgress_def acquire_def fw_at_def egress_of_def intro: that)
  then show ?thesis
  proof cases
    case up
    obtain x n5 m' where x: "x = None \<or> x = Some (KExec, n5)"
      "attachExec out w (?s (Some (egress_of b m)) (Suc m) [(if b then KTcx else KFilter, m), (KCg6, n2), (KCg4, n1)]) =
       fw_at k (Some (KCg4, n1)) (Some (KCg6, n2)) x (Some (egress_of b m)) ec n m'
        ((case x of None \<Rightarrow> [] | Some h \<Rightarrow> [h]) @ [(if b then KTcx else KFilter, m), (KCg6, n2), (KCg4, n1)])"
      by (rule exec_stage)
    have "(?s None (Suc m) [(if b then KTcx else KFilter, m), (KCg6, n2), (KCg4, n1)])\<lparr>tcAtt := Some (egress_of b m)\<rparr> =
       ?s (Some (egress_of b m)) (Suc m) [(if b then KTcx else KFilter, m), (KCg6, n2), (KCg4, n1)]"
      by (simp add: fw_at_def)
    with up x reader_stage [OF x(1), of out k n1 n2 b m ec n m'] show ?thesis by (simp add: attachTc_def)
  qed (simp_all add: stage_ok_def attachTc_def attachEgress_def fw_at_def fw_idle_def fw_ops)
qed

lemma cg6_stage:
  "stage_ok (o_cg6 out = None \<and> o_iface out = None \<and> (o_tcx out = None \<or> o_filter out = None) \<and> o_ring out = None) k
     (attachCg6 out w (fw_at k (Some (KCg4, n1)) c6 None None ec n m [(KCg4, n1)]))"
proof (cases "o_cg6 out")
  case None
  with tc_stage [of out k w n1 m ec n "Suc m"] show ?thesis
    by (simp add: attachCg6_def acquire_def fw_at_def)
next
  case (Some e)
  then show ?thesis by (simp add: stage_ok_def attachCg6_def fw_at_def fw_idle_def fw_ops)
qed

lemma links_stage: "stage_ok (links_up out) k (attachCg4 out w (fw_loading k c4 c6 ec n))"
proof (cases "o_cg4 out")
  case None
  with cg6_stage [of out k w "Suc n" c6 ec n "Suc (Suc n)"] show ?thesis
    by (simp add: attachCg4_def acquire_def fw_at_def links_up_def)
next
  case (Some e)
  then show ?thesis by (simp add: stage_ok_def attachCg4_def fw_at_def fw_idle_def fw_ops links_up_def)
qed

lemma detach_idle:
  assumes "fw_inv s"
  shows "fw_idle (DetachFirewall s)"
proof (cases "loaded s")
  case True
  with assms obtain n0 n1 n2 b n3 n4 where h: "objsH s = Some (KObjs, n0)" "cg4 s = Some (KCg4, n1)"
    "cg6 s = Some (KCg6, n2)" "tcAtt s = Some (egress_of b n3)" "rd s = Some (KRing, n4)"
    "case execL s of None \<Rightarrow> True | Some h \<Rightarrow> fst h = KExec"
    "live s = (KRing, n4) # (case execL s of None \<Rightarrow> [] | Some h \<Rightarrow> [h])
       @ [(if b then KTcx else KFilter, n3), (KCg6, n2), (KCg4, n1), (KObjs, n0)]" "\<not> bad_close s"
    by (auto simp: fw_inv_def)
  show ?thesis
  proof (cases "execL s")
    case None
    with True h show ?thesis
      by (cases b) (simp_all add: DetachFirewall_def fw_ops fw_idle_def egress_of_def)
  next
    case (Some e)
    with h(6) obtain n5 where "e = (KExec, n5)" by (cases e) simp
    with True h Some show ?thesis
      by (cases b) (simp_all add: DetachFirewall_def fw_ops fw_idle_def egress_of_def)
  qed
next
  case False
  with assms show ?thesis by (simp add: DetachFirewall_def fw_inv_def fw_idle_def)
qed

lemma idle_inv: "fw_idle s \<Longrightarrow> fw_inv s"
  by (simp add: fw_idle_def fw_inv_def)

lemma inv_idle: "fw_inv s \<Longrightarrow> \<not> loaded s \<Longrightarrow> fw_idle s"
  by (simp add: fw_idle_def fw_inv_def)

text \<open>The outcomes under which attaching as a whole succeeds: every call but the exec tracepoint counts,
  and either form of egress attachment will do.\<close>

definition all_up :: "('m, 'p) outcomes \<Rightarrow> bool" where
  "all_up out \<longleftrightarrow> o_memlock out = None \<and> o_load out = None \<and> o_config out = None \<and> links_up out"

lemma attach_loading:
  assumes "fw_idle s" "o_memlock out = None" "o_load out = None" "o_config out = None"
  shows "AttachFirewall out a w s = attachCg4 out w
     (fw_loading ((o_maps out)\<lparr>config := (config (o_maps out))[0 := if a then 1 else 0]\<rparr>)
        (cg4 s) (cg6 s) (eventCh s) (fresh s))"
  using assms
  by (cases s) (simp add: AttachFirewall_def fw_idle_def putConfig_def acquire_def fw_at_def)

lemma attach_outcome:
  assumes "fw_idle s"
  shows "stage_ok (all_up out) ((o_maps out)\<lparr>config := (config (o_maps out))[0 := if a then 1 else 0]\<rparr>)
     (AttachFirewall out a w s)"
proof (cases "o_memlock out = None \<and> o_load out = None \<and> o_config out = None")
  case True
  then have t: "o_memlock out = None" "o_load out = None" "o_config out = None" by simp_all
  from links_stage [of out _ w "cg4 s" "cg6 s" "eventCh s" "fresh s"] show ?thesis
    by (simp add: attach_loading [OF assms t] all_up_def t)
next
  case False
  then have "\<not> all_up out" by (auto simp: all_up_def)
  moreover have "fw_idle (fst (AttachFirewall out a w s)) \<and> snd (AttachFirewall out a w s) \<noteq> None"
    using assms False
    by (auto simp: AttachFirewall_def fw_idle_def putConfig_def acquire_def closeObjs_def release_def
        split: option.split)
  ultimately show ?thesis by (simp add: stage_ok_def)
qed

lemma attach_loaded: "loaded s \<Longrightarrow> AttachFirewall out a w s = (s, None)"
  by (simp add: AttachFirewall_def)

lemma attach_inv: "fw_inv s \<Longrightarrow> fw_inv (fst (AttachFirewall out a w s))"
  using attach_outcome [OF inv_idle, of s out a w]
  by (cases "loaded s") (auto simp: attach_loaded stage_ok_def intro: idle_inv split: if_splits)

lemma detach_inv: "fw_inv s \<Longrightarrow> fw_inv (DetachFirewall s)"
  by (rule idle_inv [OF detach_idle])

text \<open>The operations of the package as steps, with any outcome of the calls they make.\<close>

inductive fw_step :: "('m, 'p) bpf_ops \<Rightarrow> endian \<Rightarrow> ('m, 'p) fw \<Rightarrow> ('m, 'p) fw \<Rightarrow> bool"
  for L :: "('m, 'p) bpf_ops" and en :: endian where
  attach: "fw_step L en s (fst (AttachFirewall out a w s))"
| detach: "fw_step L en s (DetachFirewall s)"
| allow_ip: "AllowIP L en addr s = Some (s', err) \<Longrightarrow> fw_step L en s s'"
| allow_prefix: "AllowPrefix L en p s = Some (s', err) \<Longrightarrow> fw_step L en s s'"

inductive fw_reachable :: "('m, 'p) bpf_ops \<Rightarrow> endian \<Rightarrow> ('m, 'p) fw \<Rightarrow> bool"
  for L :: "('m, 'p) bpf_ops" and en :: endian where
  start: "fw_reachable L en (fw_init k)"
| step: "fw_reachable L en s \<Longrightarrow> fw_step L en s s' \<Longrightarrow> fw_reachable L en s'"

lemma fw_inv_objs: "fw_inv (s\<lparr>objs := k\<rparr>) = fw_inv s"
  unfolding fw_inv_def by simp

lemma put_inv:
  "fw_inv s \<Longrightarrow> fw_inv (fst (putV4 L en p w s))" "fw_inv s \<Longrightarrow> fw_inv (fst (putV6 L en p ws s))"
  by (simp_all add: putV4_def putV6_def fw_inv_objs split: sum.splits)

lemma put_inv':
  "putV4 L en p w s = (s', err) \<Longrightarrow> fw_inv s \<Longrightarrow> fw_inv s'"
  "putV6 L en p ws s = (s', err) \<Longrightarrow> fw_inv s \<Longrightarrow> fw_inv s'"
  using put_inv by (metis fst_conv)+

lemma step_inv: "fw_step L en s s' \<Longrightarrow> fw_inv s \<Longrightarrow> fw_inv s'"
proof (induction rule: fw_step.induct)
  case (allow_ip addr s s' err)
  then show ?case
    by (auto simp: AllowIP_cases split: if_splits Addr.splits intro: put_inv')
next
  case (allow_prefix p s s' err)
  then show ?case
    by (auto simp: AllowPrefix_cases split: if_splits Addr.splits intro: put_inv')
qed (simp_all add: attach_inv detach_inv)


definition outcomes_ok :: "(ref_trie, ref_lru) outcomes" where
  "outcomes_ok = \<lparr>o_memlock = None, o_load = None, o_maps = ref_boot, o_config = None, o_cg4 = None, o_cg6 = None,
     o_iface = None, o_tcx = Some ''not supported'', o_filter = None, o_has_exec = True, o_exec = None, o_ring = None\<rparr>"

lemma outcomes_ok_up: "all_up outcomes_ok"
  by (simp add: all_up_def links_up_def outcomes_ok_def)




end
