(* ===== verification/HostPolicy.thy ===== *)
theory HostPolicy
  imports Prelude
begin

text \<open>
  The host policy of \<^verbatim>\<open>internal/policy/host.go\<close>: label-wise pattern matching, the decision over the
  deny and allow lists, and the pattern validator.
\<close>

section \<open>Operations\<close>

text \<open>
  \<^verbatim>\<open>matchLabels\<close>. The two indices \<^verbatim>\<open>i\<close>, \<^verbatim>\<open>j\<close> are the suffixes still to match; \<open>tryAdvance\<close> is the
  inner loop over \<^verbatim>\<open>k\<close>, which starts at the current host label.
\<close>

function matchLabels :: "string list \<Rightarrow> string list \<Rightarrow> bool"
  and tryAdvance :: "string list \<Rightarrow> string list \<Rightarrow> bool" where
  "matchLabels pat host =
     (case (pat, host) of
        (p # ps, h # hs) \<Rightarrow>
          (if p = ''**'' then (if ps = [] then True else tryAdvance ps (h # hs))
           else if p = ''*'' then matchLabels ps hs
           else if p \<noteq> h then False
           else matchLabels ps hs)
      | _ \<Rightarrow> (if pat = [''**''] then False else pat = [] \<and> host = []))"
| "tryAdvance ps host =
     (case host of
        [] \<Rightarrow> False
      | h # hs \<Rightarrow> (if matchLabels ps (h # hs) then True else tryAdvance ps hs))"
  by pat_completeness auto
termination
  by (relation "measure (case_sum (\<lambda>(p, h). 2 * (length p + length h))
                                  (\<lambda>(p, h). 2 * (length p + length h) + 1))") auto

definition MatchHost :: "(string \<Rightarrow> string) \<Rightarrow> string \<Rightarrow> string \<Rightarrow> bool" where
  "MatchHost uni pattern host =
     (let pattern = strings_ToLower uni (trim_suffix pattern ''.'');
          host = strings_ToLower uni (trim_suffix host ''.'')
      in if pattern = [] \<or> host = [] then False
         else matchLabels (split_on CHR ''.'' pattern) (split_on CHR ''.'' host))"

record Decision =
  Allow :: bool
  Rule :: string

definition EvaluateHost ::
  "(string \<Rightarrow> string) \<Rightarrow> string list \<Rightarrow> string list \<Rightarrow> string \<Rightarrow> Decision" where
  "EvaluateHost uni allowed denied host =
     (if list_ex (\<lambda>p. MatchHost uni p host) denied
        then \<lparr>Allow = False, Rule = ''deniedHosts''\<rparr>
      else if list_ex (\<lambda>p. MatchHost uni p host) allowed
        then \<lparr>Allow = True, Rule = ''allowedHosts''\<rparr>
      else \<lparr>Allow = False, Rule = ''default''\<rparr>)"

datatype pattern_error = EmptyHostPattern | PartialLabelWildcard string

definition ValidatePattern :: "(string \<Rightarrow> string) \<Rightarrow> string \<Rightarrow> pattern_error option" where
  "ValidatePattern uni p =
     (let p = trim_space p in
      if p = [] then Some EmptyHostPattern
      else if list_ex (\<lambda>label. \<not> (label = ''*'' \<or> label = ''**'') \<and> contains_any label ''*'')
                (split_on CHR ''.'' (strings_ToLower uni p))
        then Some (PartialLabelWildcard p)
      else None)"

section \<open>Matching against the declarative reading\<close>

text \<open>What the code accepts, one rule per form of label.\<close>

inductive label_match :: "string list \<Rightarrow> string list \<Rightarrow> bool" where
  lm_nil: "label_match [] []"
| lm_lit: "p \<noteq> ''*'' \<Longrightarrow> p \<noteq> ''**'' \<Longrightarrow> label_match ps hs \<Longrightarrow> label_match (p # ps) (p # hs)"
| lm_star: "label_match ps hs \<Longrightarrow> label_match (''*'' # ps) (h # hs)"
| lm_glob_last: "hs \<noteq> [] \<Longrightarrow> label_match [''**''] hs"
| lm_glob: "ps \<noteq> [] \<Longrightarrow> label_match ps hs \<Longrightarrow> label_match (''**'' # ps) (gs @ hs)"

text \<open>What the comment on \<^verbatim>\<open>MatchHost\<close> promises: \<^verbatim>\<open>**\<close> stands for one or more labels, wherever it is.\<close>

inductive doc_match :: "string list \<Rightarrow> string list \<Rightarrow> bool" where
  dm_nil: "doc_match [] []"
| dm_lit: "p \<noteq> ''*'' \<Longrightarrow> p \<noteq> ''**'' \<Longrightarrow> doc_match ps hs \<Longrightarrow> doc_match (p # ps) (p # hs)"
| dm_star: "doc_match ps hs \<Longrightarrow> doc_match (''*'' # ps) (h # hs)"
| dm_glob: "gs \<noteq> [] \<Longrightarrow> doc_match ps hs \<Longrightarrow> doc_match (''**'' # ps) (gs @ hs)"

inductive_simps label_match_Nil: "label_match [] hs"
inductive_simps label_match_Cons: "label_match (p # ps) hs"
inductive_simps doc_match_Nil: "doc_match [] hs"
inductive_simps doc_match_Cons: "doc_match (p # ps) hs"

lemmas match_inverts = label_match_Nil label_match_Cons doc_match_Nil doc_match_Cons

declare matchLabels.simps [simp del] tryAdvance.simps [simp del]

lemma matchLabels_rec [simp]:
  "matchLabels [] [] = True"
  "matchLabels [] (h # hs) = False"
  "matchLabels (p # ps) [] = False"
  "matchLabels (p # ps) (h # hs) =
     (if p = ''**'' then ps = [] \<or> tryAdvance ps (h # hs)
      else (p = ''*'' \<or> p = h) \<and> matchLabels ps hs)"
  "tryAdvance ps [] = False"
  "tryAdvance ps (h # hs) = (matchLabels ps (h # hs) \<or> tryAdvance ps hs)"
  by (auto simp: matchLabels.simps tryAdvance.simps)

lemma tryAdvance_iff:
  "tryAdvance ps hs \<longleftrightarrow> (\<exists>gs hs'. hs = gs @ hs' \<and> hs' \<noteq> [] \<and> matchLabels ps hs')"
proof (induction hs)
  case (Cons h hs)
  then show ?case by (auto simp: Cons_eq_append_conv)
qed simp

lemma label_match_hosts_nonempty: "label_match (p # ps) hs \<Longrightarrow> hs \<noteq> []"
proof (induction "p # ps" hs arbitrary: p ps rule: label_match.induct)
  case (lm_glob ps hs gs)
  then show ?case by (cases ps) auto
qed auto

lemma matchLabels_label_match: "matchLabels pat host = label_match pat host"
proof (induction "length pat" arbitrary: pat host rule: less_induct)
  case less
  show ?case
  proof (cases pat)
    case Nil
    then show ?thesis by (cases host) (auto simp: match_inverts)
  next
    case (Cons p ps)
    have IH: "matchLabels ps hs = label_match ps hs" for hs
      using less Cons by simp
    show ?thesis
    proof (cases host)
      case Nil
      then show ?thesis using Cons label_match_hosts_nonempty by auto
    next
      case (Cons h hs)
      have glob: "tryAdvance ps (h # hs) \<longleftrightarrow> (\<exists>gs hs'. h # hs = gs @ hs' \<and> label_match ps hs')"
        if "ps \<noteq> []"
        using that label_match_hosts_nonempty by (fastforce simp: tryAdvance_iff IH neq_Nil_conv)
      show ?thesis
        using \<open>pat = p # ps\<close> Cons IH glob by (auto simp: match_inverts)
    qed
  qed
qed

fun drop_globs :: "string list \<Rightarrow> string list list" where
  "drop_globs [] = [[]]"
| "drop_globs [p] = [[p]]"
| "drop_globs (p # q # ps) =
     map ((#) p) (drop_globs (q # ps)) @ (if p = ''**'' then drop_globs (q # ps) else [])"

lemma drop_globs_self: "pat \<in> set (drop_globs pat)"
  by (induction pat rule: drop_globs.induct) auto

lemma drop_globs_exact: "''**'' \<notin> set (butlast pat) \<Longrightarrow> drop_globs pat = [pat]"
  by (induction pat rule: drop_globs.induct) auto

lemma drop_globs_Cons: "ps \<noteq> [] \<Longrightarrow> pat' \<in> set (drop_globs ps) \<Longrightarrow> p # pat' \<in> set (drop_globs (p # ps))"
  by (cases ps) auto

lemma drop_globs_nonempty: "r \<in> set (drop_globs pat) \<Longrightarrow> pat \<noteq> [] \<Longrightarrow> r \<noteq> []"
  by (induction pat arbitrary: r rule: drop_globs.induct) (auto split: if_splits)

lemma label_match_of_doc: "doc_match pat host \<Longrightarrow> label_match pat host"
proof (induction rule: doc_match.induct)
  case (dm_glob gs ps hs)
  then show ?case
    by (cases ps) (auto simp: doc_match_Nil intro: label_match.intros)
qed (auto intro: label_match.intros)

lemma label_match_skip: "ps \<noteq> [] \<Longrightarrow> label_match ps hs \<Longrightarrow> label_match (''**'' # ps) hs"
  using lm_glob [of ps hs "[]"] by simp

lemma label_match_drop_globs:
  "pat' \<in> set (drop_globs pat) \<Longrightarrow> label_match pat' host \<Longrightarrow> label_match pat host"
proof (induction pat arbitrary: pat' host rule: drop_globs.induct)
  case (3 p q ps)
  show ?case
  proof (cases "p = ''**'' \<and> pat' \<in> set (drop_globs (q # ps))")
    case True
    with "3.IH" "3.prems"(2) have "label_match (q # ps) host" by blast
    with True show ?thesis by (simp add: label_match_skip)
  next
    case False
    with "3.prems" obtain r where r: "pat' = p # r" "r \<in> set (drop_globs (q # ps))" by auto
    have sub: "label_match r hs \<Longrightarrow> label_match (q # ps) hs" for hs
      using "3.IH"(1) r by blast
    from r(2) have "r \<noteq> []" by (auto dest: drop_globs_nonempty)
    with "3.prems"(2) show ?thesis
      by (auto simp: r label_match_Cons [of p] intro: sub)
  qed
qed auto

lemma label_match_doc_witness:
  "label_match pat host \<Longrightarrow> \<exists>pat' \<in> set (drop_globs pat). doc_match pat' host"
proof (induction rule: label_match.induct)
  case (lm_lit p ps hs)
  then show ?case
    by (cases ps) (auto intro: doc_match.intros bexI drop_globs_Cons simp: doc_match_Nil)
next
  case (lm_star ps hs h)
  then show ?case
    by (cases ps) (auto intro: doc_match.intros bexI drop_globs_Cons simp: doc_match_Nil)
next
  case (lm_glob_last hs)
  then show ?case using dm_glob [of hs "[]" "[]"] by (auto intro: dm_nil)
next
  case (lm_glob ps hs gs)
  then obtain r where r: "r \<in> set (drop_globs ps)" "doc_match r hs" by blast
  show ?case
  proof (cases "gs = []")
    case True
    with r lm_glob.hyps(1) show ?thesis by (cases ps) auto
  next
    case False
    with r lm_glob.hyps(1) show ?thesis by (blast intro: dm_glob drop_globs_Cons)
  qed
qed (auto intro: doc_match.intros)

section \<open>The decision interface\<close>

text \<open>
  What a caller of \<^verbatim>\<open>EvaluateHost\<close> relies on: the deny list wins, the allow list is next, everything
  else is denied, and the rule names the list that decided.
\<close>

locale host_decision =
  fixes hits :: "string \<Rightarrow> string \<Rightarrow> bool"
    and eval :: "string list \<Rightarrow> string list \<Rightarrow> string \<Rightarrow> Decision"
  assumes eval_denied: "p \<in> set den \<Longrightarrow> hits p h \<Longrightarrow>
      eval al den h = \<lparr>Allow = False, Rule = ''deniedHosts''\<rparr>"
    and eval_allowed: "(\<And>q. q \<in> set den \<Longrightarrow> \<not> hits q h) \<Longrightarrow> p \<in> set al \<Longrightarrow> hits p h \<Longrightarrow>
      eval al den h = \<lparr>Allow = True, Rule = ''allowedHosts''\<rparr>"
    and eval_default: "(\<And>q. q \<in> set den \<union> set al \<Longrightarrow> \<not> hits q h) \<Longrightarrow>
      eval al den h = \<lparr>Allow = False, Rule = ''default''\<rparr>"
begin

lemma allow_iff:
  "Allow (eval al den h) \<longleftrightarrow> (\<exists>p \<in> set al. hits p h) \<and> (\<forall>q \<in> set den. \<not> hits q h)"
  using eval_denied [of _ den h al] eval_allowed [of den h _ al] eval_default [of den al h] by fastforce

lemma rule_cases:
  "Rule (eval al den h) =
     (if \<exists>q \<in> set den. hits q h then ''deniedHosts''
      else if \<exists>p \<in> set al. hits p h then ''allowedHosts'' else ''default'')"
proof -
  consider q where "q \<in> set den" "hits q h"
    | p where "\<And>q. q \<in> set den \<Longrightarrow> \<not> hits q h" "p \<in> set al" "hits p h"
    | "\<And>q. q \<in> set den \<union> set al \<Longrightarrow> \<not> hits q h" by blast
  then show ?thesis
    by cases (use eval_denied eval_allowed eval_default in auto)
qed

lemma deny_more: "set den \<subseteq> set den' \<Longrightarrow> Allow (eval al den' h) \<Longrightarrow> Allow (eval al den h)"
  by (auto simp: allow_iff)

lemma allow_more: "set al \<subseteq> set al' \<Longrightarrow> Allow (eval al den h) \<Longrightarrow> Allow (eval al' den h)"
  by (auto simp: allow_iff)

lemma not_allowed_rule: "\<not> Allow (eval al den h) \<Longrightarrow> Rule (eval al den h) \<in> {''deniedHosts'', ''default''}"
  by (auto simp: allow_iff rule_cases)

end

interpretation policy: host_decision "MatchHost uni" "EvaluateHost uni" for uni
  by unfold_locales (auto simp: EvaluateHost_def list_ex_iff)

section \<open>Properties\<close>

lemma MatchHost_ascii:
  "is_ascii p \<Longrightarrow> is_ascii h \<Longrightarrow> MatchHost uni p h =
     (let p' = trim_suffix (map ascii_lower p) ''.''; h' = trim_suffix (map ascii_lower h) ''.''
      in p' \<noteq> [] \<and> h' \<noteq> [] \<and> matchLabels (split_on CHR ''.'' p') (split_on CHR ''.'' h'))"
  by (simp add: MatchHost_def gostr_simps Let_def)

text \<open>The wildcard matcher against its documentation, exactly. \<^verbatim>\<open>matchLabels\<close> accepts a host iff the
  host matches, under the documented reading (a star is one label, two stars are one or more labels),
  the pattern itself or a pattern obtained from it by deleting some of its non-final double-star
  labels. So the recursive matcher terminates with the documented answer except that a non-final
  double star may also stand for no label at all.\<close>

theorem matchLabels_documented:
  "matchLabels pat host = list_ex (\<lambda>pat'. doc_match pat' host) (drop_globs pat)"
  using label_match_doc_witness [of pat host] label_match_drop_globs [of _ pat host]
  by (auto simp: matchLabels_label_match list_ex_iff intro: label_match_of_doc)

text \<open>C27: On patterns whose only double star, if any, is the last label, the matcher is exactly the
  documented one.\<close>

theorem matchLabels_exact:
  "''**'' \<notin> set (butlast pat) \<Longrightarrow> matchLabels pat host = doc_match pat host"
  using label_match_doc_witness [of pat host]
  by (auto simp: matchLabels_label_match drop_globs_exact intro: label_match_of_doc)

theorem matchLabels_exact_witness:
  "matchLabels [''a'', ''**''] [''a'', ''b'', ''c''] = doc_match [''a'', ''**''] [''a'', ''b'', ''c'']
   \<and> matchLabels [''a'', ''**''] [''a'', ''b'', ''c'']"
  using matchLabels_exact [of "[''a'', ''**'']" "[''a'', ''b'', ''c'']"] by simp

text \<open>A leading double star is optional: whenever an ASCII pattern matches a host, the pattern with
  \<^verbatim>\<open>**.\<close> put in front of it matches the host too. The default list entry
  \<^verbatim>\<open>**.githubusercontent.com\<close> therefore admits the bare \<^verbatim>\<open>githubusercontent.com\<close>, which the
  comment on \<^verbatim>\<open>MatchHost\<close> (one or more labels) excludes.\<close>

theorem MatchHost_glob_apex:
  assumes "is_ascii p" "MatchHost uni p h"
  shows "MatchHost uni (''**.'' @ p) h"
proof -
  define p' where "p' = map ascii_lower (trim_suffix p ''.'')"
  with assms have p': "p' = map ascii_lower (trim_suffix p ''.'')" "p' \<noteq> []"
    by (auto simp: MatchHost_def Let_def strings_ToLower_ascii is_ascii_trim split: if_splits)
  have trim: "trim_suffix (''**.'' @ p) ''.'' = ''**.'' @ trim_suffix p ''.''"
    using p' by (cases p rule: rev_cases) (auto simp: trim_suffix_def suffix_single)
  have asc: "is_ascii (''**.'' @ trim_suffix p ''.'')"
    using is_ascii_trim [OF assms(1)] by (simp add: is_ascii_def)
  have low: "strings_ToLower uni (trim_suffix (''**.'' @ p) ''.'') = ''**'' @ CHR ''.'' # p'"
    unfolding trim strings_ToLower_ascii [OF asc] p'(1) by (simp add: ascii_lower_def)
  have apex: "matchLabels (''**'' # split_on CHR ''.'' p') hs" if "matchLabels (split_on CHR ''.'' p') hs" for hs
    using that label_match_skip by (simp add: matchLabels_label_match)
  have split: "split_on CHR ''.'' (''**'' @ CHR ''.'' # p') = ''**'' # split_on CHR ''.'' p'"
    by (simp add: split_on_append split_on_plain)
  have pl: "strings_ToLower uni (trim_suffix p ''.'') = p'"
    using assms(1) by (simp add: p'(1) strings_ToLower_ascii is_ascii_trim)
  show ?thesis
    using assms(2) p'(2) apex unfolding MatchHost_def Let_def low split pl by (auto split: if_splits)
qed

theorem MatchHost_glob_apex_witness:
  "MatchHost id (''**.'' @ ''githubusercontent.com'') ''githubusercontent.com''
   \<and> \<not> doc_match [''**'', ''githubusercontent'', ''com''] [''githubusercontent'', ''com'']"
proof
  have "MatchHost id ''githubusercontent.com'' ''githubusercontent.com''" by code_simp
  then show "MatchHost id (''**.'' @ ''githubusercontent.com'') ''githubusercontent.com''"
    by (rule MatchHost_glob_apex [rotated]) (simp add: is_ascii_def)
  show "\<not> doc_match [''**'', ''githubusercontent'', ''com''] [''githubusercontent'', ''com'']"
    by (auto simp: doc_match_Cons doc_match_Nil Cons_eq_append_conv)
qed


text \<open>Matching ignores letter case and one trailing dot: ASCII patterns that agree after
  lower-casing match the same hosts, ASCII hosts that agree after lower-casing are matched by the same
  patterns, and a fully qualified spelling of a host (one dot appended to a spelling that does not end
  in a dot) gets the verdict of the plain one.\<close>

theorem MatchHost_normalises:
  assumes "is_ascii p" "is_ascii p'" "map ascii_lower p = map ascii_lower p'"
    and "is_ascii h" "is_ascii h'" "map ascii_lower h = map ascii_lower h'"
    and "\<not> suffix ''.'' h'"
  shows "MatchHost uni p h = MatchHost uni p' (h' @ ''.'')"
proof -
  have "\<not> suffix ''.'' h"
    using assms(6,7) by (metis ascii_lower_dot last_map map_is_Nil_conv suffix_single)
  with assms have lh: "strings_ToLower uni (trim_suffix h ''.'')
      = strings_ToLower uni (trim_suffix (h' @ ''.'') ''.'')"
    by (simp add: strings_ToLower_ascii trim_suffix_noop trim_suffix_snoc)
  from assms have lp: "strings_ToLower uni (trim_suffix p ''.'')
      = strings_ToLower uni (trim_suffix p' ''.'')"
    by (simp add: strings_ToLower_ascii is_ascii_trim map_lower_trim_dot)
  show ?thesis unfolding MatchHost_def lp lh ..
qed

theorem MatchHost_normalises_witness:
  "MatchHost id ''GitHub.com'' ''gitHUB.com'' = MatchHost id ''github.COM'' (''GITHUB.com'' @ ''.'')"
  by (rule MatchHost_normalises) code_simp+

text \<open>The validator accepts exactly the patterns that are not blank and in which a label holding a
  star is the one-star or the two-star label; otherwise it names the first of the two faults. (For a
  pattern with non-ASCII bytes the labels are those of its Unicode lower-casing.)\<close>

theorem ValidatePattern_spec:
  "ValidatePattern uni p =
     (if trim_space p = [] then Some EmptyHostPattern
      else if list_ex (\<lambda>l. CHR ''*'' \<in> set l \<and> l \<noteq> ''*'' \<and> l \<noteq> ''**'')
                (split_on CHR ''.'' (strings_ToLower uni (trim_space p))) then Some (PartialLabelWildcard (trim_space p))
      else None)"
  by (auto simp: ValidatePattern_def Let_def contains_any_def list_ex_iff list_all_iff)

end
