(* ===== verification/AgentTypes.thy ===== *)
theory AgentTypes
  imports Prelude
begin

text \<open>
  The messages of the agent's protocol (\<^verbatim>\<open>agentv1\<close>) that its code builds and inspects. The enumerations
  are open, as protobuf's are: a value without a name is \<open>_OTHER\<close>. Unset fields hold their zero value.
\<close>

datatype Mode = MODE_UNSPECIFIED | MODE_MONITOR | MODE_ENFORCE | MODE_OTHER int

datatype Action = ACTION_UNSPECIFIED | ACTION_ALLOW | ACTION_DENY | ACTION_MONITOR_DENY

datatype Protocol = PROTOCOL_UNSPECIFIED | PROTOCOL_TCP | PROTOCOL_UDP

datatype EventType = EVENT_TYPE_UNSPECIFIED | EVENT_TYPE_DNS | EVENT_TYPE_CONNECT | EVENT_TYPE_SUDO

record AgentEvent =
  ev_Ts :: int
  ev_Type :: EventType
  ev_Action :: Action
  ev_Pid :: u32
  ev_Comm :: string
  ev_Dst :: string
  ev_DstPort :: u32
  ev_Proto :: Protocol
  ev_Host :: string
  ev_Rule :: string

definition zeroEvent :: AgentEvent where
  "zeroEvent = \<lparr>ev_Ts = 0, ev_Type = EVENT_TYPE_UNSPECIFIED, ev_Action = ACTION_UNSPECIFIED, ev_Pid = 0,
     ev_Comm = [], ev_Dst = [], ev_DstPort = 0, ev_Proto = PROTOCOL_UNSPECIFIED, ev_Host = [], ev_Rule = []\<rparr>"

record AgentPolicy =
  pl_Mode :: Mode
  pl_AllowedHosts :: "string list"
  pl_DeniedHosts :: "string list"
  pl_AllowedCidrs :: "string list"
  pl_DisableSudo :: bool
  pl_WatchSudo :: bool
  pl_RequireBpf :: bool
  pl_AutoAllowGithubHosts :: bool
  pl_CorrelationId :: string

end
