(* ===== verification/DnsProxy.thy ===== *)
theory DnsProxy
  imports HostPolicy AgentTypes
begin

text \<open>
  The filtering DNS forwarder of \<^verbatim>\<open>internal/dns/proxy.go\<close>. Messages belong to the \<^verbatim>\<open>miekg/dns\<close> library:
  their type and the operations the proxy applies to them are parameters (\<open>dns_lib\<close>), and so is the
  upstream exchange. A run of the handler is the list of its calls to the outside, in order.
\<close>

section \<open>Messages\<close>

text \<open>The resource records the proxy distinguishes: addresses (as the bytes of the \<^verbatim>\<open>net.IP\<close>) and the rest.\<close>

datatype RR = RR_A bytes | RR_AAAA bytes | RR_other

text \<open>The names of the questions, the answer section, \<^verbatim>\<open>SetRcode\<close> on a new message, \<^verbatim>\<open>new(dns.Msg)\<close>.\<close>

record 'm dns_lib =
  dl_Question :: "'m \<Rightarrow> string list"
  dl_Answer :: "'m \<Rightarrow> RR list"
  dl_SetRcode :: "'m \<Rightarrow> nat \<Rightarrow> 'm"
  dl_new :: 'm

definition RcodeServerFailure :: nat where "RcodeServerFailure = 2"
definition RcodeNameError :: nat where "RcodeNameError = 3"

section \<open>The proxy\<close>

text \<open>The callbacks may be nil; what they do is said by the caller, which runs the effects. \<open>px_server\<close> is
  the UDP server, once started, by its address.\<close>

record Proxy =
  px_Upstream :: string
  px_Mode :: Mode
  px_Allowed :: "string list"
  px_Denied :: "string list"
  px_OnEvent :: bool
  px_OnAllow :: bool
  px_server :: "string option"

datatype 'm effect =
    WriteMsg 'm
  | OnEvent string Action string
  | OnAllow bytes
  | Exchange 'm string

definition on_event :: "Proxy \<Rightarrow> string \<Rightarrow> Action \<Rightarrow> string \<Rightarrow> 'm effect list" where
  "on_event p host action rule = (if px_OnEvent p then [OnEvent host action rule] else [])"

fun on_answer :: "Proxy \<Rightarrow> RR list \<Rightarrow> 'm effect list" where
  "on_answer p [] = []"
| "on_answer p (rr # rrs) =
     (case rr of
        RR_A ip \<Rightarrow> (if px_OnAllow p then [OnAllow ip] else [])
      | RR_AAAA ip \<Rightarrow> (if px_OnAllow p then [OnAllow ip] else [])
      | RR_other \<Rightarrow> []) @ on_answer p rrs"

text \<open>The part of the handler that forwards the query.\<close>

definition forward :: "'m dns_lib \<Rightarrow> ('m \<Rightarrow> string \<Rightarrow> string + 'm) \<Rightarrow> Proxy \<Rightarrow> Decision \<Rightarrow> 'm \<Rightarrow> 'm effect list" where
  "forward D exchange p dec r =
     Exchange r (px_Upstream p) #
     (case exchange r (px_Upstream p) of
        Inl e \<Rightarrow> [WriteMsg (dl_SetRcode D r RcodeServerFailure)]
      | Inr resp \<Rightarrow>
          (if Allow dec \<or> px_Mode p = MODE_MONITOR then on_answer p (dl_Answer D resp) else [])
          @ [WriteMsg resp])"

definition handle :: "(string \<Rightarrow> string) \<Rightarrow> 'm dns_lib \<Rightarrow> ('m \<Rightarrow> string \<Rightarrow> string + 'm) \<Rightarrow> Proxy \<Rightarrow> 'm \<Rightarrow> 'm effect list" where
  "handle uni D exchange p r =
     (case dl_Question D r of
        [] \<Rightarrow> [WriteMsg (dl_new D)]
      | name # _ \<Rightarrow>
         (let host = trim_suffix name ''.'';
              dec = EvaluateHost uni (px_Allowed p) (px_Denied p) host in
          if \<not> Allow dec then
            (if px_Mode p = MODE_MONITOR
             then on_event p host ACTION_MONITOR_DENY (Rule dec) @ forward D exchange p dec r
             else WriteMsg (dl_SetRcode D r RcodeNameError) # on_event p host ACTION_DENY (Rule dec))
          else on_event p host ACTION_ALLOW (Rule dec) @ forward D exchange p dec r))"

definition ServeDNS :: "(string \<Rightarrow> string) \<Rightarrow> 'm dns_lib \<Rightarrow> ('m \<Rightarrow> string \<Rightarrow> string + 'm) \<Rightarrow> Proxy \<Rightarrow> 'm \<Rightarrow> 'm effect list" where
  "ServeDNS uni D exchange p r = handle uni D exchange p r"

section \<open>Listening\<close>

text \<open>The sockets served, by network and address. \<^verbatim>\<open>ListenAndServe\<close> runs in a goroutine: whether it could
  bind (\<open>binds\<close>) is never looked at. Only the UDP server is remembered.\<close>

type_synonym listeners = "(string \<times> string) list"

definition Start :: "(string \<Rightarrow> bool) \<Rightarrow> string \<Rightarrow> Proxy \<Rightarrow> listeners \<Rightarrow> Proxy \<times> listeners \<times> string option" where
  "Start binds addr p ls =
     (p\<lparr>px_server := Some addr\<rparr>,
      ls @ (if binds ''udp'' then [(''udp'', addr)] else []) @ (if binds ''tcp'' then [(''tcp'', addr)] else []),
      None)"

text \<open>\<^verbatim>\<open>Server.Shutdown\<close> fails on a server that is not serving.\<close>

definition Shutdown :: "Proxy \<Rightarrow> listeners \<Rightarrow> listeners \<times> string option" where
  "Shutdown p ls =
     (case px_server p of
        None \<Rightarrow> (ls, None)
      | Some addr \<Rightarrow> if (''udp'', addr) \<in> set ls then (remove1 (''udp'', addr) ls, None)
                     else (ls, Some ''dns: server not started''))"

section \<open>Facts\<close>

lemma on_answer_set:
  "set (on_answer p rrs) = (if px_OnAllow p then OnAllow ` {ip. RR_A ip \<in> set rrs \<or> RR_AAAA ip \<in> set rrs} else {})"
  by (induction p rrs rule: on_answer.induct) (auto split: RR.splits)

lemma on_event_set: "set (on_event p h a r) = (if px_OnEvent p then {OnEvent h a r} else {})"
  by (simp add: on_event_def)

definition is_write :: "'m effect \<Rightarrow> bool" where
  "is_write e = (case e of WriteMsg _ \<Rightarrow> True | _ \<Rightarrow> False)"

lemma is_write_simps [simp]:
  "is_write (WriteMsg m)" "\<not> is_write (OnEvent h a r)" "\<not> is_write (OnAllow ip)" "\<not> is_write (Exchange m u)"
  by (simp_all add: is_write_def)

lemma no_write_on_answer [simp]: "filter is_write (on_answer p rrs) = []"
  by (induction p rrs rule: on_answer.induct) (auto split: RR.splits)

lemma no_write_on_event [simp]: "filter is_write (on_event p h a r) = []"
  by (simp add: on_event_def)

lemma forward_form:
  "\<exists>mid m. forward D exchange p dec r = Exchange r (px_Upstream p) # mid @ [WriteMsg m] \<and> filter is_write mid = []
     \<and> set mid \<subseteq> range OnAllow"
  by (cases "exchange r (px_Upstream p)") (auto simp: forward_def on_answer_set)

lemma forward_allow:
  "OnAllow ip \<in> set (forward D exchange p dec r) \<longleftrightarrow>
     px_OnAllow p \<and> (Allow dec \<or> px_Mode p = MODE_MONITOR) \<and> (\<exists>resp. exchange r (px_Upstream p) = Inr resp
       \<and> (RR_A ip \<in> set (dl_Answer D resp) \<or> RR_AAAA ip \<in> set (dl_Answer D resp)))"
  by (cases "exchange r (px_Upstream p)") (auto simp: forward_def on_answer_set)

text \<open>Whether the first question, if there is one, names a host the policy allows.\<close>

definition query_allowed :: "(string \<Rightarrow> string) \<Rightarrow> 'm dns_lib \<Rightarrow> Proxy \<Rightarrow> 'm \<Rightarrow> bool" where
  "query_allowed uni D p r = (case dl_Question D r of [] \<Rightarrow> False
     | name # _ \<Rightarrow> Allow (EvaluateHost uni (px_Allowed p) (px_Denied p) (trim_suffix name ''.'')))"

lemma handle_allow:
  "OnAllow ip \<in> set (handle uni D exchange p r) \<longleftrightarrow>
     px_OnAllow p \<and> dl_Question D r \<noteq> [] \<and> (query_allowed uni D p r \<or> px_Mode p = MODE_MONITOR)
     \<and> (\<exists>resp. exchange r (px_Upstream p) = Inr resp
          \<and> (RR_A ip \<in> set (dl_Answer D resp) \<or> RR_AAAA ip \<in> set (dl_Answer D resp)))"
  by (cases "dl_Question D r") (auto simp: handle_def Let_def query_allowed_def forward_allow on_event_set)

section \<open>Properties\<close>

text \<open>The proxy admits an address only on the policy's word. The handler asks for an address to be
  admitted exactly when the query has a question, the first question's host is allowed (or the mode is
  monitor), the upstream answered, and the address is that of an A or AAAA record of the answer.\<close>

theorem handle_admits_iff:
  "OnAllow ip \<in> set (handle uni D exchange p r) \<longleftrightarrow>
     px_OnAllow p \<and> dl_Question D r \<noteq> [] \<and> (query_allowed uni D p r \<or> px_Mode p = MODE_MONITOR)
     \<and> (\<exists>resp. exchange r (px_Upstream p) = Inr resp
          \<and> (RR_A ip \<in> set (dl_Answer D resp) \<or> RR_AAAA ip \<in> set (dl_Answer D resp)))"
  by (rule handle_allow)

text \<open>C25: Every query gets exactly one reply, and the client never sees an answer before its addresses are
  admitted: the calls before the reply are at most an event, the exchange and the admissions; after it
  comes at most an event. A host the policy denies, outside monitor mode, gets NXDOMAIN without any
  query upstream.\<close>

theorem handle_replies_once:
  "\<exists>pre m post. handle uni D exchange p r = pre @ WriteMsg m # post
     \<and> filter is_write pre = [] \<and> filter is_write post = []
     \<and> set post \<subseteq> (\<Union>(h, a, rl) \<in> UNIV. {OnEvent h a rl})
     \<and> (dl_Question D r \<noteq> [] \<and> \<not> query_allowed uni D p r \<and> px_Mode p \<noteq> MODE_MONITOR
        \<longrightarrow> m = dl_SetRcode D r RcodeNameError \<and> pre = [])"
proof (cases "dl_Question D r")
  case Nil
  then show ?thesis by (intro exI [of _ "[]"] exI [of _ "dl_new D"]) (simp add: handle_def)
next
  case (Cons name ns)
  define host where "host = trim_suffix name ''.''"
  define dec where "dec = EvaluateHost uni (px_Allowed p) (px_Denied p) host"
  have q: "query_allowed uni D p r = Allow dec" by (simp add: query_allowed_def Cons host_def dec_def)
  show ?thesis
  proof (cases "Allow dec \<or> px_Mode p = MODE_MONITOR")
    case True
    obtain mid m where f: "forward D exchange p dec r = Exchange r (px_Upstream p) # mid @ [WriteMsg m]"
      "filter is_write mid = []"
      using forward_form [of D exchange p dec r] by (elim exE conjE)
    have "handle uni D exchange p r =
        on_event p host (if Allow dec then ACTION_ALLOW else ACTION_MONITOR_DENY) (Rule dec)
          @ Exchange r (px_Upstream p) # mid @ [WriteMsg m]"
      using True by (auto simp: handle_def Cons Let_def f(1) simp flip: host_def dec_def)
    then show ?thesis
      using f(2) True q
      by (intro exI [of _ "on_event p host (if Allow dec then ACTION_ALLOW else ACTION_MONITOR_DENY) (Rule dec)
          @ Exchange r (px_Upstream p) # mid"] exI [of _ m] exI [of _ "[]"]) auto
  next
    case False
    then have "handle uni D exchange p r =
        [] @ WriteMsg (dl_SetRcode D r RcodeNameError) # on_event p host ACTION_DENY (Rule dec)"
      by (simp add: handle_def Cons Let_def flip: host_def dec_def)
    then show ?thesis
      by (intro exI [of _ "[]"] exI [of _ "dl_SetRcode D r RcodeNameError"] exI [of _ "on_event p host ACTION_DENY (Rule dec)"])
        (auto simp: on_event_set split: if_splits)
  qed
qed

text \<open>A toy message library for the examples: a message is its questions, its answers and its code.\<close>

type_synonym toy = "string list \<times> RR list \<times> nat"

definition toy_lib :: "toy dns_lib" where
  "toy_lib = \<lparr>dl_Question = fst, dl_Answer = fst \<circ> snd, dl_SetRcode = (\<lambda>(q, a, c) rc. (q, [], rc)), dl_new = ([], [], 0)\<rparr>"

definition proxy0 :: Proxy where
  "proxy0 = \<lparr>px_Upstream = ''8.8.8.8:53'', px_Mode = MODE_ENFORCE, px_Allowed = [''github.com''], px_Denied = [],
     px_OnEvent = True, px_OnAllow = True, px_server = None\<rparr>"

theorem handle_replies_once_witness:
  "handle id toy_lib (\<lambda>r u. Inr r) proxy0 ([''evil.com.''], [], 0) =
     [WriteMsg ([''evil.com.''], [], 3), OnEvent ''evil.com'' ACTION_DENY ''default'']
   \<and> filter is_write (handle id toy_lib (\<lambda>r u. Inr r) proxy0 ([''evil.com.''], [], 0)) = [WriteMsg ([''evil.com.''], [], 3)]"
proof -
  have h: "handle id toy_lib (\<lambda>r u. Inr r) proxy0 ([''evil.com.''], [], 0) =
     [WriteMsg ([''evil.com.''], [], 3), OnEvent ''evil.com'' ACTION_DENY ''default'']"
    by code_simp
  have "\<not> query_allowed id toy_lib proxy0 ([''evil.com.''], [], 0)" by code_simp
  moreover have "dl_Question toy_lib ([''evil.com.''], [], 0) \<noteq> []" "px_Mode proxy0 \<noteq> MODE_MONITOR"
    "dl_SetRcode toy_lib ([''evil.com.''], [], 0) RcodeNameError = ([''evil.com.''], [], 3)"
    by (simp_all add: toy_lib_def proxy0_def RcodeNameError_def)
  ultimately have "filter is_write (handle id toy_lib (\<lambda>r u. Inr r) proxy0 ([''evil.com.''], [], 0)) = [WriteMsg ([''evil.com.''], [], 3)]"
    using handle_replies_once [of id toy_lib "\<lambda>r u. Inr r" proxy0 "([''evil.com.''], [], 0)"] by auto
  with h show ?thesis by simp
qed

text \<open>The life of the listeners. Starting never reports an error, even when nothing could be bound; after a
  shutdown that follows a start on fresh sockets the UDP socket is closed but a bound TCP socket is
  still served.\<close>

theorem listener_lifecycle:
  "snd (snd (Start binds addr p [])) = None
   \<and> (case Start binds addr p [] of (p', ls, _) \<Rightarrow>
        fst (Shutdown p' ls) = (if binds ''tcp'' then [(''tcp'', addr)] else [])
        \<and> (snd (Shutdown p' ls) = None) = binds ''udp'')"
  by (simp add: Start_def Shutdown_def)

end
