(* ===== verification/EventLog.thy ===== *)
theory EventLog
  imports AgentTypes
begin

text \<open>
  The event log of \<^verbatim>\<open>internal/events/logger.go\<close>, over the part of the file system it uses: file contents,
  open file descriptions with their offsets, and the advisory locks. \<^verbatim>\<open>protojson.Marshal\<close> is the
  parameter \<open>marshal\<close>. Failures of system calls are parameters of each operation.
\<close>

section \<open>Files and locks\<close>

record osfs =
  fdata :: "string \<rightharpoonup> string"
  fopen :: "nat \<rightharpoonup> string \<times> nat"
  flock :: "string \<rightharpoonup> nat"
  nextfd :: nat

text \<open>A write lands at the offset of the open file, whatever the length of the file: a gap reads as
  NUL bytes. Closing the holder of a lock drops the lock.\<close>

definition splice :: "string \<Rightarrow> nat \<Rightarrow> string \<Rightarrow> string" where
  "splice c off b = take off (c @ replicate (off - length c) (CHR 0x00)) @ b @ drop (off + length b) c"

definition fd_write :: "nat \<Rightarrow> string \<Rightarrow> osfs \<Rightarrow> osfs" where
  "fd_write fd b fs = (case fopen fs fd of
     None \<Rightarrow> fs
   | Some (p, off) \<Rightarrow>
       fs\<lparr>fdata := (fdata fs)(p \<mapsto> splice (case fdata fs p of Some c \<Rightarrow> c | None \<Rightarrow> []) off b),
          fopen := (fopen fs)(fd \<mapsto> (p, off + length b))\<rparr>)"

definition fd_unlock :: "nat \<Rightarrow> osfs \<Rightarrow> osfs" where
  "fd_unlock fd fs = fs\<lparr>flock := (\<lambda>p. if flock fs p = Some fd then None else flock fs p)\<rparr>"

definition fd_close :: "nat \<Rightarrow> osfs \<Rightarrow> osfs" where
  "fd_close fd fs = (fd_unlock fd fs)\<lparr>fopen := (fopen fs)(fd := None)\<rparr>"

section \<open>The logger\<close>

definition DefaultLogPath :: string where
  "DefaultLogPath = ''/var/log/censor/agent.ndjson''"

record Logger =
  lg_file :: "nat option"
  lg_path :: string

record open_outcome =
  oo_mkdir :: "string option"
  oo_open :: "string option"
  oo_chmod :: "string option"

definition Open :: "open_outcome \<Rightarrow> string \<Rightarrow> osfs \<Rightarrow> osfs \<times> (string + Logger)" where
  "Open out path fs =
     (let path = (if path = [] then DefaultLogPath else path) in
      case oo_mkdir out of Some e \<Rightarrow> (fs, Inl e)
      | None \<Rightarrow>
       (case oo_open out of Some e \<Rightarrow> (fs, Inl e)
        | None \<Rightarrow>
         (let fd = nextfd fs;
              fs = fs\<lparr>fdata := (fdata fs)(path \<mapsto> []), fopen := (fopen fs)(fd \<mapsto> (path, 0)), nextfd := Suc fd\<rparr>
          in case oo_chmod out of Some e \<Rightarrow> (fd_close fd fs, Inl e)
             | None \<Rightarrow>
               (if flock fs path \<noteq> None
                then (fd_close fd fs, Inl ''flock: resource temporarily unavailable'')
                else (fs\<lparr>flock := (flock fs)(path \<mapsto> fd)\<rparr>, Inr \<lparr>lg_file = Some fd, lg_path = path\<rparr>)))))"

text \<open>A write may store fewer bytes than asked and report an error; \<open>wo_write = Some (n, e)\<close> stores \<open>n\<close>.
  The methods of a nil \<^verbatim>\<open>*os.File\<close> return \<^verbatim>\<open>os.ErrInvalid\<close>.\<close>

record write_outcome =
  wo_write :: "(nat \<times> string) option"
  wo_sync :: "string option"

definition ErrInvalid :: string where
  "ErrInvalid = ''invalid argument''"

definition newline :: char where
  "newline = CHR 0x0A"

definition WriteEvent :: "('e \<Rightarrow> string + string) \<Rightarrow> write_outcome \<Rightarrow> 'e \<Rightarrow> Logger \<Rightarrow> osfs \<Rightarrow> osfs \<times> string option" where
  "WriteEvent marshal out ev l fs =
     (case marshal ev of Inl e \<Rightarrow> (fs, Some e)
      | Inr b \<Rightarrow>
       (case lg_file l of None \<Rightarrow> (fs, Some ErrInvalid)
        | Some fd \<Rightarrow>
         (case wo_write out of
            Some (n, e) \<Rightarrow> (fd_write fd (take n (b @ [newline])) fs, Some e)
          | None \<Rightarrow> (fd_write fd (b @ [newline]) fs, wo_sync out))))"

definition Close :: "string option \<Rightarrow> Logger \<Rightarrow> osfs \<Rightarrow> Logger \<times> osfs \<times> string option" where
  "Close cerr l fs =
     (case lg_file l of None \<Rightarrow> (l, fs, None)
      | Some fd \<Rightarrow> (l\<lparr>lg_file := None\<rparr>, fd_close fd (fd_unlock fd fs), cerr))"

definition ReadFile :: "string option \<Rightarrow> Logger \<Rightarrow> osfs \<Rightarrow> string + string" where
  "ReadFile serr l fs =
     (case lg_file l of None \<Rightarrow> Inl ErrInvalid
      | Some fd \<Rightarrow>
       (case serr of Some e \<Rightarrow> Inl e
        | None \<Rightarrow> (case fdata fs (lg_path l) of
            None \<Rightarrow> Inl (''open '' @ lg_path l @ '': no such file or directory'')
          | Some c \<Rightarrow> Inr c)))"

section \<open>Sequences of writes\<close>

fun write_all :: "('e \<Rightarrow> string + string) \<Rightarrow> Logger \<Rightarrow> ('e \<times> write_outcome) list \<Rightarrow> osfs \<Rightarrow> osfs" where
  "write_all marshal l [] fs = fs"
| "write_all marshal l ((ev, out) # evs) fs = write_all marshal l evs (fst (WriteEvent marshal out ev l fs))"

definition bodies :: "('e \<Rightarrow> string + string) \<Rightarrow> 'e list \<Rightarrow> string list" where
  "bodies marshal evs = concat (map (\<lambda>ev. case marshal ev of Inl _ \<Rightarrow> [] | Inr b \<Rightarrow> [b]) evs)"

definition log_lines :: "string list \<Rightarrow> string" where
  "log_lines bs = concat (map (\<lambda>b. b @ [newline]) bs)"

lemma bodies_simps [simp]:
  "bodies marshal [] = []"
  "bodies marshal (ev # evs) = (case marshal ev of Inl _ \<Rightarrow> [] | Inr b \<Rightarrow> [b]) @ bodies marshal evs"
  by (simp_all add: bodies_def)

lemma log_lines_simps [simp]:
  "log_lines [] = []" "log_lines (b # bs) = b @ newline # log_lines bs"
  "log_lines (xs @ ys) = log_lines xs @ log_lines ys"
  by (simp_all add: log_lines_def)

lemma splice_end: "splice c (length c) b = c @ b"
  by (simp add: splice_def)

lemma splice_hole: "splice [] n b = replicate n (CHR 0x00) @ b"
  by (simp add: splice_def)

lemma write_all_end:
  assumes "lg_file l = Some fd" "fopen fs fd = Some (p, length c)" "fdata fs p = Some c"
    "\<forall>(ev, out) \<in> set evs. wo_write out = None"
  shows "fdata (write_all marshal l evs fs) p = Some (c @ log_lines (bodies marshal (map fst evs)))"
  using assms(2-4)
proof (induction evs arbitrary: fs c)
  case (Cons e evs)
  obtain ev out where e: "e = (ev, out)" by (cases e)
  with Cons.prems have w: "wo_write out = None" by simp
  show ?case
  proof (cases "marshal ev")
    case (Inl m)
    with Cons.IH [of fs c] Cons.prems show ?thesis by (simp add: e WriteEvent_def)
  next
    case (Inr b)
    with assms(1) w Cons.prems Cons.IH [of "fd_write fd (b @ [newline]) fs" "c @ b @ [newline]"]
    show ?thesis by (simp add: e WriteEvent_def fd_write_def splice_end)
  qed
qed simp

lemma split_log_lines:
  "(\<And>b. b \<in> set bs \<Longrightarrow> newline \<notin> set b) \<Longrightarrow> split_on newline (log_lines bs) = bs @ [[]]"
  by (induction bs) (simp_all add: gostr_simps)

lemma Open_ok:
  assumes "Open out path fs = (fs', Inr l)"
  shows "lg_file l = Some (nextfd fs)" "lg_path l = (if path = [] then DefaultLogPath else path)"
    "fdata fs' (lg_path l) = Some []" "fopen fs' (nextfd fs) = Some (lg_path l, 0)"
    "flock fs (lg_path l) = None" "flock fs' (lg_path l) = Some (nextfd fs)"
  using assms by (auto simp: Open_def Let_def split: option.splits if_splits)

section \<open>Properties\<close>

text \<open>C36: The log is newline-delimited JSON of exactly the events written. After opening a log and any
  sequence of writes none of which the disk cuts short (syncs may fail, events may fail to marshal),
  reading the log and splitting it at newlines gives the marshalled bodies in order and a final empty
  piece, provided the marshaller emits no newline.\<close>

theorem log_is_ndjson:
  assumes "Open out path fs = (fs1, Inr l)"
    and "\<forall>(ev, wout) \<in> set evs. wo_write wout = None"
    and "\<forall>ev b. marshal ev = Inr b \<longrightarrow> newline \<notin> set b"
  shows "\<exists>c. ReadFile None l (write_all marshal l evs fs1) = Inr c
     \<and> split_on newline c = bodies marshal (map fst evs) @ [[]]"
proof -
  note o = Open_ok [OF assms(1)]
  have "fdata (write_all marshal l evs fs1) (lg_path l) = Some ([] @ log_lines (bodies marshal (map fst evs)))"
    using o assms(2) by (intro write_all_end) simp_all
  moreover have "split_on newline (log_lines (bodies marshal (map fst evs))) = bodies marshal (map fst evs) @ [[]]"
    by (rule split_log_lines) (use assms(3) in \<open>auto simp: bodies_def split: sum.splits\<close>)
  ultimately show ?thesis by (simp add: ReadFile_def o(1))
qed

definition fs0 :: osfs where
  "fs0 = \<lparr>fdata = Map.empty, fopen = Map.empty, flock = Map.empty, nextfd = 3\<rparr>"

definition ok_open :: open_outcome where
  "ok_open = \<lparr>oo_mkdir = None, oo_open = None, oo_chmod = None\<rparr>"

definition ok_write :: write_outcome where
  "ok_write = \<lparr>wo_write = None, wo_sync = None\<rparr>"

definition plain_marshal :: "AgentEvent \<Rightarrow> string + string" where
  "plain_marshal ev = Inr (filter (\<lambda>c. c \<noteq> newline) (ev_Host ev))"

theorem log_is_ndjson_witness:
  "\<exists>c. ReadFile None \<lparr>lg_file = Some 3, lg_path = ''l''\<rparr>
     (write_all plain_marshal \<lparr>lg_file = Some 3, lg_path = ''l''\<rparr>
        [(zeroEvent\<lparr>ev_Host := ''a''\<rparr>, ok_write), (zeroEvent\<lparr>ev_Host := ''b''\<rparr>, ok_write)]
        (fst (Open ok_open ''l'' fs0))) = Inr c
     \<and> split_on newline c = [''a'', ''b'', []]"
proof -
  have o: "Open ok_open ''l'' fs0 = (fst (Open ok_open ''l'' fs0), Inr \<lparr>lg_file = Some 3, lg_path = ''l''\<rparr>)"
    by (simp add: Open_def ok_open_def fs0_def Let_def)
  have b: "bodies plain_marshal (map fst [(zeroEvent\<lparr>ev_Host := ''a''\<rparr>, ok_write), (zeroEvent\<lparr>ev_Host := ''b''\<rparr>, ok_write)])
     = [''a'', ''b'']"
    by (simp add: plain_marshal_def newline_def)
  have w: "\<forall>(ev, wout) \<in> set [(zeroEvent\<lparr>ev_Host := ''a''\<rparr>, ok_write), (zeroEvent\<lparr>ev_Host := ''b''\<rparr>, ok_write)]. wo_write wout = None"
    by (simp add: ok_write_def)
  have m: "\<forall>ev b. plain_marshal ev = Inr b \<longrightarrow> newline \<notin> set b"
    by (auto simp: plain_marshal_def)
  from log_is_ndjson [OF o w m] show ?thesis unfolding b by simp
qed

text \<open>A second agent destroys the log it fails to lock. Opening a path whose lock another process holds
  fails, but only after \<^verbatim>\<open>O_TRUNC\<close> has emptied the file; and since the holder does not open with
  \<^verbatim>\<open>O_APPEND\<close>, its next event lands at its old offset, behind as many NUL bytes.\<close>

theorem failed_open_destroys_log:
  assumes "lg_file l = Some fd" "fopen fs fd = Some (lg_path l, n)" "lg_path l \<noteq> []"
    and "flock fs (lg_path l) = Some fd" "fd < nextfd fs" "marshal ev = Inr b"
  shows "snd (Open ok_open (lg_path l) fs) = Inl ''flock: resource temporarily unavailable''
     \<and> ReadFile None l (fst (Open ok_open (lg_path l) fs)) = Inr []
     \<and> ReadFile None l (fst (WriteEvent marshal ok_write ev l (fst (Open ok_open (lg_path l) fs))))
       = Inr (replicate n (CHR 0x00) @ b @ [newline])"
  using assms
  by (simp add: Open_def ok_open_def ok_write_def Let_def ReadFile_def WriteEvent_def fd_write_def fd_close_def
      fd_unlock_def splice_hole)

theorem failed_open_destroys_log_witness:
  "ReadFile None \<lparr>lg_file = Some 3, lg_path = ''l''\<rparr>
     (fst (Open ok_open ''l'' (fst (WriteEvent plain_marshal ok_write (zeroEvent\<lparr>ev_Host := ''a''\<rparr>)
        \<lparr>lg_file = Some 3, lg_path = ''l''\<rparr> (fst (Open ok_open ''l'' fs0)))))) = Inr []"
proof -
  let ?l = "\<lparr>lg_file = Some 3, lg_path = ''l''\<rparr>"
  let ?fs = "fst (WriteEvent plain_marshal ok_write (zeroEvent\<lparr>ev_Host := ''a''\<rparr>) ?l (fst (Open ok_open ''l'' fs0)))"
  have fs: "fopen ?fs 3 = Some (''l'', 2)" "flock ?fs ''l'' = Some 3" "3 < nextfd ?fs"
    by (simp_all add: WriteEvent_def plain_marshal_def newline_def ok_write_def fd_write_def Open_def ok_open_def
        fs0_def Let_def)
  have "plain_marshal zeroEvent = Inr []" by (simp add: plain_marshal_def zeroEvent_def)
  with failed_open_destroys_log [of ?l 3 ?fs 2 plain_marshal zeroEvent "[]"] fs show ?thesis by simp
qed

end
