(* ===== verification/Enforcement.thy ===== *)
theory Enforcement
  imports FirewallProps DnsProxy EventLog
begin

text \<open>
  The DNS proxy and the firewall joined as \<^verbatim>\<open>agent.Start\<close> joins them: the proxy's \<^verbatim>\<open>OnAllow\<close> is the closure
  that inserts an answer's address into the allow maps, its \<^verbatim>\<open>OnEvent\<close> the one that logs the decision.
  A queue of queries is served one after the other.
\<close>

section \<open>The closures\<close>

definition allowIPs :: "('m, 'p) bpf_ops \<Rightarrow> endian \<Rightarrow> bytes \<Rightarrow> ('m, 'p) fw \<Rightarrow> ('m, 'p) fw option" where
  "allowIPs L en ip s =
     (case AddrFromSlice ip of
        None \<Rightarrow> Some s
      | Some addr \<Rightarrow> do { (s', err) \<leftarrow> AllowIP L en (Unmap addr) s; Some s' })"

definition dns_event :: "int \<Rightarrow> string \<Rightarrow> Action \<Rightarrow> string \<Rightarrow> AgentEvent" where
  "dns_event ts host action rule = zeroEvent\<lparr>ev_Ts := ts, ev_Type := EVENT_TYPE_DNS, ev_Action := action,
     ev_Host := host, ev_Rule := rule\<rparr>"

text \<open>A query with its surroundings: what upstream answers, the time, the outcome of writing the log.\<close>

record 'q query =
  qy_msg :: 'q
  qy_exchange :: "'q \<Rightarrow> string \<Rightarrow> string + 'q"
  qy_ts :: int
  qy_out :: write_outcome

fun run_effects :: "(AgentEvent \<Rightarrow> string + string) \<Rightarrow> ('m, 'p) bpf_ops \<Rightarrow> endian \<Rightarrow> Logger \<Rightarrow> 'q query \<Rightarrow>
    'q effect list \<Rightarrow> ('m, 'p) fw \<times> osfs \<Rightarrow> (('m, 'p) fw \<times> osfs) option" where
  "run_effects marshal L en l q [] (s, fs) = Some (s, fs)"
| "run_effects marshal L en l q (e # es) (s, fs) =
     (case e of
        OnAllow ip \<Rightarrow> do { s' \<leftarrow> allowIPs L en ip s; run_effects marshal L en l q es (s', fs) }
      | OnEvent host action rule \<Rightarrow>
          run_effects marshal L en l q es
            (s, fst (WriteEvent marshal (qy_out q) (dns_event (qy_ts q) host action rule) l fs))
      | WriteMsg m \<Rightarrow> run_effects marshal L en l q es (s, fs)
      | Exchange m u \<Rightarrow> run_effects marshal L en l q es (s, fs))"

fun serve_all :: "(string \<Rightarrow> string) \<Rightarrow> 'q dns_lib \<Rightarrow> (AgentEvent \<Rightarrow> string + string) \<Rightarrow> ('m, 'p) bpf_ops \<Rightarrow> endian \<Rightarrow>
    Logger \<Rightarrow> Proxy \<Rightarrow> 'q query list \<Rightarrow> ('m, 'p) fw \<times> osfs \<Rightarrow> (('m, 'p) fw \<times> osfs) option" where
  "serve_all uni D marshal L en l p [] st = Some st"
| "serve_all uni D marshal L en l p (q # qs) st = do {
     st' \<leftarrow> run_effects marshal L en l q (ServeDNS uni D (qy_exchange q) p (qy_msg q)) st;
     serve_all uni D marshal L en l p qs st'
   }"

section \<open>What an address admits\<close>

definition addr_admits :: "endian \<Rightarrow> Addr \<Rightarrow> flow \<Rightarrow> bool" where
  "addr_admits en a f =
     (case a of
        AddrZero \<Rightarrow> False
      | Addr4 w \<Rightarrow> \<not> f_v6 f \<and> f_dst f = mem32 en w
      | Addr6 w0 w1 w2 w3 \<Rightarrow> f_v6 f \<and> f_dst f = mem32 en w0 @ mem32 en w1 @ mem32 en w2 @ mem32 en w3)"

context lpm_trie
begin

lemma AllowIP_flow:
  assumes "AllowIP L en a s = Some (s', None)" "loaded s"
  shows "flow_allowed L (objs s') f \<longleftrightarrow> addr_admits en a f \<or> flow_allowed L (objs s) f"
proof (cases a)
  case (Addr6 w0 w1 w2 w3)
  with assms have "putV6 L en 128 [w0, w1, w2, w3] s = (s', None)" by (simp add: AllowIP_cases)
  from putV6_flow [OF this, of f] admits6_host [of "[w0, w1, w2, w3]" en f] Addr6 show ?thesis
    by (simp add: addr_admits_def)
next
  case (Addr4 w)
  with assms have "putV4 L en 32 w s = (s', None)" by (simp add: AllowIP_cases)
  from putV4_flow [OF this, of f] Addr4 show ?thesis by (simp add: addr_admits_def admits4_host)
next
  case AddrZero
  with assms show ?thesis by (simp add: AllowIP_cases addr_admits_def)
qed

lemma AllowIP_err_same: "AllowIP L en a s = Some (s', Some e) \<Longrightarrow> s' = s"
  by (auto simp: AllowIP_cases dest: put_error_same split: if_splits Addr.splits)

lemma AllowIP_idle_same: "AllowIP L en a s = Some (s', err) \<Longrightarrow> \<not> loaded s \<Longrightarrow> s' = s"
  by (simp add: AllowIP_cases)

lemma AllowIP_sound:
  assumes "AllowIP L en a s = Some (s', err)" "flow_allowed L (objs s') f"
  shows "addr_admits en a f \<or> flow_allowed L (objs s) f"
proof (cases "loaded s \<and> err = None")
  case True
  with AllowIP_flow [of en a s s' f] assms show ?thesis by simp
next
  case False
  with assms(1) AllowIP_err_same AllowIP_idle_same have "s' = s" by (cases err) auto
  with assms(2) show ?thesis by simp
qed

lemma allowIPs_sound:
  "allowIPs L en ip s = Some s' \<Longrightarrow> flow_allowed L (objs s') f \<Longrightarrow>
   flow_allowed L (objs s) f \<or> (\<exists>a. AddrFromSlice ip = Some a \<and> addr_admits en (Unmap a) f)"
  by (auto simp: allowIPs_def dest: AllowIP_sound split: option.splits bind_splits)

lemma run_effects_sound:
  "run_effects marshal L en l q es (s, fs) = Some (s', fs') \<Longrightarrow> flow_allowed L (objs s') f \<Longrightarrow>
   flow_allowed L (objs s) f
   \<or> (\<exists>ip a. OnAllow ip \<in> set es \<and> AddrFromSlice ip = Some a \<and> addr_admits en (Unmap a) f)"
proof (induction es arbitrary: s fs)
  case (Cons e es)
  show ?case
  proof (cases e)
    case (OnAllow ip)
    with Cons.prems(1) obtain s1 where s1: "allowIPs L en ip s = Some s1"
        "run_effects marshal L en l q es (s1, fs) = Some (s', fs')"
      by (auto split: bind_splits)
    from Cons.IH [OF s1(2) Cons.prems(2)] allowIPs_sound [OF s1(1)] OnAllow show ?thesis by auto
  qed (use Cons in auto)
qed simp

end

lemma allowIPs_total: "\<exists>s'. allowIPs L en ip s = Some s'"
  by (cases "AddrFromSlice ip") (simp_all add: allowIPs_def AllowIP_cases split_def)

lemma run_effects_total: "\<exists>st'. run_effects marshal L en l q es st = Some st'"
proof (induction es arbitrary: st)
  case Nil
  show ?case by (cases st) simp
next
  case (Cons e es)
  obtain s fs where st: "st = (s, fs)" by (cases st)
  show ?case
  proof (cases e)
    case (OnAllow ip)
    obtain s' where "allowIPs L en ip s = Some s'" using allowIPs_total by blast
    with Cons OnAllow st show ?thesis by simp
  qed (use Cons st in simp_all)
qed

lemma serve_all_total: "\<exists>st'. serve_all uni D marshal L en l p qs st = Some st'"
proof (induction qs arbitrary: st)
  case (Cons q qs)
  obtain st' where "run_effects marshal L en l q (ServeDNS uni D (qy_exchange q) p (qy_msg q)) st = Some st'"
    using run_effects_total by blast
  with Cons show ?case by simp
qed simp

text \<open>What the policy lets a query admit: an address of the answer to an allowed query (or, in monitor mode,
  to any query).\<close>

definition query_admits :: "(string \<Rightarrow> string) \<Rightarrow> 'q dns_lib \<Rightarrow> endian \<Rightarrow> Proxy \<Rightarrow> 'q query \<Rightarrow> flow \<Rightarrow> bool" where
  "query_admits uni D en p q f \<longleftrightarrow> dl_Question D (qy_msg q) \<noteq> []
     \<and> (query_allowed uni D p (qy_msg q) \<or> px_Mode p = MODE_MONITOR)
     \<and> (\<exists>resp ip a. qy_exchange q (qy_msg q) (px_Upstream p) = Inr resp
          \<and> (RR_A ip \<in> set (dl_Answer D resp) \<or> RR_AAAA ip \<in> set (dl_Answer D resp))
          \<and> AddrFromSlice ip = Some a \<and> addr_admits en (Unmap a) f)"

context lpm_trie
begin

lemma serve_all_sound:
  "serve_all uni D marshal L en l p qs st = Some st' \<Longrightarrow> flow_allowed L (objs (fst st')) f \<Longrightarrow>
   flow_allowed L (objs (fst st)) f \<or> (\<exists>q \<in> set qs. query_admits uni D en p q f)"
proof (induction qs arbitrary: st)
  case (Cons q qs)
  obtain s fs where st: "st = (s, fs)" by (cases st)
  from Cons.prems(1) obtain s1 fs1 where
    r: "run_effects marshal L en l q (ServeDNS uni D (qy_exchange q) p (qy_msg q)) (s, fs) = Some (s1, fs1)"
    and rest: "serve_all uni D marshal L en l p qs (s1, fs1) = Some st'"
    by (auto simp: st split: bind_splits)
  from Cons.IH [OF rest Cons.prems(2)] consider "flow_allowed L (objs s1) f"
    | "\<exists>q \<in> set qs. query_admits uni D en p q f" by auto
  then show ?case
  proof cases
    case 1
    from run_effects_sound [OF r 1] show ?thesis
      by (auto simp: st ServeDNS_def handle_allow query_admits_def)
  qed simp
qed simp

end

section \<open>Properties\<close>


definition query0 :: "toy query" where
  "query0 = \<lparr>qy_msg = ([''evil.com.''], [], 0), qy_exchange = (\<lambda>r u. Inr (fst r, [RR_A [1, 2, 3, 4]], 0)), qy_ts = 0,
     qy_out = ok_write\<rparr>"

definition log0 :: Logger where
  "log0 = \<lparr>lg_file = None, lg_path = ''l''\<rparr>"


text \<open>C21: Just-in-time admission, end to end. In enforce mode, when an allowed host resolves to one address
  \<open>a.b.c.d\<close> and the map takes the entry, a packet is let through afterwards exactly when it is no
  flow the filter looks at, was allowed before, or goes to the address admitted: \<open>a.b.c.d\<close> on a big-endian
  host, but \<open>d.c.b.a\<close> on a little-endian one, where the address the client was given stays blocked
  (unless it was open already or reads the same backwards).\<close>

theorem dns_jit_allow:
  assumes "lpm_trie L" "loaded s" "audit_mode (objs s) = 0"
    and "query_allowed uni D p (qy_msg q)" "px_OnAllow p"
    and "qy_exchange q (qy_msg q) (px_Upstream p) = Inr resp" "dl_Answer D resp = [RR_A [a, b, c, d]]"
    and "lpm_update L (allow_v4 (objs s)) 32 (mem32 en (join_be32 a b c d)) 1 = Inr m"
  shows "\<exists>s' fs'. serve_all uni D marshal L en l p [q] (s, fs) = Some (s', fs')
     \<and> (map_option fst (censor_egress L en h skb (objs s')) = Some TC_ACT_OK \<longleftrightarrow>
          (case flow_of en skb of None \<Rightarrow> True
           | Some f \<Rightarrow> flow_allowed L (objs s) f
               \<or> \<not> f_v6 f \<and> f_dst f = (case en of BigEndian \<Rightarrow> [a, b, c, d] | LittleEndian \<Rightarrow> [d, c, b, a])))"
proof -
  let ?w = "join_be32 a b c d"
  let ?s = "s\<lparr>objs := (objs s)\<lparr>allow_v4 := m\<rparr>\<rparr>"
  have a: "AllowIP L en (Addr4 ?w) s = Some (?s, None)"
    using assms(2,8) by (simp add: AllowIP_cases putV4_def)
  have i: "allowIPs L en [a, b, c, d] s = Some ?s"
    using a by (simp add: allowIPs_def AddrFromSlice_def AddrFrom4_def)
  obtain n ns where q: "dl_Question D (qy_msg q) = n # ns"
    using assms(4) by (cases "dl_Question D (qy_msg q)") (simp_all add: query_allowed_def)
  then have al: "Allow (EvaluateHost uni (px_Allowed p) (px_Denied p) (trim_suffix n ''.''))"
    using assms(4) by (simp add: query_allowed_def)
  obtain fs' where r: "serve_all uni D marshal L en l p [q] (s, fs) = Some (?s, fs')"
    using q al i assms(5-7)
    by (cases "px_OnEvent p") (simp_all add: ServeDNS_def handle_def Let_def forward_def on_event_def)
  have fl: "flow_allowed L (objs ?s) f \<longleftrightarrow> addr_admits en (Addr4 ?w) f \<or> flow_allowed L (objs s) f" for f
    by (rule lpm_trie.AllowIP_flow [OF assms(1) a assms(2)])
  have "audit_mode (objs ?s) = 0" using assms(3) by (simp add: audit_mode_def)
  then have "map_option fst (censor_egress L en h skb (objs ?s)) = Some TC_ACT_OK \<longleftrightarrow>
      (case flow_of en skb of None \<Rightarrow> True | Some f \<Rightarrow> addr_admits en (Addr4 ?w) f \<or> flow_allowed L (objs s) f)"
    by (simp only: egress_flow flow_step_def flow_verdict_def fl option.map)
      (simp split: option.split)
  with r show ?thesis
    by (intro exI [of _ ?s] exI [of _ fs'])
      (cases en; auto simp: addr_admits_def codec_simps split: option.splits)
qed

definition query1 :: "toy query" where
  "query1 = query0\<lparr>qy_msg := ([''github.com.''], [], 0)\<rparr>"

theorem dns_jit_allow_witness:
  "\<exists>s' fs'. serve_all id toy_lib plain_marshal ref_ops LittleEndian log0 proxy0 [query1] (fw0, fs0) = Some (s', fs')
     \<and> map_option fst (censor_egress ref_ops LittleEndian hooks0 (pkt4 1 2 3 4) (objs s')) \<noteq> Some TC_ACT_OK"
proof -
  have al: "query_allowed id toy_lib proxy0 (qy_msg query1)" by code_simp
  obtain m where m: "lpm_update ref_ops (allow_v4 (objs fw0)) 32 (mem32 LittleEndian (join_be32 1 2 3 4)) 1 = Inr m"
    by (simp add: fw0_def ref_ops_def ref_update_def ref_boot_def Let_def)
  have none: "\<not> flow_allowed ref_ops (objs fw0) f" for f
    by (simp add: flow_allowed_def fw0_def ref_boot_def ref_ops_def ref_lookup_def)
  have e: "loaded fw0" "audit_mode (objs fw0) = 0" "px_OnAllow proxy0"
    "qy_exchange query1 (qy_msg query1) (px_Upstream proxy0) = Inr ([''github.com.''], [RR_A [1, 2, 3, 4]], 0)"
    "dl_Answer toy_lib ([''github.com.''], [RR_A [1, 2, 3, 4]], 0) = [RR_A [1, 2, 3, 4]]"
    by (simp_all add: fw0_def ref_boot_def audit_mode_def array_lookup_def proxy0_def query1_def query0_def toy_lib_def)
  from dns_jit_allow [OF ref_lpm_trie e(1,2) al e(3-5) m, of plain_marshal log0 fs0 hooks0 "pkt4 1 2 3 4"]
  show ?thesis by (simp add: pkt4_flow none)
qed

end
