(* ===== verification/Prepopulate.thy ===== *)
theory Prepopulate
  imports Enforcement
begin

text \<open>
  Seeding the allow maps, \<^verbatim>\<open>internal/prepopulate/prepopulate.go\<close>: from the remote endpoints in
  \<^verbatim>\<open>/proc/net\<close> and from the addresses of the allowed hosts. The callback \<^verbatim>\<open>AllowFunc\<close> is a parameter over
  any state, and so are the contents of \<^verbatim>\<open>/proc\<close> and the resolver.
\<close>

section \<open>Scanning text\<close>

text \<open>\<^verbatim>\<open>strconv.ParseUint(s, 16, 32)\<close>.\<close>

definition hex_val :: "char \<Rightarrow> nat option" where
  "hex_val c = (let n = of_char c :: nat in
     if 48 \<le> n \<and> n \<le> 57 then Some (n - 48)
     else if 65 \<le> n \<and> n \<le> 70 then Some (n - 55)
     else if 97 \<le> n \<and> n \<le> 102 then Some (n - 87)
     else None)"

fun hex_fold :: "nat \<Rightarrow> string \<Rightarrow> nat option" where
  "hex_fold acc [] = Some acc"
| "hex_fold acc (c # cs) = (case hex_val c of None \<Rightarrow> None | Some d \<Rightarrow> hex_fold (acc * 16 + d) cs)"

definition ParseUint16_32 :: "string \<Rightarrow> string + u32" where
  "ParseUint16_32 s =
     (if s = [] then Inl ''invalid syntax''
      else case hex_fold 0 s of
        None \<Rightarrow> Inl ''invalid syntax''
      | Some n \<Rightarrow> if n < 2 ^ 32 then Inr (of_nat n) else Inl ''value out of range'')"

text \<open>\<^verbatim>\<open>bufio.Scanner\<close> on lines: up to a line of 64 KiB, which is an error; a carriage return before the
  newline is dropped, and so is a last empty line.\<close>

definition chomp_cr :: "string \<Rightarrow> string" where
  "chomp_cr l = (if l \<noteq> [] \<and> last l = CHR 0x0D then butlast l else l)"

definition raw_lines :: "string \<Rightarrow> string list" where
  "raw_lines s = (let ls = split_on newline s in if last ls = [] then butlast ls else ls)"

definition scan_lines :: "string \<Rightarrow> string list \<times> string option" where
  "scan_lines s =
     (let ls = raw_lines s; ok = takeWhile (\<lambda>l. length l < 65536) ls in
      (map chomp_cr ok, if length ok < length ls then Some ''bufio.Scanner: token too long'' else None))"

text \<open>\<^verbatim>\<open>strings.Fields\<close>; the accumulator is the field being read.\<close>

function fields_from :: "string \<Rightarrow> string \<Rightarrow> string list" where
  "fields_from cur s =
     (case s of
        [] \<Rightarrow> (if cur = [] then [] else [cur])
      | c # cs \<Rightarrow> (case find (\<lambda>w. w \<noteq> [] \<and> prefix w s) go_spaces of
           Some w \<Rightarrow> (if cur = [] then [] else [cur]) @ fields_from [] (drop (length w) s)
         | None \<Rightarrow> fields_from (cur @ [c]) cs))"
  by pat_completeness auto
termination
  by (relation "measure (\<lambda>(cur, s). length s)") (auto simp: find_Some_iff)

declare fields_from.simps [simp del]

definition strings_Fields :: "string \<Rightarrow> string list" where
  "strings_Fields s = fields_from [] s"

section \<open>Operations\<close>

definition parse_word :: "string \<Rightarrow> nat \<Rightarrow> string + bytes" where
  "parse_word s i = (case ParseUint16_32 (take 8 (drop (i * 8) s)) of Inl e \<Rightarrow> Inl e | Inr u \<Rightarrow> Inr (put_le32 u))"

definition parseHexIP :: "string \<Rightarrow> bool \<Rightarrow> string + Addr" where
  "parseHexIP s v6 =
     (if \<not> v6 then
        (if length s \<noteq> 8 then Inl ''bad v4 hex''
         else case ParseUint16_32 s of
           Inl e \<Rightarrow> Inl e
         | Inr u \<Rightarrow> (case AddrFrom4 (put_le32 u) of None \<Rightarrow> Inr AddrZero | Some a \<Rightarrow> Inr a))
      else if length s \<noteq> 32 then Inl ''bad v6 hex''
      else (case parse_word s 0 of Inl e \<Rightarrow> Inl e | Inr b0 \<Rightarrow>
           (case parse_word s 1 of Inl e \<Rightarrow> Inl e | Inr b1 \<Rightarrow>
           (case parse_word s 2 of Inl e \<Rightarrow> Inl e | Inr b2 \<Rightarrow>
           (case parse_word s 3 of Inl e \<Rightarrow> Inl e | Inr b3 \<Rightarrow>
             (case AddrFrom16 (b0 @ b1 @ b2 @ b3) of None \<Rightarrow> Inr AddrZero | Some a \<Rightarrow> Inr a))))))"

text \<open>The address a row of the table contributes, if any.\<close>

definition row_addr :: "bool \<Rightarrow> string \<Rightarrow> Addr option" where
  "row_addr v6 line =
     (let fields = strings_Fields line in
      if length fields < 4 then None
      else let parts = split_on CHR '':'' (fields ! 2) in
      if length parts \<noteq> 2 then None
      else case parseHexIP (parts ! 0) v6 of
        Inl e \<Rightarrow> None
      | Inr addr \<Rightarrow> if \<not> IsValid addr \<or> IsUnspecified addr \<or> IsLoopback addr then None else Some addr)"

type_synonym 's allow_fn = "Addr \<Rightarrow> 's \<Rightarrow> ('s \<times> string option) option"

fun seed_rows :: "bool \<Rightarrow> 's allow_fn \<Rightarrow> string list \<Rightarrow> 's \<Rightarrow> nat \<Rightarrow> ('s \<times> nat) option" where
  "seed_rows v6 allow [] s n = Some (s, n)"
| "seed_rows v6 allow (line # lines) s n =
     (case row_addr v6 line of
        None \<Rightarrow> seed_rows v6 allow lines s n
      | Some addr \<Rightarrow> do {
          (s', err) \<leftarrow> allow addr s;
          seed_rows v6 allow lines s' (if err = None then Suc n else n)
        })"

text \<open>What opening a file of \<^verbatim>\<open>/proc\<close> gives.\<close>

datatype proc_file = NotExist | OpenError string | Content string

datatype proc_error = ENotExist | EOther string

definition seedProcNet :: "(string \<Rightarrow> proc_file) \<Rightarrow> string \<Rightarrow> 's allow_fn \<Rightarrow> 's \<Rightarrow> ('s \<times> nat \<times> proc_error option) option" where
  "seedProcNet proc path allow s =
     (case proc path of
        NotExist \<Rightarrow> Some (s, 0, Some ENotExist)
      | OpenError e \<Rightarrow> Some (s, 0, Some (EOther e))
      | Content c \<Rightarrow>
         (let (lines, err) = scan_lines c; v6 = suffix ''6'' path in
          case lines of
            [] \<Rightarrow> Some (s, 0, map_option EOther err)
          | header # rows \<Rightarrow> do { (s', n) \<leftarrow> seed_rows v6 allow rows s 0; Some (s', n, map_option EOther err) }))"

definition proc_paths :: "string list" where
  "proc_paths = [''/proc/net/tcp'', ''/proc/net/tcp6'', ''/proc/net/udp'', ''/proc/net/udp6'']"

fun seed_paths :: "(string \<Rightarrow> proc_file) \<Rightarrow> 's allow_fn \<Rightarrow> string list \<Rightarrow> 's \<Rightarrow> nat \<Rightarrow> proc_error option \<Rightarrow>
    ('s \<times> nat \<times> proc_error option) option" where
  "seed_paths proc allow [] s n err = Some (s, n, err)"
| "seed_paths proc allow (path # paths) s n err = do {
     (s', c, e) \<leftarrow> seedProcNet proc path allow s;
     seed_paths proc allow paths s' (n + c) (if e \<noteq> None \<and> e \<noteq> Some ENotExist \<and> err = None then e else err)
   }"

definition ExistingConnections :: "(string \<Rightarrow> proc_file) \<Rightarrow> 's allow_fn \<Rightarrow> 's \<Rightarrow> ('s \<times> nat \<times> proc_error option) option" where
  "ExistingConnections proc allow s = seed_paths proc allow proc_paths s 0 None"

fun allow_addrs :: "'s allow_fn \<Rightarrow> bytes list \<Rightarrow> 's \<Rightarrow> nat \<Rightarrow> ('s \<times> nat) option" where
  "allow_addrs allow [] s n = Some (s, n)"
| "allow_addrs allow (ip # ips) s n =
     (case AddrFromSlice ip of
        None \<Rightarrow> allow_addrs allow ips s n
      | Some addr \<Rightarrow> do {
          (s', err) \<leftarrow> allow (Unmap addr) s;
          allow_addrs allow ips s' (if err = None then Suc n else n)
        })"

fun ResolveHosts :: "(string \<Rightarrow> string + bytes list) \<Rightarrow> string list \<Rightarrow> 's allow_fn \<Rightarrow> 's \<Rightarrow> nat \<Rightarrow> ('s \<times> nat) option" where
  "ResolveHosts lookup [] allow s n = Some (s, n)"
| "ResolveHosts lookup (h # hosts) allow s n =
     (if contains_any h ''*'' then ResolveHosts lookup hosts allow s n
      else case lookup h of
        Inl e \<Rightarrow> ResolveHosts lookup hosts allow s n
      | Inr ips \<Rightarrow> do {
          (s', n') \<leftarrow> allow_addrs allow ips s n;
          ResolveHosts lookup hosts allow s' n'
        })"

definition Run :: "(string \<Rightarrow> proc_file) \<Rightarrow> (string \<Rightarrow> string + bytes list) \<Rightarrow> string list \<Rightarrow> 's allow_fn \<Rightarrow> 's \<Rightarrow>
    ('s \<times> nat \<times> nat) option" where
  "Run proc lookup hosts allow s = do {
     (s1, conns, _) \<leftarrow> ExistingConnections proc allow s;
     (s2, resolved) \<leftarrow> ResolveHosts lookup hosts allow s1 0;
     Some (s2, conns, resolved)
   }"

section \<open>Which addresses are inserted\<close>

text \<open>All insertions are one sequence: the rows of the four tables in order, then the hosts' addresses.\<close>

fun allow_each :: "'s allow_fn \<Rightarrow> Addr list \<Rightarrow> 's \<Rightarrow> nat \<Rightarrow> ('s \<times> nat) option" where
  "allow_each allow [] s n = Some (s, n)"
| "allow_each allow (a # as) s n = do {
     (s', err) \<leftarrow> allow a s;
     allow_each allow as s' (if err = None then Suc n else n)
   }"

definition table_addrs :: "(string \<Rightarrow> proc_file) \<Rightarrow> string \<Rightarrow> Addr list" where
  "table_addrs proc path = (case proc path of
     Content c \<Rightarrow> List.map_filter (row_addr (suffix ''6'' path)) (drop 1 (fst (scan_lines c))) | _ \<Rightarrow> [])"

definition host_addrs :: "(string \<Rightarrow> string + bytes list) \<Rightarrow> string \<Rightarrow> Addr list" where
  "host_addrs lookup h = (if contains_any h ''*'' then []
     else case lookup h of Inl e \<Rightarrow> [] | Inr ips \<Rightarrow> List.map_filter (map_option Unmap \<circ> AddrFromSlice) ips)"

lemma allow_each_append:
  "allow_each allow (as @ bs) s n = do { (s', n') \<leftarrow> allow_each allow as s n; allow_each allow bs s' n' }"
  by (induction as arbitrary: s n) (auto simp: split_def)

lemma allow_each_count:
  "allow_each allow as s n = do { (s', m) \<leftarrow> allow_each allow as s 0; Some (s', n + m) }"
proof (induction as arbitrary: s n)
  case (Cons a as)
  show ?case
  proof (cases "allow a s")
    case (Some r)
    obtain s' err where r: "r = (s', err)" by (cases r)
    show ?thesis
      using Cons [of s' "Suc n"] Cons [of s' n] Cons [of s' "Suc 0"]
      by (cases "allow_each allow as s' 0") (auto simp: Some r)
  qed simp
qed simp

lemma seed_rows_each:
  "seed_rows v6 allow rows s n = allow_each allow (List.map_filter (row_addr v6) rows) s n"
  by (induction rows arbitrary: s n) (auto simp: map_filter_simps split_def cong: Option.bind_cong split: option.splits)

lemma allow_addrs_each:
  "allow_addrs allow ips s n = allow_each allow (List.map_filter (map_option Unmap \<circ> AddrFromSlice) ips) s n"
  by (induction ips arbitrary: s n) (auto simp: map_filter_simps split_def cong: Option.bind_cong split: option.splits)

lemma ResolveHosts_each:
  "ResolveHosts lookup hosts allow s n = allow_each allow (concat (map (host_addrs lookup) hosts)) s n"
  by (induction hosts arbitrary: s n)
    (auto simp: host_addrs_def allow_addrs_each allow_each_append split_def cong: Option.bind_cong split: sum.splits)

lemma seedProcNet_each:
  "map_option (\<lambda>(s', n, e). (s', n)) (seedProcNet proc path allow s) = allow_each allow (table_addrs proc path) s 0"
  by (cases "proc path") (auto simp: seedProcNet_def table_addrs_def seed_rows_each drop_Suc map_filter_simps Let_def
      split: prod.splits list.splits bind_splits option.splits)

definition seeded :: "(string \<Rightarrow> proc_file) \<Rightarrow> (string \<Rightarrow> string + bytes list) \<Rightarrow> string list \<Rightarrow> Addr list" where
  "seeded proc lookup hosts = concat (map (table_addrs proc) proc_paths) @ concat (map (host_addrs lookup) hosts)"

lemma seed_paths_each:
  "map_option (\<lambda>(s', n, e). (s', n)) (seed_paths proc allow paths s n err)
   = allow_each allow (concat (map (table_addrs proc) paths)) s n"
proof (induction paths arbitrary: s n err)
  case (Cons path paths)
  show ?case
  proof (cases "seedProcNet proc path allow s")
    case None
    with seedProcNet_each [of proc path allow s] show ?thesis
      by (simp add: allow_each_append allow_each_count [of allow "table_addrs proc path" s n])
  next
    case (Some r)
    obtain s1 c e where r: "r = (s1, c, e)" by (cases r)
    with Some seedProcNet_each [of proc path allow s]
    have "allow_each allow (table_addrs proc path) s 0 = Some (s1, c)" by simp
    then show ?thesis
      using Cons [of s1 "n + c"]
      by (simp add: Some r allow_each_append allow_each_count [of allow "table_addrs proc path" s n])
  qed
qed simp

lemma Run_each:
  "map_option (\<lambda>(s', c, r). (s', c + r)) (Run proc lookup hosts allow s) = allow_each allow (seeded proc lookup hosts) s 0"
proof (cases "seed_paths proc allow proc_paths s 0 None")
  case None
  with seed_paths_each [of proc allow proc_paths s 0 None] show ?thesis
    by (simp add: Run_def ExistingConnections_def seeded_def allow_each_append)
next
  case (Some r)
  obtain s1 c e where r: "r = (s1, c, e)" by (cases r)
  with Some seed_paths_each [of proc allow proc_paths s 0 None]
  have "allow_each allow (concat (map (table_addrs proc) proc_paths)) s 0 = Some (s1, c)" by simp
  then show ?thesis
    by (simp add: Run_def ExistingConnections_def Some r seeded_def allow_each_append ResolveHosts_each
        allow_each_count [of allow _ s1 c] split_def map_option_bind comp_def)
qed

context lpm_trie
begin

lemma allow_each_sound:
  "allow_each (AllowIP L en) as s n = Some (s', m) \<Longrightarrow> flow_allowed L (objs s') f \<Longrightarrow>
   flow_allowed L (objs s) f \<or> (\<exists>a \<in> set as. addr_admits en a f)"
proof (induction as arbitrary: s n)
  case (Cons a as)
  from Cons.prems(1) obtain s1 err where a: "AllowIP L en a s = Some (s1, err)"
    "allow_each (AllowIP L en) as s1 (if err = None then Suc n else n) = Some (s', m)"
    by (auto split: bind_splits)
  from Cons.IH [OF a(2) Cons.prems(2)] AllowIP_sound [OF a(1)] show ?case by auto
qed simp

end

lemma allow_each_total: "\<exists>s' m. allow_each (AllowIP L en) as s n = Some (s', m) \<and> m \<le> n + length as"
proof (induction as arbitrary: s n)
  case (Cons a as)
  obtain s1 err where a: "AllowIP L en a s = Some (s1, err)" by (fastforce simp: AllowIP_cases)
  obtain s' m where r: "allow_each (AllowIP L en) as s1 (if err = None then Suc n else n) = Some (s', m)"
    "m \<le> (if err = None then Suc n else n) + length as"
    using Cons [of s1 "if err = None then Suc n else n"] by blast
  then show ?case by (intro exI [of _ s'] exI [of _ m]) (auto simp: a split: if_splits)
qed simp

section \<open>Properties\<close>


text \<open>A table with one connection, to 1.2.3.4:443.\<close>

definition proc0 :: "string \<Rightarrow> proc_file" where
  "proc0 path = (if path = ''/proc/net/tcp''
     then Content (''header'' @ [newline] @ ''0: 0100007F:1F90 04030201:01BB 01'' @ [newline]) else NotExist)"

lemma no_space:
  assumes "32 < (of_char c :: nat)" "(of_char c :: nat) < 128"
  shows "find (\<lambda>w. w \<noteq> [] \<and> prefix w (c # cs)) go_spaces = None"
proof -
  have ne: "n < 256 \<Longrightarrow> n \<le> 32 \<or> 128 \<le> n \<Longrightarrow> (char_of n = c) = False" for n :: nat
    using assms by (auto simp: take_bit_eq_mod)
  show ?thesis by (simp add: go_spaces_def ne)
qed

lemma fields_from_steps:
  "fields_from cur [] = (if cur = [] then [] else [cur])"
  "fields_from cur (CHR '' '' # cs) = (if cur = [] then [] else [cur]) @ fields_from [] cs"
  "32 < (of_char c :: nat) \<Longrightarrow> (of_char c :: nat) < 128 \<Longrightarrow> fields_from cur (c # cs) = fields_from (cur @ [c]) cs"
proof -
  have "find (\<lambda>w. w \<noteq> [] \<and> prefix w (CHR '' '' # cs)) go_spaces = Some '' ''"
    by code_simp
  then show "fields_from cur (CHR '' '' # cs) = (if cur = [] then [] else [cur]) @ fields_from [] cs"
    by (subst fields_from.simps) simp
qed (subst fields_from.simps, simp add: no_space)+

lemma fields0: "strings_Fields ''0: 0100007F:1F90 04030201:01BB 01'' = [''0:'', ''0100007F:1F90'', ''04030201:01BB'', ''01'']"
  by (simp add: strings_Fields_def fields_from_steps)

lemma scan0: "scan_lines (''header'' @ [newline] @ ''0: 0100007F:1F90 04030201:01BB 01'' @ [newline])
    = ([''header'', ''0: 0100007F:1F90 04030201:01BB 01''], None)"
  by (simp add: scan_lines_def raw_lines_def newline_def chomp_cr_def)

lemma parse0: "parseHexIP ''04030201'' False = Inr (Addr4 0x01020304)"
  by (simp add: parseHexIP_def ParseUint16_32_def hex_val_def put_le32_def put_be32_def AddrFrom4_def join_be32_def
      of_char_def)

lemma row0: "row_addr False ''0: 0100007F:1F90 04030201:01BB 01'' = Some (Addr4 0x01020304)"
  by (simp add: row_addr_def fields0 parse0)

lemma seeded0: "seeded proc0 (\<lambda>h. Inl []) [''github.com''] = [Addr4 0x01020304]"
  by (simp add: seeded_def proc_paths_def table_addrs_def proc0_def scan0 [simplified] row0 suffix_single map_filter_simps host_addrs_def)


text \<open>How the kernel prints an address word: eight upper-case hexadecimal digits.\<close>

definition HEX_digit :: "nat \<Rightarrow> char" where
  "HEX_digit d = char_of (if d < 10 then 48 + d else 55 + d)"

fun HEX_fixed :: "nat \<Rightarrow> nat \<Rightarrow> string" where
  "HEX_fixed 0 n = []"
| "HEX_fixed (Suc k) n = HEX_fixed k (n div 16) @ [HEX_digit (n mod 16)]"

definition proc_hex :: "u32 \<Rightarrow> string" where
  "proc_hex w = HEX_fixed 8 (unat w)"

lemma hex_val_digit: "d < 16 \<Longrightarrow> hex_val (HEX_digit d) = Some d"
  by (simp add: hex_val_def HEX_digit_def take_bit_eq_mod)

lemma hex_fold_append:
  "hex_fold acc (xs @ ys) = do { v \<leftarrow> hex_fold acc xs; hex_fold v ys }"
  by (induction xs arbitrary: acc) (auto split: option.splits)

lemma length_HEX_fixed [simp]: "length (HEX_fixed k n) = k"
  by (induction k arbitrary: n) simp_all

lemma hex_fold_HEX: "n < 16 ^ k \<Longrightarrow> hex_fold 0 (HEX_fixed k n) = Some n"
proof (induction k arbitrary: n)
  case (Suc k)
  then have "n div 16 < 16 ^ k" by (simp add: less_mult_imp_div_less mult.commute)
  with Suc.IH show ?case by (simp add: hex_fold_append hex_val_digit)
qed simp

lemma ParseUint_proc_hex: "ParseUint16_32 (proc_hex w) = Inr w"
proof -
  have "unat w < 2 ^ 32" using unsigned_less [of w] by simp
  moreover have "HEX_fixed 8 (unat w) \<noteq> []" by (metis length_HEX_fixed list.size(3) zero_neq_numeral)
  ultimately show ?thesis
    using hex_fold_HEX [of "unat w" 8] by (auto simp: ParseUint16_32_def proc_hex_def)
qed

lemma parse_word_proc_hex:
  assumes "length a = i * 8"
  shows "parse_word (a @ proc_hex w @ b) i = Inr (put_le32 w)"
  using assms ParseUint_proc_hex [of w] by (simp add: parse_word_def proc_hex_def)

lemma parseHexIP_row4:
  "\<exists>v. load32 LittleEndian (put_be32 w) = Some v \<and> parseHexIP (proc_hex v) False = Inr (Addr4 w)"
proof -
  obtain v where v: "load32 LittleEndian (put_be32 w) = Some v" "mem32 LittleEndian v = put_be32 w"
    by (rule load32_Some [of "put_be32 w" LittleEndian]) simp
  then have "AddrFrom4 (put_le32 v) = Some (Addr4 w)" by (simp add: AddrFrom4_def codec_simps)
  with v(1) ParseUint_proc_hex [of v] show ?thesis
    by (simp add: parseHexIP_def proc_hex_def)
qed

text \<open>The text of an IPv6 address in the table.\<close>

definition row6 :: "Addr \<Rightarrow> string" where
  "row6 a = concat (map proc_hex (words_of LittleEndian (As16 a)))"

lemma parseHexIP_row6: "parseHexIP (row6 (Addr6 w0 w1 w2 w3)) True = Inr (Addr6 w0 w1 w2 w3)"
proof -
  have word: "\<exists>v. words_of LittleEndian (put_be32 u @ bs) = v # words_of LittleEndian bs \<and> put_le32 v = put_be32 u" for u bs
  proof -
    have l: "length (put_be32 u) = 4" by simp
    obtain v where v: "load32 LittleEndian (put_be32 u) = Some v" "mem32 LittleEndian v = put_be32 u"
      by (rule load32_Some [OF l])
    with words_of_append4 [OF l v(1)] show ?thesis by simp
  qed
  obtain v0 v1 v2 v3 where v: "words_of LittleEndian (As16 (Addr6 w0 w1 w2 w3)) = [v0, v1, v2, v3]"
    "put_le32 v0 = put_be32 w0" "put_le32 v1 = put_be32 w1" "put_le32 v2 = put_be32 w2" "put_le32 v3 = put_be32 w3"
    using word [of w0 "put_be32 w1 @ put_be32 w2 @ put_be32 w3"] word [of w1 "put_be32 w2 @ put_be32 w3"]
      word [of w2 "put_be32 w3"] word [of w3 "[]"] by auto
  let ?s = "concat (map proc_hex [v0, v1, v2, v3])"
  have "parse_word ?s 0 = Inr (put_be32 w0)" "parse_word ?s 1 = Inr (put_be32 w1)"
    "parse_word ?s 2 = Inr (put_be32 w2)" "parse_word ?s 3 = Inr (put_be32 w3)"
    using parse_word_proc_hex [of "[]" 0 v0 "proc_hex v1 @ proc_hex v2 @ proc_hex v3"]
      parse_word_proc_hex [of "proc_hex v0" 1 v1 "proc_hex v2 @ proc_hex v3"]
      parse_word_proc_hex [of "proc_hex v0 @ proc_hex v1" 2 v2 "proc_hex v3"]
      parse_word_proc_hex [of "proc_hex v0 @ proc_hex v1 @ proc_hex v2" 3 v3 "[]"] v(2-)
    by (simp_all add: proc_hex_def)
  moreover have "length ?s = 32" by (simp add: proc_hex_def)
  moreover have "AddrFrom16 (put_be32 w0 @ put_be32 w1 @ put_be32 w2 @ put_be32 w3) = Some (Addr6 w0 w1 w2 w3)"
    using AddrFrom16_As16 [of "Addr6 w0 w1 w2 w3"] by simp
  ultimately show ?thesis
    unfolding row6_def v(1) by (simp only: parseHexIP_def) simp
qed

text \<open>Reading back the kernel's tables. The text the kernel of a little-endian host prints for an address
  (each 32-bit word of its network-order bytes, loaded as a native integer, in hexadecimal) is parsed to
  exactly that address, for both families.\<close>

theorem parseHexIP_roundtrip:
  "(\<exists>v. load32 LittleEndian (put_be32 w) = Some v \<and> parseHexIP (proc_hex v) False = Inr (Addr4 w))
   \<and> parseHexIP (row6 (Addr6 w0 w1 w2 w3)) True = Inr (Addr6 w0 w1 w2 w3)"
  by (intro conjI parseHexIP_row4 parseHexIP_row6)

text \<open>Peers of dual-stack sockets are seeded in vain: the entry inserted for a row that holds the
  IPv4-mapped address \<^verbatim>\<open>::ffff:a.b.c.d\<close> (which, unlike a resolved address, is not unmapped) admits no IPv4
  flow that was not allowed before.\<close>

theorem mapped_peer_not_admitted:
  assumes "lpm_trie L" "parseHexIP (row6 (Addr6 0 0 0xffff w)) True = Inr addr"
    and "AllowIP L en addr s = Some (s', err)" "\<not> f_v6 f"
  shows "flow_allowed L (objs s') f \<longleftrightarrow> flow_allowed L (objs s) f"
proof
  have addr: "addr = Addr6 0 0 0xffff w" using assms(2) parseHexIP_row6 [of 0 0 "0xffff" w] by simp
  assume "flow_allowed L (objs s') f"
  with lpm_trie.AllowIP_sound [OF assms(1,3), of f] assms(4) show "flow_allowed L (objs s) f"
    by (simp add: addr_admits_def addr)
next
  assume a: "flow_allowed L (objs s) f"
  show "flow_allowed L (objs s') f"
  proof (cases "loaded s \<and> err = None")
    case True
    with lpm_trie.AllowIP_flow [OF assms(1), of en _ s s' f] assms(3) a show ?thesis by simp
  next
    case False
    with assms(3) lpm_trie.AllowIP_err_same [OF assms(1)] lpm_trie.AllowIP_idle_same [OF assms(1)]
    have "s' = s" by (cases err) auto
    with a show ?thesis by simp
  qed
qed

theorem mapped_peer_not_admitted_witness:
  "\<exists>s' err. AllowIP ref_ops LittleEndian (Addr6 0 0 0xffff 0x01020304) fw0 = Some (s', err)
     \<and> \<not> flow_allowed ref_ops (objs s') \<lparr>f_v6 = False, f_dst = [1, 2, 3, 4], f_dport = 443, f_proto = 6\<rparr>"
proof -
  obtain s' err where r: "AllowIP ref_ops LittleEndian (Addr6 0 0 0xffff 0x01020304) fw0 = Some (s', err)"
    by (fastforce simp: AllowIP_cases)
  have none: "\<not> flow_allowed ref_ops (objs fw0) f" for f
    by (simp add: flow_allowed_def fw0_def ref_boot_def ref_ops_def ref_lookup_def)
  from mapped_peer_not_admitted [OF ref_lpm_trie parseHexIP_row6 r, of "\<lparr>f_v6 = False, f_dst = [1, 2, 3, 4], f_dport = 443, f_proto = 6\<rparr>"]
  show ?thesis using r none by auto
qed

end
