(* ===== verification/GithubHosts.thy ===== *)
theory GithubHosts
  imports HostPolicy
begin

text \<open>
  The built-in allow list of \<^verbatim>\<open>internal/githubhosts/hosts.go\<close> and its merge with the policy's list.
\<close>

section \<open>Operations\<close>

definition DefaultHosts :: "string list" where
  "DefaultHosts =
     [''github.com'',
      ''api.github.com'',
      ''*.github.com'',
      ''**.githubusercontent.com'',
      ''**.githubassets.com'',
      ''ghcr.io'',
      ''**.docker.pkg.github.com'',
      ''objects.githubusercontent.com'',
      ''release-assets.githubusercontent.com'',
      ''codeload.github.com'',
      ''results-receiver.actions.githubusercontent.com'',
      ''pipelines.actions.githubusercontent.com'']"

text \<open>The loop of \<^verbatim>\<open>MergeAllowed\<close>, with the map \<^verbatim>\<open>seen\<close> as the set of its keys.\<close>

fun mergeLoop :: "string set \<Rightarrow> string list \<Rightarrow> string list \<Rightarrow> string list" where
  "mergeLoop seen out [] = out"
| "mergeLoop seen out (h # hs) =
     (if h \<in> seen then mergeLoop seen out hs
      else mergeLoop (insert h seen) (out @ [h]) hs)"

definition MergeAllowed :: "bool \<Rightarrow> string list \<Rightarrow> string list" where
  "MergeAllowed auto allowed =
     (if \<not> auto then allowed else mergeLoop {} [] (DefaultHosts @ allowed))"

section \<open>Properties\<close>

lemma mergeLoop_first_occ:
  "mergeLoop seen out hs = out @ first_occ (filter (\<lambda>h. h \<notin> seen) hs)"
proof (induction hs arbitrary: seen out)
  case (Cons h hs)
  have "filter (\<lambda>y. y \<noteq> h) (filter (\<lambda>h. h \<notin> seen) hs) = filter (\<lambda>y. y \<notin> insert h seen) hs"
    by (auto intro: filter_cong)
  with Cons show ?case by simp
qed simp

lemma distinct_DefaultHosts: "distinct DefaultHosts"
  by (simp add: DefaultHosts_def)

lemma set_MergeAllowed:
  "set (MergeAllowed auto allowed) = (if auto then set DefaultHosts else {}) \<union> set allowed"
  by (simp add: MergeAllowed_def mergeLoop_first_occ)

text \<open>With the GitHub preset the merged list is the built-in list, untouched and in order, followed
  by the policy's other hosts, each at its first occurrence, in the policy's order; without the preset
  it is the policy's list as given, duplicates included.\<close>

theorem MergeAllowed_spec:
  "MergeAllowed auto allowed =
     (if auto then DefaultHosts @ first_occ (filter (\<lambda>h. h \<notin> set DefaultHosts) allowed) else allowed)"
  by (simp add: MergeAllowed_def mergeLoop_first_occ first_occ_append first_occ_distinct
      distinct_DefaultHosts)

text \<open>Merging and de-duplicating never changes a verdict: a host is judged as if the built-in list
  were simply put in front of the policy's list, and the deny list still wins over the built-in hosts.\<close>

theorem MergeAllowed_verdict:
  "EvaluateHost uni (MergeAllowed auto allowed) denied host =
   EvaluateHost uni ((if auto then DefaultHosts else []) @ allowed) denied host"
proof -
  have "list_ex P (MergeAllowed auto allowed) = list_ex P ((if auto then DefaultHosts else []) @ allowed)" for P
    by (auto simp: list_ex_iff set_MergeAllowed)
  then show ?thesis by (simp add: EvaluateHost_def)
qed

end
