(* ===== verification/Retry.thy ===== *)
theory Retry
  imports Prelude
begin

text \<open>
  Failure classes and the retry loop of \<^verbatim>\<open>internal/api/retry.go\<close>. An error is its chain of wrapped errors;
  durations are nanoseconds in signed 64-bit words, as \<^verbatim>\<open>time.Duration\<close> computes them.
\<close>

section \<open>Classes\<close>

datatype FailureClass = FailureNone | FailureTransport | FailureServer | FailureClient | FailureAuth | FailureNotFound

definition Retryable :: "FailureClass \<Rightarrow> bool" where
  "Retryable c = (c = FailureTransport \<or> c = FailureServer)"

definition ClassifyStatus :: "int \<Rightarrow> FailureClass" where
  "ClassifyStatus code =
     (if code \<in> {200, 204, 201, 202} then FailureNone
      else if code \<in> {401, 403} then FailureAuth
      else if code = 404 then FailureNotFound
      else if code \<in> {429, 408} then FailureServer
      else if code \<ge> 500 then FailureServer
      else if code \<ge> 400 then FailureClient
      else FailureServer)"

text \<open>Errors: sentinels of the libraries, plain errors, wrappers (with a mark for those that implement
  \<^verbatim>\<open>net.Error\<close>), and the package's \<^verbatim>\<open>APIError\<close> with its class and status.\<close>

datatype error =
    Plain string
  | Canceled
  | DeadlineExceeded
  | EOF
  | UnexpectedEOF
  | Wrap bool string error
  | APIError FailureClass int error

text \<open>\<^verbatim>\<open>errors.As\<close> for \<^verbatim>\<open>*APIError\<close>: the first one of the chain; \<^verbatim>\<open>errors.Is\<close> for a sentinel.\<close>

fun as_api :: "error \<Rightarrow> FailureClass option" where
  "as_api (APIError c s e) = Some c"
| "as_api (Wrap n m e) = as_api e"
| "as_api _ = None"

fun is_err :: "error \<Rightarrow> error \<Rightarrow> bool" where
  "is_err t (APIError c s e) = (t = APIError c s e \<or> is_err t e)"
| "is_err t (Wrap n m e) = (t = Wrap n m e \<or> is_err t e)"
| "is_err t e = (t = e)"

fun as_net :: "error \<Rightarrow> bool" where
  "as_net (Wrap n m e) = (n \<or> as_net e)"
| "as_net (APIError c s e) = as_net e"
| "as_net DeadlineExceeded = True"
| "as_net _ = False"

definition mapDoError :: "error option \<Rightarrow> error option" where
  "mapDoError err =
     (case err of None \<Rightarrow> None
      | Some e \<Rightarrow>
          if as_net e then Some (APIError FailureTransport 0 e)
          else if is_err EOF e \<or> is_err UnexpectedEOF e then Some (APIError FailureTransport 0 e)
          else Some (APIError FailureTransport 0 e))"

section \<open>The loop\<close>

definition Millisecond :: "64 word" where "Millisecond = 1000000"

definition TwoSeconds :: int where "TwoSeconds = 2000000000"

text \<open>The wait before attempt \<open>i\<close>, where \<open>r\<close> is the random jitter in milliseconds.\<close>

definition backoff :: "nat \<Rightarrow> nat \<Rightarrow> int" where
  "backoff i r =
     (let b = sint (100 * push_bit i 1 * Millisecond + of_nat r * Millisecond)
      in if b > TwoSeconds then TwoSeconds else b)"

text \<open>Whether an error ends the loop.\<close>

definition stops :: "error \<Rightarrow> bool" where
  "stops e = ((case as_api e of Some c \<Rightarrow> \<not> Retryable c | None \<Rightarrow> False) \<or> is_err Canceled e \<or> is_err DeadlineExceeded e)"

text \<open>The loop from attempt \<open>i\<close> with \<open>n\<close> attempts left: the operation acts on a state, \<open>ctx_done i\<close> is the context's
  error if it ends during the wait before attempt \<open>i\<close>. The result has the error, the state and the waits.\<close>

fun retry_from :: "(nat \<Rightarrow> error option) \<Rightarrow> (nat \<Rightarrow> nat) \<Rightarrow> ('s \<Rightarrow> 's \<times> error option) \<Rightarrow> nat \<Rightarrow> nat \<Rightarrow>
    error option \<Rightarrow> 's \<Rightarrow> error option \<times> 's \<times> int list" where
  "retry_from ctx_done rnd fn 0 i last_err s = (last_err, s, [])"
| "retry_from ctx_done rnd fn (Suc n) i last_err s =
     (if i > 0 \<and> ctx_done i \<noteq> None then (ctx_done i, s, [backoff i (rnd i)])
      else (case fn s of
          (s', None) \<Rightarrow> (None, s', if i > 0 then [backoff i (rnd i)] else [])
        | (s', Some e) \<Rightarrow>
            if stops e then (Some e, s', if i > 0 then [backoff i (rnd i)] else [])
            else (case retry_from ctx_done rnd fn n (Suc i) (Some e) s' of
                (r, s'', ws) \<Rightarrow> (r, s'', (if i > 0 then [backoff i (rnd i)] else []) @ ws))))"

definition withRetries :: "(nat \<Rightarrow> error option) \<Rightarrow> (nat \<Rightarrow> nat) \<Rightarrow> int \<Rightarrow> ('s \<Rightarrow> 's \<times> error option) \<Rightarrow> 's \<Rightarrow>
    error option \<times> 's \<times> int list" where
  "withRetries ctx_done rnd attempts fn s =
     (let attempts = (if attempts < 1 then 3 else attempts) in retry_from ctx_done rnd fn (nat attempts) 0 None s)"

section \<open>Facts\<close>

text \<open>The states and results of the calls made one after the other.\<close>

fun state_after :: "('s \<Rightarrow> 's \<times> error option) \<Rightarrow> 's \<Rightarrow> nat \<Rightarrow> 's" where
  "state_after fn s 0 = s"
| "state_after fn s (Suc k) = state_after fn (fst (fn s)) k"

definition result_of :: "('s \<Rightarrow> 's \<times> error option) \<Rightarrow> 's \<Rightarrow> nat \<Rightarrow> error option" where
  "result_of fn s k = snd (fn (state_after fn s k))"

definition goes_on :: "error option \<Rightarrow> bool" where
  "goes_on r = (case r of None \<Rightarrow> False | Some e \<Rightarrow> \<not> stops e)"

lemma result_of_simps [simp]:
  "result_of fn s 0 = snd (fn s)" "result_of fn s (Suc k) = result_of fn (fst (fn s)) k"
  by (simp_all add: result_of_def)

text \<open>The outcome of a loop that is not cut off: \<open>k\<close> failures that allow another attempt, then the last call.\<close>

definition retry_outcome :: "('s \<Rightarrow> 's \<times> error option) \<Rightarrow> 's \<Rightarrow> nat \<Rightarrow> error option \<times> 's \<times> int list \<Rightarrow> nat \<Rightarrow> bool" where
  "retry_outcome fn s n res k \<longleftrightarrow> k < n \<and> (\<forall>j < k. goes_on (result_of fn s j))
     \<and> fst res = result_of fn s k \<and> fst (snd res) = state_after fn s (Suc k)
     \<and> (Suc k = n \<or> \<not> goes_on (result_of fn s k))"

lemma retry_from_outcome:
  assumes "\<And>i. ctx_done i = None" "0 < n"
  shows "\<exists>k. retry_outcome fn s n (retry_from ctx_done rnd fn n i lerr s) k
     \<and> map (\<lambda>j. backoff j (rnd j)) (filter (\<lambda>j. 0 < j) [i..<Suc (i + k)]) = snd (snd (retry_from ctx_done rnd fn n i lerr s))"
  using assms(2)
proof (induction n arbitrary: i lerr s)
  case (Suc n)
  obtain s1 r where fn: "fn s = (s1, r)" by (cases "fn s")
  show ?case
  proof (cases "goes_on r \<and> 0 < n")
    case True
    then obtain e where e: "r = Some e" "\<not> stops e" by (auto simp: goes_on_def split: option.splits)
    obtain k where k: "retry_outcome fn s1 n (retry_from ctx_done rnd fn n (Suc i) (Some e) s1) k"
      "map (\<lambda>j. backoff j (rnd j)) (filter (\<lambda>j. 0 < j) [Suc i..<Suc (Suc i + k)])
       = snd (snd (retry_from ctx_done rnd fn n (Suc i) (Some e) s1))"
      using Suc.IH [where i = "Suc i" and lerr = "Some e" and s = s1] True by blast
    obtain r' s' ws where res: "retry_from ctx_done rnd fn n (Suc i) (Some e) s1 = (r', s', ws)"
      by (cases "retry_from ctx_done rnd fn n (Suc i) (Some e) s1")
    have step: "retry_from ctx_done rnd fn (Suc n) i lerr s =
        (r', s', (if 0 < i then [backoff i (rnd i)] else []) @ ws)"
      by (simp add: assms(1) fn e res)
    have up: "[i..<Suc (i + Suc k)] = i # [Suc i..<Suc (Suc i + k)]" by (simp add: upt_conv_Cons)
    have "retry_outcome fn s (Suc n) (retry_from ctx_done rnd fn (Suc n) i lerr s) (Suc k)"
      unfolding step using k(1) res fn True by (auto simp: retry_outcome_def less_Suc_eq_0_disj)
    moreover have "map (\<lambda>j. backoff j (rnd j)) (filter (\<lambda>j. 0 < j) [i..<Suc (i + Suc k)])
        = (if 0 < i then [backoff i (rnd i)] else []) @ ws"
      unfolding up using k(2) by (simp only: res filter.simps list.map append.simps snd_conv if_cancel split: if_split) simp
    ultimately show ?thesis by (intro exI [of _ "Suc k"]) (simp only: step snd_conv)
  next
    case False
    then have stop: "n = 0 \<or> \<not> goes_on r" by auto
    have u: "[i..<Suc i] = [i]" by simp
    show ?thesis
    proof (cases r)
      case None
      with fn assms(1) show ?thesis
        by (intro exI [of _ 0]) (auto simp: retry_outcome_def goes_on_def u)
    next
      case (Some e)
      with fn assms(1) stop show ?thesis
        by (intro exI [of _ 0]) (auto simp: retry_outcome_def goes_on_def u)
    qed
  qed
qed simp

section \<open>Properties\<close>

definition max_calls :: "int \<Rightarrow> nat" where
  "max_calls attempts = nat (if attempts < 1 then 3 else attempts)"

text \<open>C30: The retry loop. With a context that does not end, the operation is called at least once and at most
  the configured number of times (three when that is below one); every call but the last failed with
  an error that permits another attempt; the loop ends at the first success, at the first error that
  does not (a client, authorization or not-found error, a cancellation), or with the attempts used up; the last
  call's result is returned, and one wait precedes each further attempt.\<close>

theorem withRetries_spec:
  assumes "\<forall>i. ctx_done i = None"
  shows "\<exists>k. retry_outcome fn s (max_calls attempts) (withRetries ctx_done rnd attempts fn s) k
     \<and> snd (snd (withRetries ctx_done rnd attempts fn s)) = map (\<lambda>j. backoff j (rnd j)) [1..<Suc k]"
proof -
  let ?n = "max_calls attempts"
  have n: "0 < ?n" by (simp add: max_calls_def)
  obtain k where k: "retry_outcome fn s ?n (retry_from ctx_done rnd fn ?n 0 None s) k"
    "map (\<lambda>j. backoff j (rnd j)) (filter (\<lambda>j. 0 < j) [0..<Suc (0 + k)]) = snd (snd (retry_from ctx_done rnd fn ?n 0 None s))"
    using retry_from_outcome [of ctx_done ?n fn s rnd 0 None] assms n by blast
  have "filter (\<lambda>j. 0 < j) [0..<Suc (0 + k)] = [1..<Suc k]"
    by (simp add: upt_conv_Cons del: upt_Suc)
  moreover have "withRetries ctx_done rnd attempts fn s = retry_from ctx_done rnd fn ?n 0 None s"
    by (simp add: withRetries_def max_calls_def)
  ultimately show ?thesis using k by auto
qed

text \<open>A server that fails twice with 502 and then accepts; the state counts the requests.\<close>

definition flaky :: "nat \<Rightarrow> nat \<times> error option" where
  "flaky k = (Suc k, if k < 2 then Some (APIError (ClassifyStatus 502) 502 (Plain [])) else None)"

theorem withRetries_spec_witness:
  "fst (withRetries (\<lambda>i. None) (\<lambda>i. 0) 3 flaky 0) = None \<and> snd (snd (withRetries (\<lambda>i. None) (\<lambda>i. 0) 3 flaky 0)) = [200000000, 400000000]"
proof -
  have "\<forall>i. (\<lambda>i :: nat. None :: error option) i = None" by simp
  from withRetries_spec [OF this, of flaky 0 3 "\<lambda>i. 0"] obtain k where k:
    "retry_outcome flaky 0 (max_calls 3) (withRetries (\<lambda>i. None) (\<lambda>i. 0) 3 flaky 0) k"
    "snd (snd (withRetries (\<lambda>i. None) (\<lambda>i. 0) 3 flaky 0)) = map (\<lambda>j. backoff j 0) [1..<Suc k]" by blast
  have g: "goes_on (result_of flaky 0 0)" "goes_on (result_of flaky 0 (Suc 0))" "\<not> goes_on (result_of flaky 0 (Suc (Suc 0)))"
    by (simp_all add: flaky_def goes_on_def stops_def ClassifyStatus_def Retryable_def)
  have "k \<le> 2" using k(1) by (simp add: retry_outcome_def max_calls_def)
  moreover have "k \<noteq> 0"
  proof
    assume "k = 0"
    with k(1) g(1) show False by (simp add: retry_outcome_def max_calls_def)
  qed
  moreover have "k \<noteq> 1"
  proof
    assume "k = 1"
    with k(1) g(2) show False by (simp add: retry_outcome_def max_calls_def)
  qed
  ultimately have "k = 2" by linarith
  with k show ?thesis
    by (simp add: retry_outcome_def flaky_def result_of_def numeral_2_eq_2 upt_rec backoff_def Millisecond_def TwoSeconds_def)
qed

text \<open>Statuses. Success is exactly 200, 201, 202 and 204; the codes worth another attempt are 408, 429, the
  5xx codes, and every code below 400 that is not one of the four (so a redirect, a 206, or a code the
  server made up counts as a server failure); the rest are final, with 401 and 403 as authorization failures.\<close>

theorem ClassifyStatus_spec:
  "(ClassifyStatus code = FailureNone) = (code \<in> {200, 201, 202, 204})
   \<and> Retryable (ClassifyStatus code) = (code \<in> {408, 429} \<or> code \<ge> 500 \<or> code < 400 \<and> code \<notin> {200, 201, 202, 204})
   \<and> (ClassifyStatus code = FailureAuth) = (code \<in> {401, 403}) \<and> (ClassifyStatus code = FailureNotFound) = (code = 404)"
  by (auto simp: ClassifyStatus_def Retryable_def)

text \<open>C31: Waits. For every attempt number up to 36 the wait is positive and at most two seconds, and it is the
  doubling \<open>100 * 2 ^ i\<close> milliseconds plus the jitter as long as that stays below the cap; at attempt 37 the
  64-bit product wraps around to a negative duration, so the loop no longer waits.\<close>

theorem backoff_bounds:
  "(i \<le> 36 \<and> r < 50 \<longrightarrow> backoff i r = min TwoSeconds ((100 * 2 ^ i + int r) * 1000000)) \<and> backoff 37 0 < 0"
proof
  show "i \<le> 36 \<and> r < 50 \<longrightarrow> backoff i r = min TwoSeconds ((100 * 2 ^ i + int r) * 1000000)"
  proof
    assume h: "i \<le> 36 \<and> r < 50"
    let ?x = "(100 * 2 ^ i + int r) * 1000000"
    have "(2::int) ^ i \<le> 2 ^ 36" using h by (intro power_increasing) simp_all
    then have x: "0 \<le> ?x" "?x < 2 ^ 63" using h by simp_all
    have "(100 * push_bit i 1 * Millisecond + of_nat r * Millisecond :: 64 word) = word_of_int ?x"
      by (simp add: Millisecond_def push_bit_eq_mult algebra_simps)
    moreover have "signed_take_bit 63 ?x = ?x"
      by (rule signed_take_bit_int_eq_self [OF order.trans [OF _ x(1)] x(2)]) simp
    then have "sint (word_of_int ?x :: 64 word) = ?x" by (subst signed_of_int) simp
    ultimately show "backoff i r = min TwoSeconds ?x" by (simp add: backoff_def Let_def min_def)
  qed
  show "backoff 37 0 < 0" by (simp add: backoff_def Millisecond_def TwoSeconds_def)
qed

theorem backoff_bounds_witness: "backoff 1 0 = 200000000 \<and> backoff 5 49 = TwoSeconds"
  using backoff_bounds [of 1 0] backoff_bounds [of 5 49] by (simp add: TwoSeconds_def)

end
