(* ===== verification/GhaContext.thy ===== *)
theory GhaContext
  imports Prelude "HOL-Library.List_Lexorder" "HOL-Library.Char_ord" "HOL-Library.Multiset"
begin

text \<open>
  The GitHub Actions context of \<^verbatim>\<open>internal/gha/context.go\<close>: reading the environment, and the job id with
  its canonical encoding of the matrix. A JSON object is one enumeration of its Go map, in any order;
  how \<^verbatim>\<open>encoding/json\<close> writes numbers and strings, and its parser, are parameters, as is SHA-256.
\<close>

section \<open>JSON\<close>

datatype 'n json =
    JNull
  | JBool bool
  | JNum 'n
  | JStr string
  | JArr "'n json list"
  | JObj "(string \<times> 'n json) list"

text \<open>The leaf encoder fails on the numbers JSON cannot express.\<close>

record 'n json_enc =
  enc_num :: "'n \<Rightarrow> string option"
  enc_str :: "string \<Rightarrow> string"

fun enc_leaf :: "'n json_enc \<Rightarrow> 'n json \<Rightarrow> string option" where
  "enc_leaf E JNull = Some ''null''"
| "enc_leaf E (JBool b) = Some (if b then ''true'' else ''false'')"
| "enc_leaf E (JNum n) = enc_num E n"
| "enc_leaf E (JStr s) = Some (enc_str E s)"
| "enc_leaf E _ = None"

definition enc_array :: "string list \<Rightarrow> string" where
  "enc_array xs = ''['' @ join_with '','' xs @ '']''"

definition enc_field :: "'n json_enc \<Rightarrow> string \<Rightarrow> string \<Rightarrow> string" where
  "enc_field E k v = enc_str E k @ '':'' @ v"

definition enc_object :: "string list \<Rightarrow> string" where
  "enc_object fs = ''{'' @ join_with '','' fs @ ''}''"

text \<open>The library function \<open>those\<close> over pairs: all second components, or none.\<close>

definition those_snd :: "('a \<times> 'b option) list \<Rightarrow> ('a \<times> 'b) list option" where
  "those_snd ps = (if list_ex (\<lambda>p. snd p = None) ps then None else Some (map (\<lambda>p. (fst p, the (snd p))) ps))"

text \<open>\<^verbatim>\<open>json.Marshal\<close> writes the keys of a map in sorted order.\<close>

lemma json_size_arr [termination_simp]: "v \<in> set xs \<Longrightarrow> size v < Suc (size_list size xs)"
  by (simp add: less_Suc_eq_le size_list_estimation')

lemma json_size_obj [termination_simp]: "p \<in> set t \<Longrightarrow> size (snd p) < Suc (size_list (size_prod (\<lambda>s. 0) size) t)"
  by (cases p) (simp add: less_Suc_eq_le size_list_estimation')

fun json_Marshal :: "'n json_enc \<Rightarrow> 'n json \<Rightarrow> string option" where
  "json_Marshal E (JArr xs) = map_option enc_array (those (map (json_Marshal E) xs))"
| "json_Marshal E (JObj t) =
     map_option (\<lambda>ps. enc_object (map (\<lambda>(k, v). enc_field E k v) ps))
       (those_snd (sort_key fst (map (\<lambda>p. (fst p, json_Marshal E (snd p))) t)))"
| "json_Marshal E v = enc_leaf E v"

section \<open>Operations\<close>

text \<open>\<^verbatim>\<open>sortStrings\<close>: the inner loop swaps the element at \<open>j\<close> down.\<close>

fun sift :: "string list \<Rightarrow> nat \<Rightarrow> string list" where
  "sift s 0 = s"
| "sift s (Suc j) = (if s ! Suc j < s ! j then sift (s[Suc j := s ! j, j := s ! Suc j]) j else s)"

definition sortStrings :: "string list \<Rightarrow> string list" where
  "sortStrings s = fold (\<lambda>i s. sift s i) [1..<length s] s"

text \<open>\<^verbatim>\<open>normalize\<close> turns objects into raw messages, which marshal to themselves (they are compact already).\<close>

datatype 'n norm = NLeaf "'n json" | NRaw string | NArr "'n norm list"

fun marshal_norm :: "'n json_enc \<Rightarrow> 'n norm \<Rightarrow> string option" where
  "marshal_norm E (NLeaf v) = enc_leaf E v"
| "marshal_norm E (NRaw s) = Some s"
| "marshal_norm E (NArr xs) = map_option enc_array (those (map (marshal_norm E) xs))"

function (sequential) canonicalJSON :: "'n json_enc \<Rightarrow> 'n json \<Rightarrow> string option"
  and normalize_json :: "'n json_enc \<Rightarrow> 'n json \<Rightarrow> 'n norm option"
  and obj_fields :: "'n json_enc \<Rightarrow> (string \<times> 'n json) list \<Rightarrow> string list \<Rightarrow> string list option" where
  "canonicalJSON E v = (case normalize_json E v of None \<Rightarrow> None | Some n \<Rightarrow> marshal_norm E n)"
| "normalize_json E (JObj t) =
     (case obj_fields E t (sortStrings (map fst t)) of
        None \<Rightarrow> None
      | Some fs \<Rightarrow> Some (NRaw (enc_object fs)))"
| "normalize_json E (JArr xs) = map_option NArr (those (map (normalize_json E) xs))"
| "normalize_json E v = Some (NLeaf v)"
| "obj_fields E t [] = Some []"
| "obj_fields E t (k # ks) =
     (case map_of t k of
        None \<Rightarrow> None
      | Some v \<Rightarrow>
         (case canonicalJSON E v of
            None \<Rightarrow> None
          | Some vb \<Rightarrow> (case obj_fields E t ks of None \<Rightarrow> None | Some fs \<Rightarrow> Some (enc_field E k vb # fs))))"
  by pat_completeness auto
termination
proof (relation "inv_image (less_than <*lex*> less_than <*lex*> less_than)
    (\<lambda>x. case x of Inl (E, v) \<Rightarrow> (size v, 2, 0)
       | Inr (Inl (E, v)) \<Rightarrow> (size v, 1, 0)
       | Inr (Inr (E, t, ks)) \<Rightarrow> (size (JObj t), 0, length ks))")
qed (auto simp: json_size_arr dest!: map_of_SomeD json_size_obj)

definition hex_encode :: "bytes \<Rightarrow> string" where
  "hex_encode b = concat (map (\<lambda>x. [''0123456789abcdef'' ! (unat x div 16), ''0123456789abcdef'' ! (unat x mod 16)]) b)"

definition JobID :: "'n json_enc \<Rightarrow> (string \<Rightarrow> bytes) \<Rightarrow> string \<Rightarrow> (string \<times> 'n json) list \<Rightarrow> string" where
  "JobID E sha256 job matrix =
     (if matrix = [] then job
      else case json_Marshal E (JObj matrix) of
        None \<Rightarrow> job
      | Some b \<Rightarrow>
         (case canonicalJSON E (JObj matrix) of
            None \<Rightarrow> job @ '':'' @ hex_encode (take 6 (sha256 b))
          | Some canon \<Rightarrow> job @ '':'' @ hex_encode (take 6 (sha256 canon))))"

record 'n Context =
  RepoOwner :: string
  RepoName :: string
  Workflow :: string
  WorkflowRef :: string
  RunID :: string
  RunAttempt :: string
  Job :: string
  JobId :: string
  SHA :: string
  Ref :: string
  Actor :: string
  EventName :: string
  RunnerArch :: string
  RunnerOS :: string
  MatrixJSON :: string
  Matrix :: "(string \<times> 'n json) list"

text \<open>\<^verbatim>\<open>strings.SplitN(s, "/", 2)\<close>, and \<^verbatim>\<open>FromEnv\<close> over the environment (an unset variable is empty).\<close>

definition SplitN2 :: "string \<Rightarrow> char \<Rightarrow> string list" where
  "SplitN2 s d = (let a = takeWhile (\<lambda>c. c \<noteq> d) s in if d \<in> set s then [a, drop (Suc (length a)) s] else [s])"

definition FromEnv :: "'n json_enc \<Rightarrow> (string \<Rightarrow> bytes) \<Rightarrow> (string \<Rightarrow> string + (string \<times> 'n json) list) \<Rightarrow>
    (string \<Rightarrow> string) \<Rightarrow> string + 'n Context" where
  "FromEnv E sha256 unmarshal env =
     (let repo = env ''GITHUB_REPOSITORY'';
          owner = env ''GITHUB_REPOSITORY_OWNER'';
          parts = SplitN2 repo (CHR ''/'');
          owner' = (if repo \<noteq> [] \<and> owner = [] \<and> length parts > 0 then parts ! 0 else owner);
          name = (if repo \<noteq> [] \<and> length parts = 2 then parts ! 1 else []);
          mj = trim_space (env ''CENSOR_MATRIX'');
          c = \<lparr>RepoOwner = owner', RepoName = name, Workflow = env ''GITHUB_WORKFLOW'',
               WorkflowRef = env ''GITHUB_WORKFLOW_REF'', RunID = env ''GITHUB_RUN_ID'',
               RunAttempt = env ''GITHUB_RUN_ATTEMPT'', Job = env ''GITHUB_JOB'', JobId = [],
               SHA = env ''GITHUB_SHA'', Ref = env ''GITHUB_REF'', Actor = env ''GITHUB_ACTOR'',
               EventName = env ''GITHUB_EVENT_NAME'', RunnerArch = env ''RUNNER_ARCH'',
               RunnerOS = env ''RUNNER_OS'', MatrixJSON = mj, Matrix = []\<rparr>
      in if mj \<noteq> [] \<and> mj \<noteq> ''{}'' \<and> mj \<noteq> ''null''
         then (case unmarshal mj of
             Inl e \<Rightarrow> Inl e
           | Inr m \<Rightarrow> Inr (c\<lparr>Matrix := m, JobId := JobID E sha256 (Job c) m\<rparr>))
         else Inr (c\<lparr>JobId := JobID E sha256 (Job c) []\<rparr>))"

text \<open>The protobuf message; \<^verbatim>\<open>structpb.NewStruct\<close> is the parameter \<open>new_struct\<close>.\<close>

record 'x JobContext =
  jc_RepoOwner :: string
  jc_RepoName :: string
  jc_Workflow :: string
  jc_WorkflowRef :: string
  jc_RunId :: string
  jc_RunAttempt :: string
  jc_Job :: string
  jc_JobId :: string
  jc_Sha :: string
  jc_Ref :: string
  jc_Actor :: string
  jc_EventName :: string
  jc_RunnerArch :: string
  jc_RunnerOs :: string
  jc_Matrix :: "'x option"

definition Proto :: "((string \<times> 'n json) list \<Rightarrow> string + 'x) \<Rightarrow> 'n Context \<Rightarrow> string + 'x JobContext" where
  "Proto new_struct c =
     (let jc = \<lparr>jc_RepoOwner = RepoOwner c, jc_RepoName = RepoName c, jc_Workflow = Workflow c, jc_WorkflowRef = WorkflowRef c,
                jc_RunId = RunID c, jc_RunAttempt = RunAttempt c, jc_Job = Job c, jc_JobId = JobId c, jc_Sha = SHA c,
                jc_Ref = Ref c, jc_Actor = Actor c, jc_EventName = EventName c, jc_RunnerArch = RunnerArch c,
                jc_RunnerOs = RunnerOS c, jc_Matrix = None\<rparr> in
      if length (Matrix c) > 0 then
        (case new_struct (Matrix c) of Inl e \<Rightarrow> Inl e | Inr s \<Rightarrow> Inr (jc\<lparr>jc_Matrix := Some s\<rparr>))
      else Inr jc)"

section \<open>Sorting\<close>

lemma insort_snoc_less: "x < y \<Longrightarrow> insort x (xs @ [y]) = insort x xs @ [y]" for x y :: "'a :: linorder"
  by (induction xs) auto

lemma insort_max: "sorted xs \<Longrightarrow> (\<And>y. y \<in> set xs \<Longrightarrow> y \<le> x) \<Longrightarrow> insort x xs = xs @ [x]" for x :: "'a :: linorder"
proof (induction xs)
  case (Cons y ys)
  then have ih: "insort x ys = ys @ [x]" by simp
  show ?case
  proof (cases "x \<le> y")
    case True
    with Cons.prems have "\<forall>z \<in> set ys. x \<le> z" by auto
    then have "insort x ys = x # ys" using insort_is_Cons [of ys "\<lambda>z. z" x] by simp
    with ih have c: "x # ys = ys @ [x]" by simp
    have xy: "y = x" using True Cons.prems(2) [of y] by simp
    have "insort x (x # ys) = x # x # ys" by simp
    also have "\<dots> = x # ys @ [x]" by (simp only: c)
    finally show ?thesis by (simp only: xy append_Cons)
  qed (use ih in simp)
qed simp

lemma sift_insort:
  "j < length s \<Longrightarrow> sorted (take j s) \<Longrightarrow> sift s j = insort (s ! j) (take j s) @ drop (Suc j) s"
proof (induction j arbitrary: s)
  case 0
  then show ?case by (simp add: Cons_nth_drop_Suc)
next
  case (Suc j)
  have snoc: "take (Suc j) s = take j s @ [s ! j]" using Suc.prems(1) by (simp add: take_Suc_conv_app_nth)
  show ?case
  proof (cases "s ! Suc j < s ! j")
    case True
    let ?s = "s[Suc j := s ! j, j := s ! Suc j]"
    have "sift ?s j = insort (?s ! j) (take j ?s) @ drop (Suc j) ?s"
      using Suc.prems by (intro Suc.IH) (simp_all add: snoc sorted_append)
    also have "drop (Suc j) ?s = s ! j # drop (Suc (Suc j)) s"
      using Suc.prems(1) by (simp add: drop_update_swap Cons_nth_drop_Suc [symmetric] drop_update_cancel)
    finally show ?thesis using True Suc.prems(1) by (simp add: snoc insort_snoc_less)
  next
    case False
    then have "y \<le> s ! Suc j" if "y \<in> set (take (Suc j) s)" for y
      using that Suc.prems by (auto simp: snoc sorted_append not_less intro: order.trans)
    from insort_max [OF Suc.prems(2) this] False show ?thesis
      using Suc.prems(1) by (simp add: Cons_nth_drop_Suc)
  qed
qed

lemma sift_step:
  assumes "j < length s" "sorted (take j s)"
  shows "sorted (take (Suc j) (sift s j))" "mset (sift s j) = mset s" "length (sift s j) = length s"
proof -
  have l: "length (insort (s ! j) (take j s)) = Suc j" using assms(1) by simp
  show "sorted (take (Suc j) (sift s j))"
    using assms l by (simp add: sift_insort sorted_insort)
  have "mset s = mset (take j s @ s ! j # drop (Suc j) s)" using assms(1) by (simp add: id_take_nth_drop [symmetric])
  then show "mset (sift s j) = mset s" using assms by (simp add: sift_insort)
  then show "length (sift s j) = length s" by (rule mset_eq_length)
qed

lemma sortStrings_sort: "sortStrings s = sort s"
proof -
  have "n \<le> length s \<Longrightarrow> 0 < n \<Longrightarrow>
      sorted (take n (fold (\<lambda>i s. sift s i) [1..<n] s)) \<and> mset (fold (\<lambda>i s. sift s i) [1..<n] s) = mset s" for n
  proof (induction n)
    case (Suc n)
    show ?case
    proof (cases "n = 0")
      case True
      with Suc.prems show ?thesis by (cases s) simp_all
    next
      case False
      let ?r = "fold (\<lambda>i s. sift s i) [1..<n] s"
      from Suc False have ih: "sorted (take n ?r)" "mset ?r = mset s" by simp_all
      have "n < length ?r" using Suc.prems(1) mset_eq_length [OF ih(2)] by simp
      from sift_step [OF this ih(1)] ih(2) False show ?thesis by (simp add: upt_Suc_append)
    qed
  qed simp
  note inv = this
  show ?thesis
  proof (cases "s = []")
    case False
    with inv [of "length s"] have i: "sorted (take (length s) (sortStrings s))" "mset (sortStrings s) = mset s"
      by (simp_all add: sortStrings_def)
    then have "sorted (sortStrings s)" using mset_eq_length [OF i(2)] by simp
    from properties_for_sort [OF i(2) this] show ?thesis by simp
  qed (simp add: sortStrings_def)
qed

section \<open>The canonical encoding is the library's\<close>

text \<open>A JSON value as a Go value: the keys of every object are distinct.\<close>

fun json_wf :: "'n json \<Rightarrow> bool" where
  "json_wf (JArr xs) = list_all json_wf xs"
| "json_wf (JObj t) = (distinct (map fst t) \<and> list_all (\<lambda>p. json_wf (snd p)) t)"
| "json_wf _ = True"

lemma those_bind:
  "Option.bind (those (map f xs)) (\<lambda>ys. those (map g ys)) = those (map (\<lambda>x. Option.bind (f x) g) xs)"
proof (induction xs)
  case (Cons x xs)
  then show ?case
    by (cases "f x"; cases "those (map f xs)") (auto split: option.splits)
qed simp

lemma sort_by_key:
  assumes "distinct (map fst ps)"
  shows "sort_key fst ps = map (\<lambda>k. (k, the (map_of ps k))) (sort (map fst ps))"
proof -
  let ?q = "sort_key fst ps"
  have "map fst ?q = sort (map fst ps)"
    by (rule sym, rule properties_for_sort) (simp_all add: mset_map)
  moreover have "map (\<lambda>p. (fst p, the (map_of ps (fst p)))) ?q = ?q"
    by (rule map_idI) (use assms in auto)
  then have "?q = map (\<lambda>k. (k, the (map_of ps k))) (map fst ?q)" by (simp add: comp_def)
  ultimately show ?thesis by simp
qed

lemma canonical_normal: "canonicalJSON E v = Option.bind (normalize_json E v) (marshal_norm E)"
  by (cases "normalize_json E v") simp_all

lemma obj_fields_those:
  assumes "set ks \<subseteq> fst ` set t"
  shows "obj_fields E t ks = map_option (map (\<lambda>(k, v). enc_field E k v))
    (those_snd (map (\<lambda>k. (k, canonicalJSON E (the (map_of t k)))) ks))"
  using assms
proof (induction ks)
  case (Cons k ks)
  then obtain v where "map_of t k = Some v" by (metis insert_subset list.simps(15) map_of_eq_None_iff option.exhaust)
  with Cons show ?case
    by (auto simp: those_snd_def list_ex_iff split: option.splits)
qed (simp add: those_snd_def)

lemma canonical_Marshal: "json_wf v \<Longrightarrow> canonicalJSON E v = json_Marshal E v"
proof (induction v rule: json_Marshal.induct)
  case (1 E xs)
  have "canonicalJSON E (JArr xs) = map_option enc_array (Option.bind (those (map (normalize_json E) xs)) (\<lambda>ys. those (map (marshal_norm E) ys)))"
    by (cases "those (map (normalize_json E) xs)") simp_all
  also have "\<dots> = map_option enc_array (those (map (canonicalJSON E) xs))"
  proof -
    have "canonicalJSON E = (\<lambda>x. Option.bind (normalize_json E x) (marshal_norm E))"
      by (rule ext, rule canonical_normal)
    then show ?thesis by (simp only: those_bind)
  qed
  also have "map (canonicalJSON E) xs = map (json_Marshal E) xs"
    using 1 by (simp add: list_all_iff)
  finally show ?case by simp
next
  case (2 E t)
  let ?M = "map (\<lambda>p. (fst p, json_Marshal E (snd p))) t"
  have keys: "map fst ?M = map fst t" by simp
  from 2(2) have d: "distinct (map fst t)" by simp
  have "canonicalJSON E (JObj t) = map_option enc_object (obj_fields E t (sort (map fst t)))"
    by (simp add: sortStrings_sort split: option.split)
  also have "obj_fields E t (sort (map fst t)) = map_option (map (\<lambda>(k, v). enc_field E k v))
      (those_snd (map (\<lambda>k. (k, canonicalJSON E (the (map_of t k)))) (sort (map fst t))))"
    by (rule obj_fields_those) simp
  also have "map (\<lambda>k. (k, canonicalJSON E (the (map_of t k)))) (sort (map fst t)) = sort_key fst ?M"
  proof -
    have v: "canonicalJSON E (the (map_of t k)) = the (map_of ?M k)" if k: "k \<in> set (map fst t)" for k
    proof -
      obtain v where kv: "(k, v) \<in> set t" "map_of t k = Some v" using k d by (auto simp: map_of_eq_Some_iff)
      with 2(1) [OF kv(1)] 2(2) have "canonicalJSON E v = json_Marshal E v" by (auto simp: list_all_iff)
      moreover have "map_of ?M k = Some (json_Marshal E v)" using kv d by (auto simp: map_of_eq_Some_iff image_iff comp_def intro!: bexI [OF _ kv(1)])
      ultimately show ?thesis by (simp add: kv(2))
    qed
    have "map (\<lambda>k. (k, canonicalJSON E (the (map_of t k)))) (sort (map fst t))
        = map (\<lambda>k. (k, the (map_of ?M k))) (sort (map fst t))"
      by (rule map_cong [OF refl]) (simp add: v del: canonicalJSON.simps)
    then show ?thesis using sort_by_key [of ?M] d by (simp add: comp_def)
  qed
  finally show ?case by (simp add: option.map_comp comp_def)
qed simp_all

section \<open>Properties\<close>

text \<open>The hand-written sort sorts: swapping every element down in place gives the sorted list.\<close>

theorem sortStrings_sorts: "sortStrings s = sort s"
  by (rule sortStrings_sort)

text \<open>Equality of JSON values up to the order in which the keys of objects are enumerated.\<close>

inductive json_eq :: "'n json \<Rightarrow> 'n json \<Rightarrow> bool" where
  refl: "json_eq v v"
| arr: "list_all2 json_eq xs ys \<Longrightarrow> json_eq (JArr xs) (JArr ys)"
| obj: "list_all2 (\<lambda>p q. fst p = fst q \<and> json_eq (snd p) (snd q)) t u \<Longrightarrow> mset u = mset t' \<Longrightarrow> json_eq (JObj t) (JObj t')"

inductive_cases json_eq_objE: "json_eq (JObj t) (JObj t')"

lemma Marshal_eq: "json_eq v v' \<Longrightarrow> json_wf v \<Longrightarrow> json_Marshal E v = json_Marshal E v'"
proof (induction rule: json_eq.induct)
  case (arr xs ys)
  then have "list_all2 (\<lambda>x y. json_Marshal E x = json_Marshal E y) xs ys"
    by (auto simp: list_all2_conv_all_nth list_all_length)
  then have "map (json_Marshal E) xs = map (json_Marshal E) ys"
    by (simp add: list_all2_conv_all_nth list_eq_iff_nth_eq)
  then show ?case by simp
next
  case (obj t u t')
  let ?M = "map (\<lambda>p. (fst p, json_Marshal E (snd p)))"
  have "?M t = ?M u"
    using obj.IH(1) obj.prems by (auto simp: list_all2_conv_all_nth list_eq_iff_nth_eq list_all_length)
  moreover have "sort_key fst (?M u) = sort_key fst (?M t')"
  proof (rule sort_key_inj_key_eq)
    show "mset (?M u) = mset (sort_key fst (?M t'))" using obj.hyps by simp
    have "map fst u = map fst t"
      using obj.IH(1) by (auto simp: list_all2_conv_all_nth list_eq_iff_nth_eq)
    with obj.prems have "distinct (map fst (?M u))" by (simp add: comp_def)
    then show "inj_on fst (set (?M u))" by (simp only: distinct_map)
  qed simp
  ultimately show ?case by simp
qed simp

lemma json_eq_empty: "json_eq (JObj m) (JObj m') \<Longrightarrow> (m = []) = (m' = [])"
  by (erule json_eq_objE) (auto simp: list_all2_conv_all_nth dest: mset_eq_length)

text \<open>C37: The job id does not depend on how the runtime enumerates the matrix. For two enumerations of equal
  matrices (keys in any order, at every depth) the job ids are equal, whatever the hash and the leaf
  encodings are; and the canonical encoding is the one \<^verbatim>\<open>json.Marshal\<close> gives, which sorts keys itself.\<close>

theorem JobID_stable:
  assumes "json_wf (JObj m)" "json_wf (JObj m')" "json_eq (JObj m) (JObj m')"
  shows "JobID E sha256 job m = JobID E sha256 job m'
     \<and> canonicalJSON E (JObj m) = json_Marshal E (JObj m)"
  using Marshal_eq [OF assms(3,1), of E] canonical_Marshal [OF assms(1), of E] canonical_Marshal [OF assms(2), of E]
    json_eq_empty [OF assms(3)]
  by (simp only: JobID_def)

definition plain_enc :: "int json_enc" where
  "plain_enc = \<lparr>enc_num = (\<lambda>n. Some (if n = 1 then ''1'' else ''0'')), enc_str = (\<lambda>s. [CHR 0x22] @ s @ [CHR 0x22])\<rparr>"

theorem JobID_stable_witness:
  "JobID plain_enc (map (\<lambda>c. of_char c)) ''build'' [(''os'', JStr ''linux''), (''go'', JArr [JNum 1])]
   = JobID plain_enc (map (\<lambda>c. of_char c)) ''build'' [(''go'', JArr [JNum 1]), (''os'', JStr ''linux'')]"
proof -
  have e: "json_eq (JObj [(''os'', JStr ''linux''), (''go'', JArr [JNum (1::int)])]) (JObj [(''go'', JArr [JNum 1]), (''os'', JStr ''linux'')])"
    by (rule json_eq.obj [of _ "[(''os'', JStr ''linux''), (''go'', JArr [JNum 1])]"]) (auto intro: json_eq.refl)
  show ?thesis by (rule JobID_stable [OF _ _ e, THEN conjunct1]) simp_all
qed

end
