(* ===== verification/ApiClient.thy ===== *)
theory ApiClient
  imports Retry GhaContext AgentTypes "HOL-Library.AList"
begin

text \<open>
  The API client of \<^verbatim>\<open>internal/api/client.go\<close>: the policy request and the log upload as HTTP requests, and
  their retries. The transport, the URL parser and the protobuf codec are parameters (\<open>api_env\<close>); the
  transport acts on a state.
\<close>

section \<open>Requests\<close>

text \<open>A request: method, URL without its query, query, headers, and the parts of a multipart body (field
  name, file name, content).\<close>

record request =
  rq_method :: string
  rq_url :: string
  rq_query :: "(string \<times> string) list"
  rq_headers :: "(string \<times> string) list"
  rq_parts :: "(string \<times> string option \<times> string) list"

text \<open>A response is a status and a body, reading which may fail.\<close>

record response =
  rs_status :: int
  rs_body :: "error + string"

record 'x AgentLogUpload =
  lu_CorrelationId :: string
  lu_Job :: "'x JobContext"
  lu_Mode :: Mode
  lu_AgentVersion :: string
  lu_Status :: string

record ('s, 'x) api_env =
  ae_url_parse :: "string \<Rightarrow> error + string \<times> (string \<times> string) list"
  ae_new_request :: "request \<Rightarrow> error option"
  ae_do :: "request \<Rightarrow> 's \<Rightarrow> 's \<times> (error + response)"
  ae_unmarshal :: "string \<Rightarrow> error + AgentPolicy"
  ae_marshal :: "'x AgentLogUpload \<Rightarrow> error + string"
  ae_content_type :: string

record Client =
  BaseURL :: string
  APIKey :: string
  Version :: string
  Attempts :: int

definition defaultAPIKeyPath :: string where "defaultAPIKeyPath = ''/etc/censor/api-key''"
definition policyPath :: string where "policyPath = ''/v1/agent/policy''"
definition logsPath :: string where "logsPath = ''/v1/agent/logs''"

section \<open>Operations\<close>

text \<open>\<^verbatim>\<open>os.ReadFile\<close> is the parameter \<open>read\<close>.\<close>

definition LoadAPIKey :: "(string \<Rightarrow> string + string) \<Rightarrow> string \<Rightarrow> string + string" where
  "LoadAPIKey read path =
     (let path = (if path = [] then defaultAPIKeyPath else path) in
      case read path of Inl e \<Rightarrow> Inl e | Inr b \<Rightarrow> Inr (trim_space b))"

definition attempts :: "Client \<Rightarrow> int" where
  "attempts c = (if Attempts c > 0 then Attempts c else 3)"

text \<open>The three dots are one character, \<open>U+2026\<close>, in UTF-8.\<close>

definition truncate :: "string \<Rightarrow> nat \<Rightarrow> string" where
  "truncate b n = (if length b \<le> n then b else take n b @ map char_of [226 :: nat, 128, 166])"

definition trim_right :: "string \<Rightarrow> char \<Rightarrow> string" where
  "trim_right s c = rev (dropWhile (\<lambda>x. x = c) (rev s))"

text \<open>\<^verbatim>\<open>q.Set\<close> of the parameters that are not empty.\<close>

fun set_params :: "(string \<times> string) list \<Rightarrow> (string \<times> string) list \<Rightarrow> (string \<times> string) list" where
  "set_params [] q = q"
| "set_params ((k, v) # kvs) q = set_params kvs (if v \<noteq> [] then AList.update k v q else q)"

definition policy_params :: "Client \<Rightarrow> 'n Context \<Rightarrow> (string \<times> string) list" where
  "policy_params c g =
     [(''repo_owner'', RepoOwner g), (''repo_name'', RepoName g), (''workflow'', Workflow g),
      (''workflow_ref'', WorkflowRef g), (''run_id'', RunID g), (''run_attempt'', RunAttempt g),
      (''job'', Job g), (''job_id'', JobId g), (''sha'', SHA g), (''ref'', Ref g), (''actor'', Actor g),
      (''event_name'', EventName g), (''runner_arch'', RunnerArch g), (''runner_os'', RunnerOS g),
      (''matrix'', MatrixJSON g), (''agent_version'', Version c)]"

definition policy_request :: "Client \<Rightarrow> 'n Context \<Rightarrow> string \<times> (string \<times> string) list \<Rightarrow> request" where
  "policy_request c g u = \<lparr>rq_method = ''GET'', rq_url = fst u, rq_query = set_params (policy_params c g) (snd u),
     rq_headers = [(''Authorization'', ''Bearer '' @ APIKey c), (''Accept'', ''application/json'')], rq_parts = []\<rparr>"

definition fetchPolicyOnce :: "('s, 'x) api_env \<Rightarrow> Client \<Rightarrow> 'n Context \<Rightarrow> 's \<Rightarrow> 's \<times> (error + AgentPolicy)" where
  "fetchPolicyOnce E c g s =
     (case ae_url_parse E (trim_right (BaseURL c) (CHR ''/'') @ policyPath) of
        Inl e \<Rightarrow> (s, Inl e)
      | Inr u \<Rightarrow>
       (case ae_new_request E (policy_request c g u) of
          Some e \<Rightarrow> (s, Inl e)
        | None \<Rightarrow>
         (case ae_do E (policy_request c g u) s of
            (s, Inl e) \<Rightarrow> (s, Inl (the (mapDoError (Some e))))
          | (s, Inr res) \<Rightarrow>
             (case rs_body res of
                Inl e \<Rightarrow> (s, Inl (the (mapDoError (Some e))))
              | Inr body \<Rightarrow>
                  (if ClassifyStatus (rs_status res) \<noteq> FailureNone
                   then (s, Inl (APIError (ClassifyStatus (rs_status res)) (rs_status res) (Plain (truncate body 256))))
                   else case ae_unmarshal E body of
                     Inl e \<Rightarrow> (s, Inl (APIError FailureClient (rs_status res) (Wrap False ''policy decode: '' e)))
                   | Inr pol \<Rightarrow> (s, Inr pol))))))"

text \<open>The closure passed to \<^verbatim>\<open>withRetries\<close> assigns the policy on success.\<close>

definition fetch_fn :: "('s, 'x) api_env \<Rightarrow> Client \<Rightarrow> 'n Context \<Rightarrow> 's \<times> AgentPolicy option \<Rightarrow>
    ('s \<times> AgentPolicy option) \<times> error option" where
  "fetch_fn E c g st =
     (case fetchPolicyOnce E c g (fst st) of
        (s, Inl e) \<Rightarrow> ((s, snd st), Some e)
      | (s, Inr p) \<Rightarrow> ((s, Some p), None))"

definition FetchPolicy :: "(nat \<Rightarrow> error option) \<Rightarrow> (nat \<Rightarrow> nat) \<Rightarrow> ('s, 'x) api_env \<Rightarrow> Client \<Rightarrow> 'n Context \<Rightarrow> 's \<Rightarrow>
    error option \<times> AgentPolicy option \<times> 's" where
  "FetchPolicy ctx_done rnd E c g s =
     (case withRetries ctx_done rnd (attempts c) (fetch_fn E c g) (s, None) of
        (err, (s', pol), ws) \<Rightarrow> (err, pol, s'))"

definition upload_request :: "('s, 'x) api_env \<Rightarrow> Client \<Rightarrow> string \<Rightarrow> string \<Rightarrow> request" where
  "upload_request E c meta gz = \<lparr>rq_method = ''POST'', rq_url = trim_right (BaseURL c) (CHR ''/'') @ logsPath, rq_query = [],
     rq_headers = [(''Authorization'', ''Bearer '' @ APIKey c), (''Content-Type'', ae_content_type E)],
     rq_parts = [(''metadata'', None, meta), (''log'', Some ''agent.ndjson.gz'', gz)]\<rparr>"

text \<open>Writing the multipart body to a buffer cannot fail. At most 512 bytes of the reply are read.\<close>

definition uploadLogsOnce :: "('s, 'x) api_env \<Rightarrow> Client \<Rightarrow> 'x AgentLogUpload \<Rightarrow> string \<Rightarrow> 's \<Rightarrow> 's \<times> error option" where
  "uploadLogsOnce E c meta gz s =
     (case ae_marshal E meta of
        Inl e \<Rightarrow> (s, Some e)
      | Inr mb \<Rightarrow>
       (case ae_new_request E (upload_request E c mb gz) of
          Some e \<Rightarrow> (s, Some e)
        | None \<Rightarrow>
         (case ae_do E (upload_request E c mb gz) s of
            (s, Inl e) \<Rightarrow> (s, mapDoError (Some e))
          | (s, Inr res) \<Rightarrow>
             (case rs_body res of
                Inl e \<Rightarrow> (s, mapDoError (Some e))
              | Inr body \<Rightarrow>
                  (if ClassifyStatus (rs_status res) \<noteq> FailureNone
                   then (s, Some (APIError (ClassifyStatus (rs_status res)) (rs_status res)
                          (Plain (truncate (take 512 body) 256))))
                   else (s, None))))))"

definition UploadLogs :: "(nat \<Rightarrow> error option) \<Rightarrow> (nat \<Rightarrow> nat) \<Rightarrow> ('s, 'x) api_env \<Rightarrow> Client \<Rightarrow> 'x AgentLogUpload \<Rightarrow> string \<Rightarrow> 's \<Rightarrow>
    error option \<times> 's" where
  "UploadLogs ctx_done rnd E c meta gz s =
     (case withRetries ctx_done rnd (attempts c) (uploadLogsOnce E c meta gz) s of (err, s', ws) \<Rightarrow> (err, s'))"

section \<open>Facts\<close>

text \<open>An operation whose every call fails with an error that permits another attempt is called as often as
  allowed; one whose first call succeeds or fails for good is called once.\<close>

lemma retries_exhausted:
  assumes "\<And>i. ctx_done i = None" "\<And>k. goes_on (result_of fn s k)"
  shows "\<exists>ws. withRetries ctx_done rnd a fn s =
     (result_of fn s (max_calls a - 1), state_after fn s (max_calls a), ws)"
proof -
  have m: "0 < max_calls a" by (simp add: max_calls_def)
  obtain k where k: "retry_outcome fn s (max_calls a) (withRetries ctx_done rnd a fn s) k"
    using retry_from_outcome [of ctx_done "max_calls a" fn s rnd 0 None] assms(1) m
    by (auto simp: withRetries_def max_calls_def Let_def)
  with assms(2) have e: "Suc k = max_calls a" by (simp add: retry_outcome_def)
  then have k': "max_calls a - 1 = k" by simp
  obtain err s' ws where r: "withRetries ctx_done rnd a fn s = (err, s', ws)" by (cases "withRetries ctx_done rnd a fn s")
  show ?thesis using k unfolding k' e [symmetric] r by (auto simp: retry_outcome_def)
qed

lemma retries_once:
  assumes "\<And>i. ctx_done i = None" "\<not> goes_on (snd (fn s))"
  shows "\<exists>ws. withRetries ctx_done rnd a fn s = (snd (fn s), fst (fn s), ws)"
proof -
  have m: "0 < max_calls a" by (simp add: max_calls_def)
  obtain k where k: "retry_outcome fn s (max_calls a) (withRetries ctx_done rnd a fn s) k"
    using retry_from_outcome [of ctx_done "max_calls a" fn s rnd 0 None] assms(1) m
    by (auto simp: withRetries_def max_calls_def Let_def)
  then have "k = 0" using assms(2) by (cases k) (auto simp: retry_outcome_def)
  obtain err s' ws where r: "withRetries ctx_done rnd a fn s = (err, s', ws)" by (cases "withRetries ctx_done rnd a fn s")
  show ?thesis using k \<open>k = 0\<close> unfolding r by (auto simp: retry_outcome_def)
qed

lemma constant_op:
  assumes "\<And>i. ctx_done i = None" "\<And>s. fn s = (add s, r)"
  shows "\<exists>ws. withRetries ctx_done rnd a fn s = (r, (add ^^ (if goes_on r then max_calls a else 1)) s, ws)"
proof -
  have st: "state_after fn s k = (add ^^ k) s" for s k
    by (induction k arbitrary: s) (simp_all add: assms(2) funpow_swap1)
  have res: "result_of fn s k = r" for k by (simp add: result_of_def assms(2))
  show ?thesis
  proof (cases "goes_on r")
    case True
    with res have "goes_on (result_of fn s k)" for k by simp
    from retries_exhausted [OF assms(1) this, where rnd = rnd and a = a] True show ?thesis by (simp add: res st)
  next
    case False
    with retries_once [OF assms(1), where fn = fn and s = s and rnd = rnd and a = a] show ?thesis by (simp add: assms(2))
  qed
qed

lemma funpow_snoc: "((\<lambda>s. s @ [x]) ^^ n) s = s @ replicate n x"
  by (induction n) (simp_all add: replicate_append_same)

lemma funpow_snoc_fst: "((\<lambda>st. (fst st @ [x], snd st)) ^^ n) st = (fst st @ replicate n x, snd st)"
  by (induction n) (simp_all add: replicate_append_same)

section \<open>Properties\<close>

text \<open>A server that records the requests and answers each with the same status and body.\<close>

definition answers :: "(request list, 'x) api_env \<Rightarrow> int \<Rightarrow> string \<Rightarrow> bool" where
  "answers E code body \<longleftrightarrow> (\<forall>rq s. ae_do E rq s = (s @ [rq], Inr \<lparr>rs_status = code, rs_body = Inr body\<rparr>))"

definition requests_for :: "Client \<Rightarrow> int \<Rightarrow> nat" where
  "requests_for c code = (if Retryable (ClassifyStatus code) then max_calls (attempts c) else 1)"

lemma goes_on_api: "goes_on (Some (APIError cl code (Plain m))) = Retryable cl"
  by (simp add: goes_on_def stops_def)

text \<open>What a server's status costs. Against a server that answers every policy request with one failing
  status, the client sends the same request (with its bearer token) once if the status is final, so a
  rejected key or an unknown repository is never retried, and as often as configured if it is worth
  retrying; it then returns no policy and an error with the class and status.\<close>

theorem FetchPolicy_posture:
  assumes "\<forall>i. ctx_done i = None" "answers E code body" "ClassifyStatus code \<noteq> FailureNone"
    and "ae_url_parse E (trim_right (BaseURL c) (CHR ''/'') @ policyPath) = Inr u"
    and "ae_new_request E (policy_request c g u) = None"
  shows "FetchPolicy ctx_done rnd E c g [] =
     (Some (APIError (ClassifyStatus code) code (Plain (truncate body 256))), None,
      replicate (requests_for c code) (policy_request c g u))
   \<and> (''Authorization'', ''Bearer '' @ APIKey c) \<in> set (rq_headers (policy_request c g u))"
proof -
  let ?r = "Some (APIError (ClassifyStatus code) code (Plain (truncate body 256)))"
  let ?add = "\<lambda>st. (fst st @ [policy_request c g u], snd st)"
  have "fetch_fn E c g st = (?add st, ?r)" for st
    using assms by (simp add: fetch_fn_def fetchPolicyOnce_def answers_def)
  then obtain ws where "withRetries ctx_done rnd (attempts c) (fetch_fn E c g) ([], None) =
      (?r, (?add ^^ (if goes_on ?r then max_calls (attempts c) else 1)) ([], None), ws)"
    using constant_op [of ctx_done "fetch_fn E c g" ?add ?r rnd "attempts c" "([], None)"] assms(1) by auto
  then show ?thesis
    unfolding funpow_snoc_fst goes_on_api
    by (simp add: FetchPolicy_def requests_for_def policy_request_def)
qed

definition env0 :: "int \<Rightarrow> (request list, unit) api_env" where
  "env0 code = \<lparr>ae_url_parse = (\<lambda>s. Inr (s, [])), ae_new_request = (\<lambda>r. None),
     ae_do = (\<lambda>rq s. (s @ [rq], Inr \<lparr>rs_status = code, rs_body = Inr ''no''\<rparr>)),
     ae_unmarshal = (\<lambda>b. Inl (Plain b)), ae_marshal = (\<lambda>m. Inr ''m''), ae_content_type = ''multipart/form-data''\<rparr>"

definition client0 :: Client where
  "client0 = \<lparr>BaseURL = ''https://x/'', APIKey = ''k'', Version = ''dev'', Attempts = 0\<rparr>"

definition context0 :: "int Context" where
  "context0 = \<lparr>RepoOwner = ''o'', RepoName = ''r'', Workflow = [], WorkflowRef = [], RunID = ''1'', RunAttempt = ''1'',
     Job = ''build'', JobId = ''build'', SHA = [], Ref = [], Actor = [], EventName = [], RunnerArch = [], RunnerOS = [],
     MatrixJSON = [], Matrix = []\<rparr>"

theorem FetchPolicy_posture_witness:
  "length (snd (snd (FetchPolicy (\<lambda>i. None) (\<lambda>i. 0) (env0 403) client0 context0 []))) = 1
   \<and> length (snd (snd (FetchPolicy (\<lambda>i. None) (\<lambda>i. 0) (env0 503) client0 context0 []))) = 3"
proof -
  have d: "\<forall>i. (\<lambda>i :: nat. None :: error option) i = None" by simp
  have a: "answers (env0 code) code ''no''" for code by (simp add: answers_def env0_def)
  have p: "ae_url_parse (env0 code) u = Inr (u, [])" "ae_new_request (env0 code) r = None" for code u r
    by (simp_all add: env0_def)
  have c: "ClassifyStatus 403 \<noteq> FailureNone" "ClassifyStatus 503 \<noteq> FailureNone" by (simp_all add: ClassifyStatus_def)
  show ?thesis
    unfolding FetchPolicy_posture [OF d a c(1) p, THEN conjunct1] FetchPolicy_posture [OF d a c(2) p, THEN conjunct1]
    by (simp add: requests_for_def ClassifyStatus_def Retryable_def attempts_def client0_def max_calls_def)
qed

text \<open>The upload behaves the same way: one request for a success or a final status, the configured number
  for a status worth retrying, each carrying the metadata and the log; success is reported exactly for
  the four success codes.\<close>

theorem UploadLogs_posture:
  assumes "\<forall>i. ctx_done i = None" "answers E code body" "ae_marshal E meta = Inr mb"
    and "ae_new_request E (upload_request E c mb gz) = None"
  shows "snd (UploadLogs ctx_done rnd E c meta gz []) = replicate (requests_for c code) (upload_request E c mb gz)
   \<and> (fst (UploadLogs ctx_done rnd E c meta gz []) = None) = (code \<in> {200, 201, 202, 204})"
proof -
  let ?r = "if ClassifyStatus code = FailureNone then None
      else Some (APIError (ClassifyStatus code) code (Plain (truncate (take 512 body) 256)))"
  have "uploadLogsOnce E c meta gz s = (s @ [upload_request E c mb gz], ?r)" for s
    using assms by (simp add: uploadLogsOnce_def answers_def)
  then obtain ws where w: "withRetries ctx_done rnd (attempts c) (uploadLogsOnce E c meta gz) [] =
      (?r, ((\<lambda>s. s @ [upload_request E c mb gz]) ^^ (if goes_on ?r then max_calls (attempts c) else 1)) [], ws)"
    using constant_op [of ctx_done "uploadLogsOnce E c meta gz" "\<lambda>s. s @ [upload_request E c mb gz]" ?r rnd "attempts c" "[]"]
      assms(1) by auto
  have "goes_on ?r = Retryable (ClassifyStatus code)"
    by (auto simp: goes_on_def stops_def Retryable_def)
  then show ?thesis
    using w unfolding funpow_snoc
    by (auto simp: UploadLogs_def requests_for_def ClassifyStatus_def)
qed

definition upload0 :: "unit AgentLogUpload" where
  "upload0 = \<lparr>lu_CorrelationId = [], lu_Job = \<lparr>jc_RepoOwner = ''o'', jc_RepoName = ''r'', jc_Workflow = [], jc_WorkflowRef = [],
     jc_RunId = ''1'', jc_RunAttempt = ''1'', jc_Job = ''build'', jc_JobId = ''build'', jc_Sha = [], jc_Ref = [], jc_Actor = [],
     jc_EventName = [], jc_RunnerArch = [], jc_RunnerOs = [], jc_Matrix = None\<rparr>, lu_Mode = MODE_ENFORCE,
     lu_AgentVersion = ''dev'', lu_Status = ''success''\<rparr>"

theorem UploadLogs_posture_witness:
  "length (snd (UploadLogs (\<lambda>i. None) (\<lambda>i. 0) (env0 204) client0 upload0 ''gz'' [])) = 1"
proof -
  have d: "\<forall>i. (\<lambda>i :: nat. None :: error option) i = None" by simp
  have a: "answers (env0 204) 204 ''no''" by (simp add: answers_def env0_def)
  have p: "ae_marshal (env0 204) m = Inr ''m''" "ae_new_request (env0 204) r = None" for m r
    by (simp_all add: env0_def)
  show ?thesis
    unfolding UploadLogs_posture [OF d a p, THEN conjunct1]
    by (simp add: requests_for_def ClassifyStatus_def Retryable_def)
qed

end
