(* ===== verification/HostFiles.thy ===== *)
theory HostFiles
  imports EventLog
begin

text \<open>
  The file operations the agent uses besides its log: \<^verbatim>\<open>os.WriteFile\<close>, \<^verbatim>\<open>os.ReadFile\<close>, \<^verbatim>\<open>os.Remove\<close>, on the
  same file system. Outcomes of the system calls are given to each operation.
\<close>

datatype file_outcome = FOk | FOpenErr string | FWriteErr nat string

definition write_file :: "file_outcome \<Rightarrow> string \<Rightarrow> string \<Rightarrow> osfs \<Rightarrow> osfs \<times> string option" where
  "write_file out path c fs =
     (case out of
        FOk \<Rightarrow> (fs\<lparr>fdata := (fdata fs)(path \<mapsto> c)\<rparr>, None)
      | FOpenErr e \<Rightarrow> (fs, Some e)
      | FWriteErr n e \<Rightarrow> (fs\<lparr>fdata := (fdata fs)(path \<mapsto> take n c)\<rparr>, Some e))"

definition remove_file :: "string \<Rightarrow> osfs \<Rightarrow> osfs" where
  "remove_file path fs = fs\<lparr>fdata := (fdata fs)(path := None)\<rparr>"

definition remove_error :: "string \<Rightarrow> osfs \<Rightarrow> string option" where
  "remove_error path fs = (if fdata fs path = None then Some (''remove '' @ path @ '': no such file or directory'') else None)"

lemma write_file_fdata:
  "fdata (fst (write_file out path c fs)) q =
     (if q = path then (case out of FOk \<Rightarrow> Some c | FOpenErr e \<Rightarrow> fdata fs q | FWriteErr n e \<Rightarrow> Some (take n c)) else fdata fs q)"
  by (simp add: write_file_def split: file_outcome.split)

lemma write_file_err [simp]:
  "snd (write_file out path c fs) = (case out of FOk \<Rightarrow> None | FOpenErr e \<Rightarrow> Some e | FWriteErr n e \<Rightarrow> Some e)"
  by (simp add: write_file_def split: file_outcome.split)

lemma remove_file_fdata [simp]: "fdata (remove_file path fs) q = (if q = path then None else fdata fs q)"
  by (simp add: remove_file_def)

end
