(* ===== verification/SudoLockdown.thy ===== *)
theory SudoLockdown
  imports HostFiles
begin

text \<open>
  The sudo lockdown of \<^verbatim>\<open>internal/sudo/lockdown.go\<close>: the sudoers drop-in it writes, and its removal. The
  user database is a parameter.
\<close>

section \<open>Operations\<close>

definition defaultSudoersFile :: string where "defaultSudoersFile = ''/etc/sudoers.d/zz-censor-lockdown''"
definition defaultStateFile :: string where "defaultStateFile = ''/etc/sudoers.d/.censor-lockdown-state''"

record Lockdown =
  SudoersFile :: string
  StateFile :: string
  Username :: string
  AllowCmds :: "string list"

text \<open>\<^verbatim>\<open>filepath.Base\<close>: trailing slashes are stripped, the last element is kept.\<close>

definition filepath_Base :: "string \<Rightarrow> string" where
  "filepath_Base p =
     (if p = [] then ''.''
      else let q = rev (dropWhile (\<lambda>c. c = CHR ''/'') (rev p));
               b = rev (takeWhile (\<lambda>c. c \<noteq> CHR ''/'') (rev q))
           in if b = [] then ''/'' else b)"

definition IsSudoComm :: "string \<Rightarrow> bool" where
  "IsSudoComm comm = (let base = filepath_Base comm in base = ''sudo'' \<or> base = ''sudoedit'')"

definition paths :: "Lockdown \<Rightarrow> string \<times> string" where
  "paths l = (if SudoersFile l = [] then defaultSudoersFile else SudoersFile l,
              if StateFile l = [] then defaultStateFile else StateFile l)"

datatype lockdown_error = UserError string | UnsafeUsername string | WriteError string

text \<open>The user to lock down: the configured one, else the current one, else (for root) a known runner account.\<close>

definition lockdown_user :: "string + string \<Rightarrow> (string \<Rightarrow> bool) \<Rightarrow> Lockdown \<Rightarrow> string + string" where
  "lockdown_user current lookup l =
     (if Username l \<noteq> [] then Inr (Username l)
      else case current of
        Inl e \<Rightarrow> Inl e
      | Inr u \<Rightarrow> if u = ''root''
                 then (case find lookup [''runner'', ''github'', ''ci''] of Some cand \<Rightarrow> Inr cand | None \<Rightarrow> Inr u)
                 else Inr u)"

text \<open>The text of the drop-in; the dash of the comment is \<open>U+2014\<close>.\<close>

definition sudoers_comment :: string where
  "sudoers_comment = ''# Managed by censor '' @ map char_of [226 :: nat, 128, 148] @ '' do not edit''"

definition sudoers_text :: "string \<Rightarrow> string list \<Rightarrow> string" where
  "sudoers_text user cmds =
     sudoers_comment @ [newline]
     @ ''Defaults:'' @ user @ '' !authenticate'' @ [newline]
     @ (if cmds = [] then user @ '' ALL=(ALL) !ALL'' @ [newline]
        else user @ '' ALL=(root) NOPASSWD: '' @ join_with '', '' cmds @ [newline])"

definition unsafe_chars :: string where
  "unsafe_chars = '' ,#'' @ [newline, CHR 0x09]"

definition Enable :: "string + string \<Rightarrow> (string \<Rightarrow> bool) \<Rightarrow> file_outcome \<Rightarrow> file_outcome \<Rightarrow> Lockdown \<Rightarrow> osfs \<Rightarrow>
    osfs \<times> lockdown_error option" where
  "Enable current lookup out1 out2 l fs =
     (case lockdown_user current lookup l of
        Inl e \<Rightarrow> (fs, Some (UserError e))
      | Inr user \<Rightarrow>
          (if contains_any user unsafe_chars then (fs, Some (UnsafeUsername user))
           else case write_file out1 (fst (paths l)) (sudoers_text user (AllowCmds l)) fs of
             (fs, Some e) \<Rightarrow> (fs, Some (WriteError e))
           | (fs, None) \<Rightarrow>
              (case write_file out2 (snd (paths l)) (user @ [newline]) fs of
                 (fs, e) \<Rightarrow> (fs, map_option WriteError e))))"

definition Disable :: "Lockdown \<Rightarrow> osfs \<Rightarrow> osfs" where
  "Disable l fs = remove_file (snd (paths l)) (remove_file (fst (paths l)) fs)"

section \<open>Facts\<close>

lemma contains_any_unsafe: "\<not> contains_any u unsafe_chars \<Longrightarrow> newline \<notin> set u \<and> CHR '' '' \<notin> set u \<and> CHR '','' \<notin> set u"
  by (auto simp: contains_any_def unsafe_chars_def list_ex_iff)

lemma newline_not_in: "newline \<notin> set sudoers_comment"
  by (simp add: sudoers_comment_def newline_def char_of_def)

lemma set_join: "set (join_with sep ws) \<subseteq> set sep \<union> (\<Union>w \<in> set ws. set w)"
  by (induction sep ws rule: join_with.induct) auto

lemma Enable_cases:
  assumes "Enable current lookup out1 out2 l fs = (fs', err)"
  obtains (refused) "fs' = fs" "err \<noteq> None"
    | (user) user where "lockdown_user current lookup l = Inr user" "\<not> contains_any user unsafe_chars"
      "out1 \<noteq> FOk" "err \<noteq> None" "fs' = fst (write_file out1 (fst (paths l)) (sudoers_text user (AllowCmds l)) fs)"
    | (both) user where "lockdown_user current lookup l = Inr user" "\<not> contains_any user unsafe_chars" "out1 = FOk"
      "fs' = fst (write_file out2 (snd (paths l)) (user @ [newline])
               (fs\<lparr>fdata := (fdata fs)(fst (paths l) \<mapsto> sudoers_text user (AllowCmds l))\<rparr>))"
      "(err = None) = (out2 = FOk)"
  using assms
  by (cases out1; cases out2) (auto simp: Enable_def write_file_def split: sum.splits if_splits)

lemma Enable_frame:
  assumes "Enable current lookup out1 out2 l fs = (fs', err)" "x \<noteq> fst (paths l)" "x \<noteq> snd (paths l)"
  shows "fdata fs' x = fdata fs x"
  using assms(1) by (cases rule: Enable_cases) (use assms(2,3) in \<open>simp_all add: write_file_fdata\<close>)

section \<open>Properties\<close>

text \<open>The drop-in says what it should and nothing else. When enabling succeeds, the user name is the
  configured, current or runner account, has no space, comma, number sign, tab or newline, and the file has exactly
  three lines, of which the last is either the blanket denial or the list of allowed commands (given
  commands without newlines); the state file names the user; no other file changes.\<close>

theorem Enable_writes_lockdown:
  assumes "Enable current lookup out1 out2 l fs = (fs', None)"
    and "fst (paths l) \<noteq> snd (paths l)" "\<forall>c \<in> set (AllowCmds l). newline \<notin> set c"
  shows "\<exists>user text. lockdown_user current lookup l = Inr user \<and> \<not> contains_any user unsafe_chars
     \<and> fdata fs' = (fdata fs)(fst (paths l) \<mapsto> text, snd (paths l) \<mapsto> user @ [newline])
     \<and> split_on newline text =
        [sudoers_comment, ''Defaults:'' @ user @ '' !authenticate'',
         (if AllowCmds l = [] then user @ '' ALL=(ALL) !ALL''
          else user @ '' ALL=(root) NOPASSWD: '' @ join_with '', '' (AllowCmds l)), []]"
  using assms(1)
proof (cases rule: Enable_cases)
  case (both user)
  have u: "newline \<notin> set user" using both(2) contains_any_unsafe by simp
  let ?l2 = "''Defaults:'' @ user @ '' !authenticate''"
  let ?l3 = "if AllowCmds l = [] then user @ '' ALL=(ALL) !ALL''
    else user @ '' ALL=(root) NOPASSWD: '' @ join_with '', '' (AllowCmds l)"
  have n2: "newline \<notin> set ?l2" using u by (simp add: newline_def)
  have n3: "newline \<notin> set ?l3"
    using u assms(3) set_join [of "'', ''" "AllowCmds l"] by (auto simp: newline_def)
  have t: "sudoers_text user (AllowCmds l) = sudoers_comment @ newline # ?l2 @ newline # ?l3 @ newline # []"
    by (simp add: sudoers_text_def)
  have "split_on newline (sudoers_text user (AllowCmds l)) = [sudoers_comment, ?l2, ?l3, []]"
    unfolding t split_on_append split_on_plain [OF n2] split_on_plain [OF n3] split_on_plain [OF newline_not_in] by simp
  moreover have "fdata fs' = (fdata fs)(fst (paths l) \<mapsto> sudoers_text user (AllowCmds l), snd (paths l) \<mapsto> user @ [newline])"
    using both by (simp add: write_file_def)
  ultimately show ?thesis using both(1,2) by blast
qed simp_all

definition lockdown0 :: Lockdown where
  "lockdown0 = \<lparr>SudoersFile = ''/s'', StateFile = ''/t'', Username = ''runner'', AllowCmds = []\<rparr>"

lemma lockdown0_simps [simp]:
  "paths lockdown0 = (''/s'', ''/t'')" "lockdown_user c lk lockdown0 = Inr ''runner''" "AllowCmds lockdown0 = []"
  "\<not> contains_any ''runner'' unsafe_chars"
  by (simp_all add: lockdown0_def paths_def lockdown_user_def contains_any_def unsafe_chars_def newline_def)

theorem Enable_writes_lockdown_witness:
  "\<exists>text. fdata (fst (Enable (Inr ''root'') (\<lambda>u. False) FOk FOk lockdown0 fs0)) ''/s'' = Some text
     \<and> length (split_on newline text) = 4"
proof -
  have e: "Enable (Inr ''root'') (\<lambda>u. False) FOk FOk lockdown0 fs0
      = (fst (Enable (Inr ''root'') (\<lambda>u. False) FOk FOk lockdown0 fs0), None)"
    by (simp add: Enable_def write_file_def)
  have p: "fst (paths lockdown0) \<noteq> snd (paths lockdown0)" "\<forall>c \<in> set (AllowCmds lockdown0). newline \<notin> set c"
    by simp_all
  from Enable_writes_lockdown [OF e p] show ?thesis by auto
qed



end
