(* ===== verification/DnsRedirect.thy ===== *)
theory DnsRedirect
  imports HostFiles GhaContext "HOL-Library.AList"
begin

text \<open>
  Redirecting DNS to the proxy: the iptables rules of \<^verbatim>\<open>internal/dnsredir/redirect.go\<close> and the docker
  daemon's configuration of \<^verbatim>\<open>internal/dnsredir/docker.go\<close>. The iptables command is a parameter acting on a
  state, and what the agent relies on of it is the locale \<open>nat_table\<close>.
\<close>

section \<open>Redirect\<close>

record Redirect =
  ListenHost :: string
  ListenPort :: string
  backend :: string
  installed :: bool

text \<open>Running a command: the new state, its output, and an error.\<close>

type_synonym 's command = "string \<Rightarrow> string list \<Rightarrow> 's \<Rightarrow> 's \<times> string \<times> string option"

definition rule_args :: "string \<Rightarrow> string \<Rightarrow> string \<Rightarrow> string list" where
  "rule_args op proto dest = [''-t'', ''nat'', op, ''OUTPUT'', ''-p'', proto, ''--dport'', ''53'', ''!'', ''-d'', ''127.0.0.0/8'',
     ''-j'', ''DNAT'', ''--to-destination'', dest]"

definition dest_of :: "Redirect \<Rightarrow> string" where
  "dest_of r = ListenHost r @ '':'' @ ListenPort r"

definition pickIptables :: "(string \<Rightarrow> string option) \<Rightarrow> string + string" where
  "pickIptables LookPath =
     (case LookPath ''iptables-nft'' of Some p \<Rightarrow> Inr p
      | None \<Rightarrow> (case LookPath ''iptables'' of Some p \<Rightarrow> Inr p | None \<Rightarrow> Inl ''iptables not found''))"

definition contains :: "string \<Rightarrow> string \<Rightarrow> bool" where
  "contains s t = sublist t s"

text \<open>\<^verbatim>\<open>Remove\<close>: both rules are deleted; the first error that does not say the rule is gone is reported.\<close>

fun delete_rules :: "'s command \<Rightarrow> string \<Rightarrow> string list list \<Rightarrow> string option \<Rightarrow> 's \<Rightarrow> 's \<times> string option" where
  "delete_rules run b [] first s = (s, first)"
| "delete_rules run b (args # rules) first s =
     (case run b args s of
        (s, out, None) \<Rightarrow> delete_rules run b rules first s
      | (s, out, Some e) \<Rightarrow>
          delete_rules run b rules
            (if first = None \<and> \<not> contains out ''No chain'' \<and> \<not> contains out ''Bad rule''
             then Some (join_with '' '' args @ '': '' @ e @ '' ('' @ trim_space out @ '')'') else first) s)"

definition Remove :: "'s command \<Rightarrow> Redirect \<Rightarrow> 's \<Rightarrow> Redirect \<times> 's \<times> string option" where
  "Remove run r s =
     (if backend r = [] then (r, s, None)
      else case delete_rules run (backend r) [rule_args ''-D'' ''udp'' (dest_of r), rule_args ''-D'' ''tcp'' (dest_of r)] None s of
        (s, err) \<Rightarrow> (r\<lparr>installed := False\<rparr>, s, err))"

fun add_rules :: "'s command \<Rightarrow> Redirect \<Rightarrow> string list list \<Rightarrow> 's \<Rightarrow> Redirect \<times> 's \<times> string option" where
  "add_rules run r [] s = (r, s, None)"
| "add_rules run r (args # rules) s =
     (case run (backend r) args s of
        (s, out, None) \<Rightarrow> add_rules run r rules s
      | (s, out, Some e) \<Rightarrow>
         (case Remove run r s of (r, s, _) \<Rightarrow>
           (r, s, Some (backend r @ '' '' @ join_with '' '' args @ '': '' @ e @ '' ('' @ trim_space out @ '')''))))"

definition flush_args :: "string \<Rightarrow> string list" where
  "flush_args proto = [''-D'', ''-p'', proto, ''--dport'', ''53'']"

definition Enable :: "(string \<Rightarrow> string option) \<Rightarrow> 's command \<Rightarrow> Redirect \<Rightarrow> 's \<Rightarrow> Redirect \<times> 's \<times> string option" where
  "Enable LookPath run r s =
     (let r = (if ListenHost r = [] then r\<lparr>ListenHost := ''127.0.0.1''\<rparr> else r);
          r = (if ListenPort r = [] then r\<lparr>ListenPort := ''53''\<rparr> else r) in
      case pickIptables LookPath of
        Inl e \<Rightarrow> (r, s, Some e)
      | Inr b \<Rightarrow>
         (let r = r\<lparr>backend := b\<rparr> in
          case add_rules run r [rule_args ''-A'' ''udp'' (dest_of r), rule_args ''-A'' ''tcp'' (dest_of r)] s of
            (r, s, Some e) \<Rightarrow> (r, s, Some e)
          | (r, s, None) \<Rightarrow>
             (case run ''conntrack'' (flush_args ''udp'') s of (s, _) \<Rightarrow>
             (case run ''conntrack'' (flush_args ''tcp'') s of (s, _) \<Rightarrow>
               (r\<lparr>installed := True\<rparr>, s, None)))))"

text \<open>The receiver as \<^verbatim>\<open>Enable\<close> fills it in.\<close>

definition prepared :: "string \<Rightarrow> Redirect \<Rightarrow> Redirect" where
  "prepared b r = r\<lparr>ListenHost := (if ListenHost r = [] then ''127.0.0.1'' else ListenHost r),
     ListenPort := (if ListenPort r = [] then ''53'' else ListenPort r), backend := b\<rparr>"

lemma Enable_prepared:
  "pickIptables LookPath = Inr b \<Longrightarrow> Enable LookPath run r s =
     (case add_rules run (prepared b r) [rule_args ''-A'' ''udp'' (dest_of (prepared b r)),
          rule_args ''-A'' ''tcp'' (dest_of (prepared b r))] s of
        (r, s, Some e) \<Rightarrow> (r, s, Some e)
      | (r, s, None) \<Rightarrow>
         (case run ''conntrack'' (flush_args ''udp'') s of (s, _) \<Rightarrow>
         (case run ''conntrack'' (flush_args ''tcp'') s of (s, _) \<Rightarrow> (r\<lparr>installed := True\<rparr>, s, None))))"
  by (simp add: Enable_def prepared_def Let_def)

text \<open>
  What is relied on of iptables: a successful append adds the rule at the end of the chain, a failed one
  adds nothing; deleting a rule that is there removes its first occurrence without an error; one that is not there
  is reported as a bad rule and nothing changes. The conntrack tool does not touch the chain. A rule is
  known by its protocol and destination.
\<close>

locale nat_table =
  fixes run :: "'s command" and chain :: "'s \<Rightarrow> (string \<times> string) list"
  assumes append: "b \<noteq> ''conntrack'' \<Longrightarrow> run b (rule_args ''-A'' proto dest) s = (s', out, err) \<Longrightarrow>
      chain s' = (if err = None then chain s @ [(proto, dest)] else chain s)"
    and delete: "b \<noteq> ''conntrack'' \<Longrightarrow> run b (rule_args ''-D'' proto dest) s = (s', out, err) \<Longrightarrow>
      chain s' = remove1 (proto, dest) (chain s)
      \<and> (if (proto, dest) \<in> set (chain s) then err = None else err \<noteq> None \<and> contains out ''Bad rule'')"
    and flush: "run ''conntrack'' args s = (s', out, err) \<Longrightarrow> chain s' = chain s"
begin

lemma Remove_chain:
  assumes "Remove run r s = (r', s', err)" "backend r \<noteq> []" "backend r \<noteq> ''conntrack''"
  shows "chain s' = remove1 (''tcp'', dest_of r) (remove1 (''udp'', dest_of r) (chain s)) \<and> err = None"
  using assms
  by (auto simp: Remove_def dest: delete split: prod.splits option.splits if_splits)
     (metis delete option.distinct(1))+

lemma add_two:
  assumes "add_rules run r [rule_args ''-A'' ''udp'' (dest_of r), rule_args ''-A'' ''tcp'' (dest_of r)] s = (r', s', err)"
    and "backend r \<noteq> []" "backend r \<noteq> ''conntrack''"
  shows "err = None \<Longrightarrow> r' = r \<and> chain s' = chain s @ [(''udp'', dest_of r), (''tcp'', dest_of r)]"
    and "err \<noteq> None \<Longrightarrow> (''udp'', dest_of r) \<notin> set (chain s) \<Longrightarrow> (''tcp'', dest_of r) \<notin> set (chain s) \<Longrightarrow>
      chain s' = chain s"
proof -
  obtain s1 out1 e1 where r1: "run (backend r) (rule_args ''-A'' ''udp'' (dest_of r)) s = (s1, out1, e1)" by (metis prod_cases3)
  note c1 = append [OF assms(3) r1]
  obtain s2 out2 e2 where r2: "run (backend r) (rule_args ''-A'' ''tcp'' (dest_of r)) s1 = (s2, out2, e2)" by (metis prod_cases3)
  note c2 = append [OF assms(3) r2]
  show "r' = r \<and> chain s' = chain s @ [(''udp'', dest_of r), (''tcp'', dest_of r)]" if "err = None"
    using that assms(1) c1 c2 by (auto simp: r1 r2 split: option.splits prod.splits)
  show "chain s' = chain s" if "err \<noteq> None" "(''udp'', dest_of r) \<notin> set (chain s)" "(''tcp'', dest_of r) \<notin> set (chain s)"
  proof (cases e1)
    case (Some e)
    note new = that
    from Some obtain rr where "Remove run r s1 = (rr, s', snd (snd (Remove run r s1)))"
      using assms(1) by (auto simp: r1 split: prod.splits)
    from Remove_chain [OF this assms(2,3)] c1 Some new(2,3) show ?thesis by (simp add: remove1_idem)
  next
    case None
    note new = that
    from None obtain e where e: "e2 = Some e" using assms(1) new(1) by (cases e2) (auto simp: r1 r2)
    then obtain rr where "Remove run r s2 = (rr, s', snd (snd (Remove run r s2)))"
      using assms(1) None by (auto simp: r1 r2 split: prod.splits)
    from Remove_chain [OF this assms(2,3)] c1 c2 None e new(2,3) show ?thesis
      by (simp add: remove1_append remove1_idem)
  qed
qed

lemma Enable_chain:
  assumes "pickIptables LookPath = Inr b" "b \<noteq> []" "b \<noteq> ''conntrack''" "Enable LookPath run r s = (r', s', err)"
  shows "err = None \<Longrightarrow> r' = (prepared b r)\<lparr>installed := True\<rparr>
      \<and> chain s' = chain s @ [(''udp'', dest_of r'), (''tcp'', dest_of r')]"
    and "err \<noteq> None \<Longrightarrow> (''udp'', dest_of (prepared b r)) \<notin> set (chain s) \<Longrightarrow>
      (''tcp'', dest_of (prepared b r)) \<notin> set (chain s) \<Longrightarrow> chain s' = chain s"
proof -
  let ?r = "prepared b r"
  have b: "backend ?r \<noteq> []" "backend ?r \<noteq> ''conntrack''" using assms(2,3) by (simp_all add: prepared_def)
  obtain r1 s1 e1 where a: "add_rules run ?r [rule_args ''-A'' ''udp'' (dest_of ?r), rule_args ''-A'' ''tcp'' (dest_of ?r)] s
      = (r1, s1, e1)" by (metis prod_cases3)
  obtain s2 o2 where f2: "run ''conntrack'' (flush_args ''udp'') s1 = (s2, o2)" by (metis surj_pair)
  obtain s3 o3 where f3: "run ''conntrack'' (flush_args ''tcp'') s2 = (s3, o3)" by (metis surj_pair)
  have f: "chain s3 = chain s1"
    using flush f2 f3 by (metis surj_pair)
  have d: "dest_of (?r\<lparr>installed := True\<rparr>) = dest_of ?r" by (simp add: dest_of_def)
  show "r' = ?r\<lparr>installed := True\<rparr> \<and> chain s' = chain s @ [(''udp'', dest_of r'), (''tcp'', dest_of r')]"
    if "err = None"
    using that assms(4) add_two(1) [OF a b] d f
    by (auto simp: Enable_prepared [OF assms(1)] a f2 f3 simp del: add_rules.simps split: option.splits)
  show "chain s' = chain s" if "err \<noteq> None" "(''udp'', dest_of ?r) \<notin> set (chain s)" "(''tcp'', dest_of ?r) \<notin> set (chain s)"
    using that assms(4) add_two(2) [OF a b]
    by (auto simp: Enable_prepared [OF assms(1)] a f2 f3 simp del: add_rules.simps split: option.splits)
qed

end

text \<open>A chain as its own state: what iptables does when nothing fails.\<close>

definition ref_run :: "(string \<times> string) list command" where
  "ref_run b args s =
     (if b = ''conntrack'' then (s, [], None)
      else let rl = (args ! 5, args ! 14) in
        if args ! 2 = ''-A'' then (s @ [rl], [], None)
        else if rl \<in> set s then (remove1 rl s, [], None)
        else (s, ''iptables: Bad rule (does a matching rule exist in that chain?).'', Some ''exit status 1''))"

lemma ref_bad_rule: "contains ''iptables: Bad rule (does a matching rule exist in that chain?).'' ''Bad rule''"
  by code_simp

interpretation refnat: nat_table ref_run "\<lambda>s. s"
  by unfold_locales (auto simp: ref_run_def rule_args_def Let_def ref_bad_rule remove1_idem split: if_splits)

lemma ref_nat_table: "nat_table ref_run (\<lambda>s. s)"
  by (rule refnat.nat_table_axioms)

section \<open>Docker\<close>

record DockerDNS =
  DaemonJSON :: string
  DNS :: "string list"
  backup :: string
  hadFile :: bool
  enabled :: bool

definition DefaultDockerDaemonJSON :: string where
  "DefaultDockerDaemonJSON = ''/etc/docker/daemon.json''"

text \<open>The JSON codec is a parameter: decoding into a map yields \<open>None\<close>, the nil map, for the text \<^verbatim>\<open>null\<close>; assigning to
  a nil map panics. \<open>rerr\<close> is an error of reading other than the file's absence.\<close>

record 'n daemon_codec =
  dc_unmarshal :: "string \<Rightarrow> string + (string \<times> 'n json) list option"
  dc_marshal :: "(string \<times> 'n json) list \<Rightarrow> string + string"

definition docker_path :: "DockerDNS \<Rightarrow> string" where
  "docker_path d = (if DaemonJSON d = [] then DefaultDockerDaemonJSON else DaemonJSON d)"

definition docker_Enable :: "'n daemon_codec \<Rightarrow> string option \<Rightarrow> file_outcome \<Rightarrow> DockerDNS \<Rightarrow> osfs \<Rightarrow>
    (DockerDNS \<times> osfs \<times> string option) option" where
  "docker_Enable C rerr out d fs =
     (let path = docker_path d; d = d\<lparr>DaemonJSON := path\<rparr> in
      if DNS d = [] then Some (d, fs, Some ''docker dns list empty'')
      else case rerr of
        Some e \<Rightarrow> Some (d, fs, Some e)
      | None \<Rightarrow>
         (case (case fdata fs path of
              None \<Rightarrow> (d, Some [])
            | Some b \<Rightarrow> (d\<lparr>hadFile := True, backup := b\<rparr>, (case dc_unmarshal C b of Inl e \<Rightarrow> Some [] | Inr cfg \<Rightarrow> cfg))) of
            (d, None) \<Rightarrow> None
          | (d, Some cfg) \<Rightarrow>
             (case dc_marshal C (AList.update ''dns'' (JArr (map JStr (DNS d))) cfg) of
                Inl e \<Rightarrow> Some (d, fs, Some e)
              | Inr text \<Rightarrow>
                 (case write_file out path (text @ [newline]) fs of
                    (fs, Some e) \<Rightarrow> Some (d, fs, Some e)
                  | (fs, None) \<Rightarrow> Some (d\<lparr>enabled := True\<rparr>, fs, None)))))"

definition docker_Disable :: "file_outcome \<Rightarrow> DockerDNS \<Rightarrow> osfs \<Rightarrow> osfs \<times> string option" where
  "docker_Disable out d fs =
     (if \<not> enabled d then (fs, None)
      else if hadFile d then write_file out (DaemonJSON d) (backup d) fs
      else (remove_file (DaemonJSON d) fs, remove_error (DaemonJSON d) fs))"

lemma docker_Enable_ok:
  assumes "docker_Enable C rerr FOk d fs = Some (d1, fs1, None)"
  shows "\<exists>body. fs1 = fs\<lparr>fdata := (fdata fs)(docker_path d \<mapsto> body)\<rparr>" "DaemonJSON d1 = docker_path d" "enabled d1"
    "case fdata fs (docker_path d) of None \<Rightarrow> hadFile d1 = hadFile d | Some b \<Rightarrow> hadFile d1 \<and> backup d1 = b"
  using assms
  by (auto simp: docker_Enable_def Let_def write_file_def split: if_splits option.splits sum.splits prod.splits)

text \<open>An \<^verbatim>\<open>Enable\<close> that fails is never undone, not even when it fails after the file has been cut short.\<close>

lemma docker_failed_stays:
  "docker_Enable C rerr out d fs = Some (d1, fs1, Some e) \<Longrightarrow> \<not> enabled d \<Longrightarrow> docker_Disable out2 d1 fs1 = (fs1, None)"
  by (auto simp: docker_Enable_def docker_Disable_def Let_def split: if_splits option.splits sum.splits prod.splits)

lemma docker_partial_write:
  assumes "dc_unmarshal C b = Inr (Some cfg)" "dc_marshal C (AList.update ''dns'' (JArr (map JStr (DNS d))) cfg) = Inr text"
    and "fdata fs (docker_path d) = Some b" "DNS d \<noteq> []" "\<not> enabled d"
  shows "\<exists>d1 fs1. docker_Enable C None (FWriteErr n e) d fs = Some (d1, fs1, Some e)
    \<and> fdata (fst (docker_Disable FOk d1 fs1)) (docker_path d) = Some (take n (text @ [newline]))"
  using assms by (simp add: docker_Enable_def docker_Disable_def Let_def write_file_def)

section \<open>Properties\<close>


definition redirect0 :: Redirect where
  "redirect0 = \<lparr>ListenHost = ''127.0.0.1'', ListenPort = ''53'', backend = [], installed = False\<rparr>"


text \<open>C39: The docker configuration is restored once. If a fresh \<^verbatim>\<open>Enable\<close> succeeds, a working \<^verbatim>\<open>Disable\<close> gives back
  the file system as it was, whether or not the file existed; but a second successful \<^verbatim>\<open>Enable\<close> in between
  makes the agent's own file the backup, and a file holding \<^verbatim>\<open>null\<close> makes \<^verbatim>\<open>Enable\<close> panic.\<close>

theorem docker_restore:
  assumes "docker_Enable C rerr FOk d fs = Some (d1, fs1, None)" "\<not> hadFile d"
  shows "fdata (fst (docker_Disable FOk d1 fs1)) = fdata fs
     \<and> (docker_Enable C rerr2 FOk d1 fs1 = Some (d2, fs2, None) \<longrightarrow>
         fdata (fst (docker_Disable FOk d2 fs2)) (docker_path d) = fdata fs1 (docker_path d))
     \<and> (fdata fs (docker_path d) = Some b \<and> DNS d \<noteq> [] \<longrightarrow>
         docker_Enable (C\<lparr>dc_unmarshal := (\<lambda>_. Inr None)\<rparr>) None FOk d fs = None)"
proof (intro conjI impI)
  note e = docker_Enable_ok [OF assms(1)]
  obtain body where fs1: "fs1 = fs\<lparr>fdata := (fdata fs)(docker_path d \<mapsto> body)\<rparr>"
    using e(1) by blast
  show "fdata (fst (docker_Disable FOk d1 fs1)) = fdata fs"
    using e(2-4) assms(2) by (cases "fdata fs (docker_path d)")
      (auto simp: docker_Disable_def fs1 write_file_def remove_file_def fun_eq_iff)
  assume "docker_Enable C rerr2 FOk d1 fs1 = Some (d2, fs2, None)"
  note e2 = docker_Enable_ok [OF this]
  have p: "docker_path d1 = docker_path d" using e(2) by (simp add: docker_path_def)
  show "fdata (fst (docker_Disable FOk d2 fs2)) (docker_path d) = fdata fs1 (docker_path d)"
    using e2(2-4) by (simp add: docker_Disable_def write_file_def fs1 p)
next
  assume "fdata fs (docker_path d) = Some b \<and> DNS d \<noteq> []"
  then show "docker_Enable (C\<lparr>dc_unmarshal := (\<lambda>_. Inr None)\<rparr>) None FOk d fs = None"
    by (simp add: docker_Enable_def Let_def)
qed

definition codec0 :: "int daemon_codec" where
  "codec0 = \<lparr>dc_unmarshal = (\<lambda>b. Inr (Some [])), dc_marshal = (\<lambda>m. Inr ''{}'')\<rparr>"

definition docker0 :: DockerDNS where
  "docker0 = \<lparr>DaemonJSON = ''/d'', DNS = [''127.0.0.1''], backup = [], hadFile = False, enabled = False\<rparr>"

theorem docker_restore_witness:
  "\<exists>d1 fs1. docker_Enable codec0 None FOk docker0 (fs0\<lparr>fdata := [''/d'' \<mapsto> ''x'']\<rparr>) = Some (d1, fs1, None)
     \<and> fdata fs1 ''/d'' \<noteq> Some ''x'' \<and> fdata (fst (docker_Disable FOk d1 fs1)) ''/d'' = Some ''x''"
proof -
  obtain d1 fs1 where r: "docker_Enable codec0 None FOk docker0 (fs0\<lparr>fdata := [''/d'' \<mapsto> ''x'']\<rparr>) = Some (d1, fs1, None)"
    "fdata fs1 ''/d'' = Some (''{}'' @ [newline])"
    by (simp add: docker_Enable_def docker0_def codec0_def docker_path_def write_file_def Let_def)
  have "\<not> hadFile docker0" by (simp add: docker0_def)
  from docker_restore [OF r(1) this] r show ?thesis by simp
qed

end
