(* ===== verification/Dedupe.thy ===== *)
theory Dedupe
  imports Prelude "HOL-Library.AList"
begin

text \<open>
  The event coalescer of \<^verbatim>\<open>internal/dedupe/cache.go\<close>. Time is in nanoseconds, read from the monotonic
  clock that \<^verbatim>\<open>time.Now\<close> attaches; the Go map \<^verbatim>\<open>seen\<close> is an association list with distinct keys.
\<close>

section \<open>Operations\<close>

record Key =
  PID :: u32
  Dst :: string
  Dport :: u16
  Proto :: u8
  Allowed :: u8
  Kind :: u8

record Cache =
  ttl :: int
  seen :: "(Key \<times> int) list"

definition Second :: int where
  "Second = 1000000000"

definition New :: "int \<Rightarrow> Cache" where
  "New d = \<lparr>ttl = (if d \<le> 0 then 5 * Second else d), seen = []\<rparr>"

definition gcLocked :: "Cache \<Rightarrow> int \<Rightarrow> Cache" where
  "gcLocked c now = c\<lparr>seen := filter (\<lambda>(k, t). \<not> now - t \<ge> ttl c) (seen c)\<rparr>"

definition ShouldEmit :: "Cache \<Rightarrow> Key \<Rightarrow> int \<Rightarrow> bool \<times> Cache" where
  "ShouldEmit c k now =
     (if (case map_of (seen c) k of Some t \<Rightarrow> now - t < ttl c | None \<Rightarrow> False) then (False, c)
      else (let c' = c\<lparr>seen := AList.update k now (seen c)\<rparr>
            in (True, if length (seen c') > 10000 then gcLocked c' now else c')))"

section \<open>The coalescing contract\<close>

text \<open>The events a filter with state lets through, for a timed sequence of keys.\<close>

fun emitted_by :: "('s \<Rightarrow> 'k \<Rightarrow> int \<Rightarrow> bool \<times> 's) \<Rightarrow> 's \<Rightarrow> ('k \<times> int) list \<Rightarrow> ('k \<times> int) list" where
  "emitted_by step s [] = []"
| "emitted_by step s ((k, now) # evs) =
     (if fst (step s k now) then (k, now) # emitted_by step (snd (step s k now)) evs
      else emitted_by step (snd (step s k now)) evs)"

text \<open>The abstract filter: it remembers the last emission of every key, for ever.\<close>

definition spec_step :: "int \<Rightarrow> ('k \<rightharpoonup> int) \<Rightarrow> 'k \<Rightarrow> int \<Rightarrow> bool \<times> ('k \<rightharpoonup> int)" where
  "spec_step d m k now =
     (case m k of Some t \<Rightarrow> if now - t < d then (False, m) else (True, m(k \<mapsto> now))
      | None \<Rightarrow> (True, m(k \<mapsto> now)))"

locale coalescer =
  fixes step :: "'s \<Rightarrow> 'k \<Rightarrow> int \<Rightarrow> bool \<times> 's"
    and d :: int
    and repr :: "int \<Rightarrow> 's \<Rightarrow> ('k \<rightharpoonup> int) \<Rightarrow> bool"
  assumes step_emit: "repr clk s m \<Longrightarrow> clk \<le> now \<Longrightarrow> fst (step s k now) = fst (spec_step d m k now)"
    and step_repr: "repr clk s m \<Longrightarrow> clk \<le> now \<Longrightarrow>
      repr now (snd (step s k now)) (snd (spec_step d m k now))"
begin

lemma refines_spec:
  "repr clk s m \<Longrightarrow> sorted (clk # map snd evs) \<Longrightarrow>
   emitted_by step s evs = emitted_by (spec_step d) m evs"
proof (induction evs arbitrary: clk s m)
  case (Cons e evs)
  obtain k now where e: "e = (k, now)" by (cases e)
  have "emitted_by step (snd (step s k now)) evs
      = emitted_by (spec_step d) (snd (spec_step d m k now)) evs"
    using Cons.prems by (intro Cons.IH [OF step_repr [OF Cons.prems(1)]]) (auto simp: e)
  with Cons.prems show ?case by (simp add: e step_emit)
qed simp

end

lemma emitted_by_subset: "set (emitted_by step s evs) \<subseteq> set evs"
proof (induction evs arbitrary: s)
  case (Cons e evs)
  then show ?case by (cases e) (simp add: subset_insertI2)
qed simp

lemma spec_spaced_from:
  "sorted (map snd evs) \<Longrightarrow>
   sorted_wrt (\<lambda>(k, t) (k', t'). k = k' \<longrightarrow> d \<le> t' - t) (emitted_by (spec_step d) m evs)
   \<and> (\<forall>(k, t) \<in> set (emitted_by (spec_step d) m evs). \<forall>t0. m k = Some t0 \<longrightarrow> t0 \<le> t \<longrightarrow> d \<le> t - t0)"
proof (induction evs arbitrary: m)
  case (Cons e evs)
  obtain k now where e: "e = (k, now)" by (cases e)
  define m' where "m' = snd (spec_step d m k now)"
  from Cons.prems have IH:
    "sorted_wrt (\<lambda>(k, t) (k', t'). k = k' \<longrightarrow> d \<le> t' - t) (emitted_by (spec_step d) m' evs)"
    "(k', t) \<in> set (emitted_by (spec_step d) m' evs) \<Longrightarrow> m' k' = Some t0 \<Longrightarrow> t0 \<le> t \<Longrightarrow> d \<le> t - t0"
    for k' t t0
    using Cons.IH [of m'] by (auto simp: e)
  have later: "now \<le> t" if "(k', t) \<in> set (emitted_by (spec_step d) m' evs)" for k' t
    using that Cons.prems emitted_by_subset [of "spec_step d" m' evs] by (force simp: e)
  have m': "m' k' = (if k' = k \<and> fst (spec_step d m k now) then Some now else m k')" for k'
    by (auto simp: m'_def spec_step_def split: option.splits)
  show ?case
  proof (cases "fst (spec_step d m k now)")
    case True
    have old: "d \<le> now - t0" if "m k = Some t0" for t0
      using True that by (auto simp: spec_step_def split: if_splits)
    have ev: "emitted_by (spec_step d) m (e # evs) = (k, now) # emitted_by (spec_step d) m' evs"
      using True by (simp add: e m'_def)
    have after: "d \<le> t - t0"
      if "(k', t) \<in> set (emitted_by (spec_step d) m' evs)" "m k' = Some t0" "t0 \<le> t" for k' t t0
    proof (cases "k' = k")
      case True
      with old that later [OF that(1)] show ?thesis by fastforce
    next
      case False
      with IH(2) [OF that(1)] that(2,3) m' show ?thesis by simp
    qed
    have next_k: "d \<le> t - now" if "(k, t) \<in> set (emitted_by (spec_step d) m' evs)" for t
      using IH(2) [OF that] later [OF that] True m' by simp
    show ?thesis
      unfolding ev using IH(1) old after next_k by (auto split: prod.splits)
  next
    case False
    with IH m' show ?thesis by (auto simp: e simp flip: m'_def)
  qed
qed simp

lemma spec_covers:
  "sorted (map snd evs) \<Longrightarrow> (k, t) \<in> set evs \<Longrightarrow> 0 < d \<Longrightarrow>
   (\<exists>t'. (k, t') \<in> set (emitted_by (spec_step d) m evs) \<and> t' \<le> t \<and> t < t' + d)
   \<or> (\<exists>t0. m k = Some t0 \<and> t < t0 + d)"
proof (induction evs arbitrary: m)
  case (Cons e evs)
  obtain k1 now where e: "e = (k1, now)" by (cases e)
  show ?case
  proof (cases "(k, t) = e")
    case True
    with e Cons.prems(3) show ?thesis
      by (cases "m k") (auto simp: spec_step_def)
  next
    case False
    with Cons.prems have t: "(k, t) \<in> set evs" "now \<le> t" by (auto simp: e)
    with Cons.IH [of "snd (spec_step d m k1 now)"] Cons.prems(1,3)
    consider t' where "(k, t') \<in> set (emitted_by (spec_step d) (snd (spec_step d m k1 now)) evs)"
        "t' \<le> t" "t < t' + d"
      | t0 where "snd (spec_step d m k1 now) k = Some t0" "t < t0 + d"
      by auto
    then show ?thesis
    proof cases
      case 1
      then show ?thesis by (auto simp: e)
    next
      case 2
      with t(2) show ?thesis
        by (auto simp: e spec_step_def split: option.splits if_splits)
    qed
  qed
qed simp

section \<open>The cache keeps the contract\<close>

text \<open>A cache stands for a last-emission map when it agrees with it on every entry that is not yet
  stale: the collector may have dropped stale ones.\<close>

definition cache_repr :: "int \<Rightarrow> int \<Rightarrow> Cache \<Rightarrow> (Key \<rightharpoonup> int) \<Rightarrow> bool" where
  "cache_repr d clk c m \<longleftrightarrow> ttl c = d \<and> distinct (map fst (seen c)) \<and>
     (\<forall>k. map_of (seen c) k = m k
        \<or> map_of (seen c) k = None \<and> (\<exists>t. m k = Some t \<and> d \<le> clk - t))"

lemma map_of_filter_distinct:
  "distinct (map fst al) \<Longrightarrow>
   map_of (filter (\<lambda>(k, t). P t) al) k = (case map_of al k of Some t \<Rightarrow> if P t then Some t else None | None \<Rightarrow> None)"
proof (induction al)
  case (Cons a al)
  then show ?case by (cases a) (auto simp: map_of_eq_None_iff split: option.splits)
qed simp

lemma map_of_gcLocked:
  "distinct (map fst (seen c)) \<Longrightarrow> map_of (seen (gcLocked c now)) k =
     (case map_of (seen c) k of Some t \<Rightarrow> if now - t < ttl c then Some t else None | None \<Rightarrow> None)"
  by (simp add: gcLocked_def not_le map_of_filter_distinct)

lemma distinct_gcLocked: "distinct (map fst (seen c)) \<Longrightarrow> distinct (map fst (seen (gcLocked c now)))"
  by (simp add: gcLocked_def distinct_map_filter)

lemma ttl_gcLocked [simp]: "ttl (gcLocked c now) = ttl c"
  by (simp add: gcLocked_def)

lemma cache_reprI:
  "ttl c = d \<Longrightarrow> distinct (map fst (seen c)) \<Longrightarrow>
   (\<And>k. map_of (seen c) k = m k \<or> map_of (seen c) k = None \<and> (\<exists>t. m k = Some t \<and> d \<le> clk - t)) \<Longrightarrow>
   cache_repr d clk c m"
  by (simp add: cache_repr_def)

lemma cache_reprD:
  assumes "cache_repr d clk c m"
  shows "ttl c = d" "distinct (map fst (seen c))"
    "map_of (seen c) k = m k \<or> map_of (seen c) k = None \<and> (\<exists>t. m k = Some t \<and> d \<le> clk - t)"
  using assms by (simp_all add: cache_repr_def)

lemma cache_repr_gc:
  assumes "cache_repr d now c m"
  shows "cache_repr d now (gcLocked c now) m"
proof (rule cache_reprI)
  fix k
  show "map_of (seen (gcLocked c now)) k = m k
      \<or> map_of (seen (gcLocked c now)) k = None \<and> (\<exists>t. m k = Some t \<and> d \<le> now - t)"
    using cache_reprD [OF assms] cache_reprD(3) [OF assms, where k = k] by (cases "m k") (auto simp: map_of_gcLocked split: if_splits)
qed (use cache_reprD [OF assms] in \<open>simp_all add: distinct_gcLocked\<close>)

lemma cache_repr_later:
  assumes "cache_repr d clk c m" "clk \<le> now"
  shows "cache_repr d now c m"
proof (rule cache_reprI)
  fix k
  show "map_of (seen c) k = m k \<or> map_of (seen c) k = None \<and> (\<exists>t. m k = Some t \<and> d \<le> now - t)"
    using cache_reprD(3) [OF assms(1), where k = k] assms(2) by fastforce
qed (use cache_reprD [OF assms(1)] in simp_all)

lemma cache_repr_update:
  assumes "cache_repr d clk c m" "clk \<le> now"
  shows "cache_repr d now (c\<lparr>seen := AList.update k now (seen c)\<rparr>) (m(k \<mapsto> now))"
proof (rule cache_reprI)
  fix k'
  let ?c = "c\<lparr>seen := AList.update k now (seen c)\<rparr>"
  show "map_of (seen ?c) k' = (m(k \<mapsto> now)) k'
      \<or> map_of (seen ?c) k' = None \<and> (\<exists>t. (m(k \<mapsto> now)) k' = Some t \<and> d \<le> now - t)"
    using cache_reprD(3) [OF cache_repr_later [OF assms], where k = k'] by (simp add: update_conv)
qed (use cache_reprD [OF assms(1)] in \<open>simp_all add: distinct_update\<close>)

lemma ShouldEmit_spec:
  assumes "cache_repr d clk c m" "clk \<le> now"
  shows "fst (ShouldEmit c k now) = fst (spec_step d m k now)"
    and "cache_repr d now (snd (ShouldEmit c k now)) (snd (spec_step d m k now))"
proof -
  have hit: "(case map_of (seen c) k of Some t \<Rightarrow> now - t < ttl c | None \<Rightarrow> False) = (\<not> fst (spec_step d m k now))"
    using cache_reprD(1) [OF assms(1)] cache_reprD(3) [OF assms(1), where k = k] assms(2) by (cases "m k") (auto simp: spec_step_def)
  then show "fst (ShouldEmit c k now) = fst (spec_step d m k now)"
    by (simp add: ShouldEmit_def Let_def)
  show "cache_repr d now (snd (ShouldEmit c k now)) (snd (spec_step d m k now))"
  proof (cases "fst (spec_step d m k now)")
    case True
    then have m': "snd (spec_step d m k now) = m(k \<mapsto> now)"
      by (auto simp: spec_step_def split: option.splits if_splits)
    show ?thesis
      using True cache_repr_update [OF assms, of k] hit m'
      by (auto simp: ShouldEmit_def Let_def intro: cache_repr_gc)
  next
    case False
    then have m': "snd (spec_step d m k now) = m"
      by (auto simp: spec_step_def split: option.splits if_splits)
    show ?thesis
      using False hit m' cache_repr_later [OF assms] by (simp add: ShouldEmit_def)
  qed
qed

interpretation cache: coalescer ShouldEmit d "cache_repr d" for d
  by unfold_locales (rule ShouldEmit_spec; assumption)+

lemma cache_repr_New: "cache_repr (ttl (New d)) clk (New d) Map.empty"
  by (simp add: cache_repr_def New_def)

lemma ttl_New_pos: "0 < ttl (New d)"
  by (simp add: New_def Second_def)

lemma cache_emitted:
  "sorted (map snd evs) \<Longrightarrow>
   emitted_by ShouldEmit (New d) evs = emitted_by (spec_step (ttl (New d))) Map.empty evs"
proof (cases evs)
  case (Cons e es)
  assume "sorted (map snd evs)"
  then have "sorted (snd e # map snd evs)" using Cons by auto
  then show ?thesis by (rule cache.refines_spec [OF cache_repr_New])
qed simp

section \<open>Properties\<close>

text \<open>A key for the examples below.\<close>

definition sample_key :: Key where
  "sample_key = \<lparr>PID = 1, Dst = ''1.2.3.4'', Dport = 443, Proto = 6, Allowed = 0, Kind = 0\<rparr>"

text \<open>C26: The bounded cache is indistinguishable from an unbounded memory. For a sequence of keys with
  non-decreasing times, a fresh cache lets through exactly the events that a filter remembering the
  last emission of every key for ever lets through: the collection that runs above 10000 entries
  never changes an answer.\<close>

theorem ShouldEmit_refines_unbounded:
  assumes "sorted (map snd evs)"
  shows "emitted_by ShouldEmit (New d) evs = emitted_by (spec_step (ttl (New d))) Map.empty evs"
  by (rule cache_emitted [OF assms])

theorem ShouldEmit_refines_unbounded_witness:
  "emitted_by ShouldEmit (New 10) [(sample_key, 0), (sample_key, 9), (sample_key, 10)] = [(sample_key, 0), (sample_key, 10)]"
proof -
  have "sorted (map snd [(sample_key, 0), (sample_key, 9), (sample_key, 10 :: int)])" by simp
  from ShouldEmit_refines_unbounded [OF this, of 10]
  show ?thesis by (simp add: spec_step_def New_def)
qed

text \<open>Events that get through are spaced: two emissions of the same key are at least one TTL apart.\<close>

theorem ShouldEmit_spaced:
  assumes "sorted (map snd evs)"
  shows "sorted_wrt (\<lambda>(k, t) (k', t'). k = k' \<longrightarrow> ttl (New d) \<le> t' - t)
           (emitted_by ShouldEmit (New d) evs)"
  using spec_spaced_from [OF assms, of "ttl (New d)" Map.empty] by (simp add: cache_emitted [OF assms])

theorem ShouldEmit_spaced_witness:
  "emitted_by ShouldEmit (New 10) [(sample_key, 0), (sample_key, 9), (sample_key, 10)]
     = [(sample_key, 0), (sample_key, 10)] \<and> ttl (New 10) \<le> 10 - 0"
proof -
  have "sorted (map snd [(sample_key, 0), (sample_key, 9), (sample_key, 10 :: int)])" by simp
  from ShouldEmit_spaced [OF this, of 10]
  show ?thesis by (simp add: New_def ShouldEmit_def)
qed

text \<open>Nothing is lost for longer than one TTL: for every event of the sequence, one with the same key
  got through no later than it and less than one TTL before it.\<close>

theorem ShouldEmit_covers:
  assumes "sorted (map snd evs)" "(k, t) \<in> set evs"
  shows "\<exists>t'. (k, t') \<in> set (emitted_by ShouldEmit (New d) evs) \<and> t' \<le> t \<and> t < t' + ttl (New d)"
  using spec_covers [OF assms ttl_New_pos [of d], of Map.empty] by (simp add: cache_emitted [OF assms(1)])

theorem ShouldEmit_covers_witness:
  "\<exists>t'. (sample_key, t') \<in> set (emitted_by ShouldEmit (New 10) [(sample_key, 0), (sample_key, 9)]) \<and> t' \<le> 9 \<and> 9 < t' + ttl (New 10)"
proof -
  have "sorted (map snd [(sample_key, 0), (sample_key, 9 :: int)])" by simp
  from ShouldEmit_covers [OF this, of sample_key 9 10] show ?thesis by simp
qed

text \<open>Memory after a store: when a key is recorded, the cache ends up with at most 10000 entries or
  with fresh entries only. (So the bound is on stale entries; a burst of more than 10000 live keys is
  kept in full.)\<close>

theorem ShouldEmit_size:
  assumes "fst (ShouldEmit c k now)"
  shows "length (seen (snd (ShouldEmit c k now))) \<le> 10000
       \<or> list_all (\<lambda>(k', t). now - t < ttl c) (seen (snd (ShouldEmit c k now)))"
  using assms by (auto simp: ShouldEmit_def Let_def gcLocked_def list_all_iff split: if_splits)

theorem ShouldEmit_size_witness:
  "length (seen (snd (ShouldEmit (New 10) sample_key 0))) \<le> 10000
       \<or> list_all (\<lambda>(k', t). 0 - t < ttl (New 10)) (seen (snd (ShouldEmit (New 10) sample_key 0)))"
  by (rule ShouldEmit_size) (simp add: ShouldEmit_def New_def)

end
