(* ===== verification/BpfEvents.thy ===== *)
theory BpfEvents
  imports CensorBpf NetAddr Dedupe EventLog
begin

text \<open>
  The path of an event from the ring buffer to the log: the memory image of the kernel's record, the
  reader goroutine of \<^verbatim>\<open>internal/ebpf/attach_linux.go\<close> with its bounded channel, and the consumer of
  \<^verbatim>\<open>internal/agent/events.go\<close>. What the consumer asks of its surroundings (clocks, \<^verbatim>\<open>/proc\<close>, the outcome of
  a write) is a record given for each event.
\<close>

section \<open>The record in memory\<close>

text \<open>\<^verbatim>\<open>struct event\<close> has 46 bytes of fields; its alignment is 4, so \<^verbatim>\<open>sizeof\<close> is 48, and \<^verbatim>\<open>emit\<close> has zeroed
  the record.\<close>

definition event_bytes :: "endian \<Rightarrow> event \<Rightarrow> bytes" where
  "event_bytes en e = mem32 en (e_pid e) @ mem32 en (e_dst_v4 e) @ concat (map (mem32 en) (e_dst_v6 e))
     @ mem16 en (e_dport e) @ [e_proto e, e_allowed e, e_family e, e_kind e] @ e_comm e @ [0, 0]"

definition event_wf :: "event \<Rightarrow> bool" where
  "event_wf e \<longleftrightarrow> length (e_dst_v6 e) = 4 \<and> length (e_comm e) = 16"

section \<open>The reader\<close>

record RawEvent =
  r_PID :: u32
  r_DstV4 :: u32
  r_DstV6 :: "u32 list"
  r_Dport :: u16
  r_Proto :: u8
  r_Allowed :: u8
  r_Family :: u8
  r_Kind :: u8
  r_Comm :: bytes

text \<open>One sample: \<open>Some None\<close> is a sample too short to be an event, which is skipped.\<close>

definition read_sample :: "bytes \<Rightarrow> RawEvent option option" where
  "read_sample raw =
     (if length raw < 46 then Some None
      else do {
        s0 \<leftarrow> slice raw 0 4; pid \<leftarrow> get_le32 s0;
        s1 \<leftarrow> slice raw 4 4; v4 \<leftarrow> get_le32 s1;
        s2 \<leftarrow> slice raw 24 2; dport \<leftarrow> get_le16 s2;
        proto \<leftarrow> ld8 raw 26;
        allowed \<leftarrow> ld8 raw 27;
        family \<leftarrow> ld8 raw 28;
        kind \<leftarrow> ld8 raw 29;
        t0 \<leftarrow> slice raw 8 4; w0 \<leftarrow> get_le32 t0;
        t1 \<leftarrow> slice raw 12 4; w1 \<leftarrow> get_le32 t1;
        t2 \<leftarrow> slice raw 16 4; w2 \<leftarrow> get_le32 t2;
        t3 \<leftarrow> slice raw 20 4; w3 \<leftarrow> get_le32 t3;
        comm \<leftarrow> slice raw 30 16;
        Some (Some \<lparr>r_PID = pid, r_DstV4 = v4, r_DstV6 = [w0, w1, w2, w3], r_Dport = dport, r_Proto = proto,
          r_Allowed = allowed, r_Family = family, r_Kind = kind, r_Comm = comm\<rparr>)
      })"

text \<open>The channel holds 1024 events; a send that would block is dropped. Each read comes with the number of
  events the consumer has taken since the previous one.\<close>

definition chan_send :: "'a list \<Rightarrow> 'a \<Rightarrow> 'a list" where
  "chan_send ch ev = (if length ch < 1024 then ch @ [ev] else ch)"

fun readEvents :: "((string + bytes) \<times> nat) list \<Rightarrow> RawEvent list \<Rightarrow> RawEvent list \<Rightarrow>
    (RawEvent list \<times> RawEvent list) option" where
  "readEvents [] taken ch = Some (taken, ch)"
| "readEvents ((r, n) # rs) taken ch =
     (case r of
        Inl e \<Rightarrow> Some (taken @ take n ch, drop n ch)
      | Inr raw \<Rightarrow> do {
          s \<leftarrow> read_sample raw;
          readEvents rs (taken @ take n ch) (case s of None \<Rightarrow> drop n ch | Some ev \<Rightarrow> chan_send (drop n ch) ev)
        })"

section \<open>The consumer\<close>

text \<open>\<^verbatim>\<open>string(b)\<close> on bytes, and \<^verbatim>\<open>strings.IndexByte\<close>.\<close>

definition go_string :: "bytes \<Rightarrow> string" where
  "go_string b = map (\<lambda>x. char_of (unat x)) b"

definition IndexByte :: "string \<Rightarrow> char \<Rightarrow> nat option" where
  "IndexByte s c = (if c \<in> set s then Some (length (takeWhile (\<lambda>x. x \<noteq> c) s)) else None)"

definition cString :: "bytes \<Rightarrow> string" where
  "cString b = (let s = go_string b in case IndexByte s (CHR 0x00) of Some i \<Rightarrow> take i s | None \<Rightarrow> s)"

definition formatDst :: "RawEvent \<Rightarrow> string" where
  "formatDst ev =
     (if r_Family ev = 6 then IP_String (concat (map put_be32 (r_DstV6 ev)))
      else IP_String (put_be32 (r_DstV4 ev)))"

function trim_comm :: "string \<Rightarrow> string" where
  "trim_comm b = (if b \<noteq> [] \<and> (last b = newline \<or> last b = CHR 0x00) then trim_comm (butlast b) else b)"
  by pat_completeness auto
termination by (relation "measure length") auto

declare trim_comm.simps [simp del]

definition readComm :: "(string \<Rightarrow> string option) \<Rightarrow> u32 \<Rightarrow> string" where
  "readComm proc pid =
     (case proc (''/proc/'' @ dec_digits (unat pid) @ ''/comm'') of None \<Rightarrow> [] | Some b \<Rightarrow> trim_comm b)"

record cenv =
  ce_ts :: int
  ce_now :: int
  ce_proc :: "string \<Rightarrow> string option"
  ce_out :: write_outcome

definition event_action :: "Mode \<Rightarrow> RawEvent \<Rightarrow> Action" where
  "event_action mode ev =
     (if r_Allowed ev = 0 then (if mode = MODE_MONITOR then ACTION_MONITOR_DENY else ACTION_DENY)
      else ACTION_ALLOW)"

definition event_proto :: "RawEvent \<Rightarrow> Protocol" where
  "event_proto ev =
     (if r_Proto ev = 6 then PROTOCOL_TCP else if r_Proto ev = 17 then PROTOCOL_UDP else PROTOCOL_UNSPECIFIED)"

definition event_key :: "RawEvent \<Rightarrow> Key" where
  "event_key ev = \<lparr>PID = r_PID ev, Dst = formatDst ev, Dport = r_Dport ev, Proto = r_Proto ev,
     Allowed = r_Allowed ev, Kind = r_Kind ev\<rparr>"

definition sudo_event :: "cenv \<Rightarrow> RawEvent \<Rightarrow> AgentEvent" where
  "sudo_event E ev = zeroEvent\<lparr>ev_Ts := ce_ts E, ev_Type := EVENT_TYPE_SUDO, ev_Action := ACTION_ALLOW,
     ev_Pid := r_PID ev, ev_Comm := cString (r_Comm ev), ev_Rule := ''sudo_exec''\<rparr>"

definition connect_event :: "Mode \<Rightarrow> cenv \<Rightarrow> RawEvent \<Rightarrow> AgentEvent" where
  "connect_event mode E ev = zeroEvent\<lparr>ev_Ts := ce_ts E, ev_Type := EVENT_TYPE_CONNECT,
     ev_Action := event_action mode ev, ev_Pid := r_PID ev, ev_Comm := readComm (ce_proc E) (r_PID ev),
     ev_Dst := formatDst ev, ev_DstPort := ucast (r_Dport ev), ev_Proto := event_proto ev\<rparr>"

text \<open>One iteration of the loop: what is passed to \<^verbatim>\<open>WriteEvent\<close>, if anything, and the cache after it.\<close>

definition consume1 :: "Mode \<Rightarrow> cenv \<Rightarrow> RawEvent \<Rightarrow> Cache \<Rightarrow> AgentEvent option \<times> Cache" where
  "consume1 mode E ev cache =
     (if r_Kind ev = EVENT_KIND_SUDO then (Some (sudo_event E ev), cache)
      else (case ShouldEmit cache (event_key ev) (ce_now E) of
         (False, cache) \<Rightarrow> (None, cache)
       | (True, cache) \<Rightarrow> (Some (connect_event mode E ev), cache)))"

fun consume_loop :: "(AgentEvent \<Rightarrow> string + string) \<Rightarrow> Mode \<Rightarrow> Logger \<Rightarrow> (RawEvent \<times> cenv) list \<Rightarrow> Cache \<Rightarrow>
    osfs \<Rightarrow> osfs" where
  "consume_loop marshal mode l [] cache fs = fs"
| "consume_loop marshal mode l ((ev, E) # evs) cache fs =
     (case consume1 mode E ev cache of
        (None, cache) \<Rightarrow> consume_loop marshal mode l evs cache fs
      | (Some a, cache) \<Rightarrow> consume_loop marshal mode l evs cache (fst (WriteEvent marshal (ce_out E) a l fs)))"

definition consumeBPFEvents :: "(AgentEvent \<Rightarrow> string + string) \<Rightarrow> Mode \<Rightarrow> Logger \<Rightarrow> (RawEvent \<times> cenv) list \<Rightarrow>
    osfs \<Rightarrow> osfs" where
  "consumeBPFEvents marshal mode l evs fs = consume_loop marshal mode l evs (New (5 * Second)) fs"

section \<open>Decoding\<close>

definition raw_of :: "event \<Rightarrow> RawEvent" where
  "raw_of e = \<lparr>r_PID = e_pid e, r_DstV4 = e_dst_v4 e, r_DstV6 = e_dst_v6 e, r_Dport = e_dport e,
     r_Proto = e_proto e, r_Allowed = e_allowed e, r_Family = e_family e, r_Kind = e_kind e, r_Comm = e_comm e\<rparr>"

lemma read_event_bytes:
  assumes "event_wf e"
  shows "read_sample (event_bytes LittleEndian e) = Some (Some (raw_of e))"
proof -
  from assms have "length (e_dst_v6 e) = 4" by (simp add: event_wf_def)
  then obtain a b c d where v6: "e_dst_v6 e = [a, b, c, d]" by (rule length_4E)
  have c: "length (e_comm e) = 16" using assms by (simp add: event_wf_def)
  show ?thesis
    by (simp add: read_sample_def event_bytes_def v6 c slice_def ld8_def put_le32_def put_be32_def put_be16_def
        raw_of_def codec_simps)
qed

text \<open>The events of the samples up to the first failing read, in order.\<close>

fun decoded :: "((string + bytes) \<times> nat) list \<Rightarrow> RawEvent list" where
  "decoded [] = []"
| "decoded ((r, n) # rs) =
     (case r of Inl e \<Rightarrow> []
      | Inr raw \<Rightarrow> (case read_sample raw of Some (Some ev) \<Rightarrow> [ev] | _ \<Rightarrow> []) @ decoded rs)"

lemma take_drop_app: "take n ch @ drop n ch @ xs = ch @ xs"
  by (metis append_assoc append_take_drop_id)

lemma chan_send_app:
  "take n ch @ chan_send (drop n ch) ev @ xs = ch @ (if length ch - n < 1024 then ev # xs else xs)"
  by (simp add: chan_send_def take_drop_app)

lemma read_sample_total: "\<exists>s. read_sample raw = Some s"
proof (cases "length raw < 46")
  case False
  have le: "\<exists>w. get_le32 (take 4 (drop i raw)) = Some w" if "i + 4 \<le> 46" for i
  proof -
    from False that have "length (take 4 (drop i raw)) = 4" by simp
    then show ?thesis by (rule length_4E) simp
  qed
  have le2: "\<exists>w. get_le16 (take 2 (drop 24 raw)) = Some w"
  proof -
    from False have "length (take 2 (drop 24 raw)) = 2" by simp
    then show ?thesis by (rule length_2E) simp
  qed
  show ?thesis
    using False le [of 0] le [of 4] le [of 8] le [of 12] le [of 16] le [of 20] le2
    by (auto simp: read_sample_def)
qed (simp add: read_sample_def)

lemma readEvents_total: "\<exists>t c. readEvents rs taken ch = Some (t, c)"
proof (induction rs taken ch rule: readEvents.induct)
  case (2 r n rs taken ch)
  show ?case
  proof (cases r)
    case (Inr raw)
    obtain s where "read_sample raw = Some s" using read_sample_total by blast
    with 2 [OF Inr this] Inr show ?thesis by simp
  qed simp
qed simp

lemma readEvents_split:
  "readEvents rs taken ch = Some (taken', ch') \<Longrightarrow>
   \<exists>xs. taken' @ ch' = taken @ ch @ xs \<and> subseq xs (decoded rs)
      \<and> (length ch + length (decoded rs) \<le> 1024 \<longrightarrow> xs = decoded rs)"
proof (induction rs taken ch rule: readEvents.induct)
  case (2 r n rs taken ch)
  show ?case
  proof (cases r)
    case (Inl e)
    with 2 show ?thesis by auto
  next
    case (Inr raw)
    obtain s where s: "read_sample raw = Some s" using read_sample_total by blast
    show ?thesis
    proof (cases s)
      case None
      with 2(1) [OF Inr s] 2(2) Inr s show ?thesis by (auto simp: take_drop_app)
    next
      case (Some ev)
      with 2(1) [OF Inr s] 2(2) Inr s obtain xs where xs:
        "taken' @ ch' = taken @ take n ch @ chan_send (drop n ch) ev @ xs" "subseq xs (decoded rs)"
        "length (chan_send (drop n ch) ev) + length (decoded rs) \<le> 1024 \<longrightarrow> xs = decoded rs"
        by auto
      have len: "length (chan_send (drop n ch) ev) \<le> Suc (length ch)" by (auto simp: chan_send_def)
      from xs len Inr s Some show ?thesis
        by (intro exI [of _ "if length ch - n < 1024 then ev # xs else xs"]) (auto simp: chan_send_app)
    qed
  qed
qed auto

section \<open>Consuming\<close>

text \<open>What the loop writes, with the outcome of each write.\<close>

fun consumed :: "Mode \<Rightarrow> (RawEvent \<times> cenv) list \<Rightarrow> Cache \<Rightarrow> (AgentEvent \<times> write_outcome) list" where
  "consumed mode [] cache = []"
| "consumed mode ((ev, E) # evs) cache =
     (case consume1 mode E ev cache of
        (None, cache) \<Rightarrow> consumed mode evs cache
      | (Some a, cache) \<Rightarrow> (a, ce_out E) # consumed mode evs cache)"

lemma consume_loop_writes: "consume_loop marshal mode l evs cache fs = write_all marshal l (consumed mode evs cache) fs"
  by (induction mode evs cache arbitrary: fs rule: consumed.induct) (auto split: prod.splits option.splits)

lemma event_types [simp]:
  "ev_Type (sudo_event E ev) = EVENT_TYPE_SUDO" "ev_Type (connect_event mode E ev) = EVENT_TYPE_CONNECT"
  by (simp_all add: sudo_event_def connect_event_def)

definition is_sudo :: "RawEvent \<Rightarrow> bool" where
  "is_sudo ev = (r_Kind ev = EVENT_KIND_SUDO)"

lemma consumed_sudo:
  "filter (\<lambda>a. ev_Type a = EVENT_TYPE_SUDO) (map fst (consumed mode evs cache))
   = map (\<lambda>(ev, E). sudo_event E ev) (filter (is_sudo \<circ> fst) evs)"
  by (induction mode evs cache rule: consumed.induct) (auto simp: consume1_def is_sudo_def split: prod.splits bool.splits)

definition key_view :: "Key \<times> int \<Rightarrow> u32 \<times> string \<times> u32" where
  "key_view = (\<lambda>(k, t). (PID k, Dst k, ucast (Dport k)))"

definition event_view :: "AgentEvent \<Rightarrow> u32 \<times> string \<times> u32" where
  "event_view a = (ev_Pid a, ev_Dst a, ev_DstPort a)"

lemma consumed_connect:
  "map event_view (filter (\<lambda>a. ev_Type a = EVENT_TYPE_CONNECT) (map fst (consumed mode evs cache)))
   = map key_view (emitted_by ShouldEmit cache (map (\<lambda>(ev, E). (event_key ev, ce_now E)) (filter (\<lambda>(ev, E). \<not> is_sudo ev) evs)))"
  by (induction mode evs cache rule: consumed.induct)
    (auto simp: consume1_def is_sudo_def key_view_def event_view_def connect_event_def event_key_def
      split: prod.splits bool.splits)

definition event_for :: "Mode \<Rightarrow> RawEvent \<times> cenv \<Rightarrow> AgentEvent" where
  "event_for mode = (\<lambda>(ev, E). if is_sudo ev then sudo_event E ev else connect_event mode E ev)"

lemma consumed_origin: "fst ` set (consumed mode evs cache) \<subseteq> event_for mode ` set evs"
proof (induction mode evs cache rule: consumed.induct)
  case (2 mode ev E evs cache)
  have "fst ` set (consumed mode ((ev, E) # evs) cache)
      \<subseteq> insert (event_for mode (ev, E)) (fst ` set (consumed mode evs (snd (consume1 mode E ev cache))))"
    by (auto simp: consume1_def is_sudo_def event_for_def split: prod.splits bool.splits)
  moreover have "fst ` set (consumed mode evs (snd (consume1 mode E ev cache))) \<subseteq> event_for mode ` set evs"
    using 2 by (cases "consume1 mode E ev cache"; cases "fst (consume1 mode E ev cache)") auto
  ultimately show ?case by auto
qed simp

section \<open>Properties\<close>

text \<open>C32: The reader never panics, keeps the order of the ring buffer and invents nothing: whatever the
  samples, and however the consumer and the reader interleave, the events delivered or still queued
  are a subsequence of the decoded samples, and all of them when they number at most 1024.\<close>

theorem readEvents_order:
  "\<exists>taken ch. readEvents rs [] [] = Some (taken, ch) \<and> subseq (taken @ ch) (decoded rs)
     \<and> (length (decoded rs) \<le> 1024 \<longrightarrow> taken @ ch = decoded rs)"
proof -
  obtain taken ch where r: "readEvents rs [] [] = Some (taken, ch)" using readEvents_total by blast
  from readEvents_split [OF r] r show ?thesis by auto
qed

definition event0 :: event where
  "event0 = \<lparr>e_pid = 7, e_dst_v4 = 0x04030201, e_dst_v6 = [0, 0, 0, 0], e_dport = 443, e_proto = 6,
     e_allowed = 0, e_family = 4, e_kind = 0, e_comm = replicate 16 0\<rparr>"

lemma event0_wf: "event_wf event0"
  by (simp add: event0_def event_wf_def)

theorem readEvents_order_witness:
  "\<exists>taken ch. readEvents [(Inr (event_bytes LittleEndian event0), 0)] [] [] = Some (taken, ch)
     \<and> taken @ ch = [raw_of event0]"
proof -
  have "decoded [(Inr (event_bytes LittleEndian event0), 0)] = [raw_of event0]"
    by (simp add: read_event_bytes [OF event0_wf])
  with readEvents_order [of "[(Inr (event_bytes LittleEndian event0), 0)]"] show ?thesis by auto
qed

text \<open>On a little-endian host the reader recovers every field of the record the BPF program submitted.\<close>

theorem event_roundtrip:
  assumes "event_wf e"
  shows "read_sample (event_bytes LittleEndian e) = Some (Some (raw_of e))"
  by (rule read_event_bytes [OF assms])

theorem event_roundtrip_witness:
  "read_sample (event_bytes LittleEndian event0) = Some (Some (raw_of event0))"
  by (rule event_roundtrip [OF event0_wf])

text \<open>C33: What the consumer logs. For events read at non-decreasing times: every exec event is logged, in
  order; the connect events logged are, by process, destination and port, exactly those an unbounded
  five-second coalescer lets through; and every logged event is the exec or connect event of a raw event
  that was read, with its process, destination and verdict.\<close>

theorem consume_faithful:
  assumes "sorted (map (ce_now \<circ> snd) evs)"
  shows "consumeBPFEvents marshal mode l evs fs = write_all marshal l (consumed mode evs (New (5 * Second))) fs
    \<and> filter (\<lambda>a. ev_Type a = EVENT_TYPE_SUDO) (map fst (consumed mode evs (New (5 * Second)))) = map (\<lambda>(ev, E). sudo_event E ev) (filter (is_sudo \<circ> fst) evs)
    \<and> map event_view (filter (\<lambda>a. ev_Type a = EVENT_TYPE_CONNECT) (map fst (consumed mode evs (New (5 * Second)))))
      = map key_view (emitted_by (spec_step (5 * Second)) Map.empty
          (map (\<lambda>(ev, E). (event_key ev, ce_now E)) (filter (\<lambda>(ev, E). \<not> is_sudo ev) evs)))
    \<and> set (map fst (consumed mode evs (New (5 * Second)))) \<subseteq> event_for mode ` set evs"
proof -
  have "sorted (map snd (map (\<lambda>(ev, E). (event_key ev, ce_now E)) (filter (\<lambda>(ev, E). \<not> is_sudo ev) evs)))"
    using sorted_filter [of "ce_now \<circ> snd" evs "\<lambda>(ev, E). \<not> is_sudo ev"] assms(1)
    by (simp add: comp_def split_def)
  note c = cache_emitted [OF this, of "5 * Second"]
  have ttl: "ttl (New (5 * Second)) = 5 * Second" by (simp add: New_def Second_def)
  show ?thesis
    using consumed_origin [of mode evs "New (5 * Second)"]
    by (simp add: consumeBPFEvents_def consume_loop_writes consumed_sudo consumed_connect c ttl)
qed

definition cenv0 :: "int \<Rightarrow> cenv" where
  "cenv0 t = \<lparr>ce_ts = t, ce_now = t, ce_proc = (\<lambda>_. None), ce_out = ok_write\<rparr>"

theorem consume_faithful_witness:
  "length (filter (\<lambda>a. ev_Type a = EVENT_TYPE_CONNECT)
     (map fst (consumed MODE_MONITOR [(raw_of event0, cenv0 0), (raw_of event0, cenv0 9)] (New (5 * Second))))) = 1"
proof -
  let ?evs = "[(raw_of event0, cenv0 0), (raw_of event0, cenv0 9)]"
  have s: "sorted (map (ce_now \<circ> snd) ?evs)" by (simp add: cenv0_def)
  have n: "\<not> is_sudo (raw_of event0)" by (simp add: is_sudo_def raw_of_def event0_def EVENT_KIND_SUDO_def)
  have "length (map event_view (filter (\<lambda>a. ev_Type a = EVENT_TYPE_CONNECT) (map fst (consumed MODE_MONITOR ?evs (New (5 * Second)))))) = 1"
    unfolding consume_faithful [OF s, THEN conjunct2, THEN conjunct2, THEN conjunct1, of MODE_MONITOR]
    by (simp add: n spec_step_def cenv0_def Second_def)
  then show ?thesis by simp
qed

end
