(* ===== verification/EventPath.thy ===== *)
theory EventPath
  imports BpfProps BpfEvents
begin

text \<open>
  From a packet to its line in the log: the egress program, the ring buffer, the reader and the consumer
  composed, on a little-endian host.
\<close>

section \<open>Addresses on the way\<close>

text \<open>Every group of four bytes in reverse order.\<close>

fun rev4 :: "bytes \<Rightarrow> bytes" where
  "rev4 (a # b # c # d # bs) = [d, c, b, a] @ rev4 bs"
| "rev4 _ = []"

lemma flow_shape:
  assumes "flow_of en skb = Some f"
  shows "length (f_dst f) = (if f_v6 f then 16 else 4)" "f_proto f = 6 \<or> f_proto f = 17"
  using assms by (auto simp: flow_of_def flow4_def flow6_def Let_def split: if_splits)

lemma length_16E:
  assumes "length bs = 16"
  obtains a b c d where "bs = a @ b @ c @ d" "length a = 4" "length b = 4" "length c = 4" "length d = 4"
proof -
  from assms obtain a0 a1 a2 a3 b0 b1 b2 b3 c0 c1 c2 c3 d0 d1 d2 d3 where
    "bs = [a0, a1, a2, a3, b0, b1, b2, b3, c0, c1, c2, c3, d0, d1, d2, d3]"
    by (auto simp: numeral_eq_Suc length_Suc_conv)
  then show thesis
    by (intro that [of "[a0, a1, a2, a3]" "[b0, b1, b2, b3]" "[c0, c1, c2, c3]" "[d0, d1, d2, d3]"]) simp_all
qed

lemma words_le:
  "length d = 4 \<Longrightarrow> \<exists>w. words_of LittleEndian (d @ bs) = w # words_of LittleEndian bs \<and> put_be32 w = rev d
     \<and> rev4 (d @ bs) = rev d @ rev4 bs"
  by (auto elim!: length_4E simp: codec_simps)

lemma words_le_16:
  assumes "length ds = 16"
  shows "length (words_of LittleEndian ds) = 4 \<and> concat (map put_be32 (words_of LittleEndian ds)) = rev4 ds"
proof -
  obtain a b c d where ds: "ds = a @ b @ c @ d" and len: "length a = 4" "length b = 4" "length c = 4" "length d = 4"
    using assms by (rule length_16E)
  from words_le [OF len(1), of "b @ c @ d"] words_le [OF len(2), of "c @ d"] words_le [OF len(3), of d]
    words_le [OF len(4), of "[]"]
  show ?thesis unfolding ds by auto
qed

lemma words_le_4:
  assumes "length d = 4"
  shows "put_be32 (hd (words_of LittleEndian d)) = rev4 d"
  using words_le [OF assms, of "[]"] by auto

lemma flow_event_wf:
  assumes "flow_of LittleEndian skb = Some f"
  shows "event_wf (flow_event L LittleEndian h k f)"
  using flow_shape [OF assms] words_le_16 [of "f_dst f"] by (simp add: flow_event_def event_wf_def)

lemma flow_event_dst:
  assumes "flow_of LittleEndian skb = Some f"
  shows "formatDst (raw_of (flow_event L LittleEndian h k f)) = IP_String (rev4 (f_dst f))"
  using flow_shape [OF assms] words_le_16 [of "f_dst f"] words_le_4 [of "f_dst f"]
  by (simp add: formatDst_def raw_of_def flow_event_def)

lemma consumed_fresh:
  "\<not> is_sudo ev \<Longrightarrow> consumed mode [(ev, E)] (New d) = [(connect_event mode E ev, ce_out E)]"
  by (simp add: consume1_def is_sudo_def ShouldEmit_def New_def)

section \<open>Properties\<close>

text \<open>C24: A dropped packet reaches the log, under the wrong address. On a little-endian host, when the egress
  program drops a packet and the ring buffer has room, the record it submits is decoded by the reader and
  logged by a fresh consumer (in a mode other than monitor) as a denied connection with the packet's
  process, port and protocol, but with every four bytes of the destination address reversed.\<close>

theorem drop_reaches_log:
  assumes "censor_egress L LittleEndian h skb k = Some (TC_ACT_SHOT, k')" "h_reserve h" "mode \<noteq> MODE_MONITOR"
  shows "\<exists>f ev a. flow_of LittleEndian skb = Some f
    \<and> readEvents [(Inr (event_bytes LittleEndian (last (events k'))), 0)] [] [] = Some ([], [ev])
    \<and> consumed mode [(ev, E)] (New (5 * Second)) = [(a, ce_out E)]
    \<and> ev_Type a = EVENT_TYPE_CONNECT \<and> ev_Action a = ACTION_DENY \<and> ev_Pid a = current_pid_for_skb L k h
    \<and> ev_DstPort a = ucast (f_dport f) \<and> ev_Proto a = (if f_proto f = 6 then PROTOCOL_TCP else PROTOCOL_UDP)
    \<and> ev_Dst a = IP_String (rev4 (f_dst f))"
proof -
  from assms(1,2) obtain f where f: "flow_of LittleEndian skb = Some f" "flow_verdict L k f = TC_ACT_SHOT"
      "k' = k\<lparr>events := events k @ [flow_event L LittleEndian h k f]\<rparr>"
    by (auto simp: egress_flow flow_step_def split: option.splits)
  let ?e = "flow_event L LittleEndian h k f"
  have r: "readEvents [(Inr (event_bytes LittleEndian (last (events k'))), 0)] [] [] = Some ([], [raw_of ?e])"
    by (simp add: f(3) read_event_bytes [OF flow_event_wf [OF f(1)]] chan_send_def)
  have s: "\<not> is_sudo (raw_of ?e)" by (simp add: is_sudo_def raw_of_def flow_event_def bpf_consts)
  have n: "\<not> flow_allowed L k f" using f(2) by (auto simp: flow_verdict_def split: if_splits)
  then have a: "event_action mode (raw_of ?e) = ACTION_DENY"
    using assms(3) by (simp add: event_action_def raw_of_def flow_event_def)
  have c: "ev_Pid (connect_event mode E (raw_of ?e)) = current_pid_for_skb L k h"
    "ev_DstPort (connect_event mode E (raw_of ?e)) = ucast (f_dport f)"
    by (simp_all add: connect_event_def raw_of_def flow_event_def)
  have p: "ev_Proto (connect_event mode E (raw_of ?e)) = (if f_proto f = 6 then PROTOCOL_TCP else PROTOCOL_UDP)"
    using flow_shape(2) [OF f(1)] by (auto simp: connect_event_def event_proto_def raw_of_def flow_event_def)
  have d: "ev_Dst (connect_event mode E (raw_of ?e)) = IP_String (rev4 (f_dst f))"
      "ev_Action (connect_event mode E (raw_of ?e)) = ACTION_DENY"
    by (simp_all add: connect_event_def flow_event_dst [OF f(1)] a)
  show ?thesis
    by (intro exI conjI, rule f(1), rule r, rule consumed_fresh [OF s]) (simp_all add: c p d)
qed

theorem drop_reaches_log_witness:
  "\<exists>k' ev a. censor_egress ref_ops LittleEndian hooks0 (pkt4 1 2 3 4) ref_boot = Some (TC_ACT_SHOT, k')
    \<and> consumed MODE_ENFORCE [(ev, cenv0 0)] (New (5 * Second)) = [(a, ok_write)]
    \<and> ev_Action a = ACTION_DENY \<and> ev_Dst a = ''4.3.2.1''"
proof -
  have "\<exists>k'. censor_egress ref_ops LittleEndian hooks0 (pkt4 1 2 3 4) ref_boot = Some (TC_ACT_SHOT, k')"
    by (simp add: egress_flow flow_step_def pkt4_flow flow_verdict_def flow_allowed_def ref_boot_def
        ref_ops_def ref_lookup_def audit_mode_def array_lookup_def)
  then obtain k' where k': "censor_egress ref_ops LittleEndian hooks0 (pkt4 1 2 3 4) ref_boot = Some (TC_ACT_SHOT, k')" ..
  have h: "h_reserve hooks0" by (simp add: hooks0_def)
  have s: "IP_String (rev4 [1, 2, 3, 4]) = ''4.3.2.1''"
    by code_simp
  have o: "ce_out (cenv0 0) = ok_write" by (simp add: cenv0_def)
  obtain f ev a where fa: "flow_of LittleEndian (pkt4 1 2 3 4) = Some f"
    "consumed MODE_ENFORCE [(ev, cenv0 0)] (New (5 * Second)) = [(a, ok_write)]"
    "ev_Action a = ACTION_DENY" "ev_Dst a = IP_String (rev4 (f_dst f))"
    using drop_reaches_log [OF k' h, of MODE_ENFORCE "cenv0 0"] o by auto
  from fa(1) have "f_dst f = [1, 2, 3, 4]" by (auto simp: pkt4_flow)
  with fa(4) s have "ev_Dst a = ''4.3.2.1''" by simp
  with k' fa show ?thesis by blast
qed

end
