(* ===== verification/Runtime.thy ===== *)
theory Runtime
  imports Prepopulate GithubHosts ApiClient SudoLockdown DnsRedirect EventPath
begin

text \<open>
  The agent itself, \<^verbatim>\<open>internal/agent/runtime.go\<close>: starting it, step by step and with every failure, and
  closing it. The world is the firewall, the file system, the sockets served and the NAT table; what the
  calls into libraries and the kernel return is a record of outcomes. \<open>None\<close> is a panic.
\<close>

section \<open>State\<close>

record Config =
  cf_APIURL :: string
  cf_APIKeyPath :: string
  cf_ConfigFile :: string
  cf_LogPath :: string
  cf_ReadyFile :: string
  cf_FailureFile :: string
  cf_PidFile :: string
  cf_StatusFile :: string
  cf_DNSListen :: string
  cf_DNSUpstream :: string
  cf_DNSRedirect :: bool
  cf_GitHubActions :: bool
  cf_Status :: string

definition DefaultReadyFile :: string where "DefaultReadyFile = ''/var/run/censor/ready''"
definition DefaultFailureFile :: string where "DefaultFailureFile = ''/var/run/censor/failure''"
definition DefaultPidFile :: string where "DefaultPidFile = ''/var/run/censor/censor.pid''"
definition DefaultStatusFile :: string where "DefaultStatusFile = ''/var/run/censor/status''"
definition DefaultAPIKeyPath :: string where "DefaultAPIKeyPath = ''/etc/censor/api-key''"

definition or_default :: "string \<Rightarrow> string \<Rightarrow> string" where
  "or_default s d = (if s = [] then d else s)"

definition defaults :: "(string \<Rightarrow> string) \<Rightarrow> Config \<Rightarrow> Config" where
  "defaults getenv c = c\<lparr>
     cf_APIKeyPath := or_default (cf_APIKeyPath c) DefaultAPIKeyPath,
     cf_LogPath := or_default (cf_LogPath c) DefaultLogPath,
     cf_ReadyFile := or_default (cf_ReadyFile c) DefaultReadyFile,
     cf_FailureFile := or_default (cf_FailureFile c) DefaultFailureFile,
     cf_PidFile := or_default (cf_PidFile c) DefaultPidFile,
     cf_StatusFile := or_default (cf_StatusFile c) DefaultStatusFile,
     cf_DNSListen := or_default (cf_DNSListen c) ''127.0.0.1:53'',
     cf_DNSUpstream := or_default (cf_DNSUpstream c) ''8.8.8.8:53'',
     cf_Status := or_default (cf_Status c) ''success'',
     cf_APIURL := or_default (cf_APIURL c) (getenv ''CENSOR_API_URL''),
     cf_ConfigFile := or_default (cf_ConfigFile c) (getenv ''CENSOR_CONFIG_FILE'')\<rparr>"

record 'j Runtime =
  rt_cfg :: Config
  rt_policy :: AgentPolicy
  rt_ghac :: "'j Context"
  rt_log :: Logger
  rt_dns :: "Proxy option"
  rt_lock :: "Lockdown option"
  rt_dnsRedir :: "Redirect option"
  rt_dockerDNS :: "DockerDNS option"
  rt_client :: Client
  rt_consuming :: bool

record ('m, 'p, 'n) world =
  w_fw :: "('m, 'p) fw"
  w_fs :: osfs
  w_net :: listeners
  w_nat :: 'n

text \<open>The outcomes of everything outside: the environment, the libraries, the kernel.\<close>

record ('m, 'p, 'n, 'j) start_env =
  se_getenv :: "string \<Rightarrow> string"
  se_version :: string
  se_mkdir :: "string option"
  se_gha :: "string + 'j Context"
  se_unmarshal :: "string \<Rightarrow> string + AgentPolicy"
  se_fetch :: "Client \<Rightarrow> 'j Context \<Rightarrow> string + AgentPolicy"
  se_open :: open_outcome
  se_user :: "string + string"
  se_lookup_user :: "string \<Rightarrow> bool"
  se_quote :: "string \<Rightarrow> string"
  se_sudoers :: file_outcome
  se_sudo_state :: file_outcome
  se_binds :: "string \<Rightarrow> bool"
  se_LookPath :: "string \<Rightarrow> string option"
  se_command :: "'n command"
  se_codec :: "'j daemon_codec"
  se_docker_read :: "string option"
  se_docker_write :: file_outcome
  se_attach :: "('m, 'p) outcomes"
  se_parse_prefix :: "string \<Rightarrow> string + Prefix"
  se_proc :: "string \<Rightarrow> proc_file"
  se_lookup_host :: "string \<Rightarrow> string + bytes list"
  se_marshal :: "AgentEvent \<Rightarrow> string + string"
  se_wout :: write_outcome
  se_now :: int
  se_pid :: nat
  se_pid_out :: file_outcome
  se_ready_out :: file_outcome
  se_fail_out :: file_outcome
  se_docker_restore :: file_outcome
  se_log_close :: "string option"

section \<open>Helpers\<close>

definition read_file :: "osfs \<Rightarrow> string \<Rightarrow> string + string" where
  "read_file fs p = (case fdata fs p of Some c \<Rightarrow> Inr c | None \<Rightarrow> Inl (''open '' @ p @ '': no such file or directory''))"

definition writeFail :: "file_outcome \<Rightarrow> string \<Rightarrow> string \<Rightarrow> osfs \<Rightarrow> osfs" where
  "writeFail out path err fs = (if path \<noteq> [] then fst (write_file out path (err @ [newline]) fs) else fs)"

definition last_index :: "string \<Rightarrow> char \<Rightarrow> nat option" where
  "last_index s c = (if c \<in> set s then Some (length s - 1 - length (takeWhile (\<lambda>x. x \<noteq> c) (rev s))) else None)"

text \<open>\<^verbatim>\<open>net.SplitHostPort\<close>; \<open>None\<close> is an error.\<close>

definition SplitHostPort :: "string \<Rightarrow> (string \<times> string) option" where
  "SplitHostPort s =
     (case last_index s (CHR '':'') of
        None \<Rightarrow> None
      | Some i \<Rightarrow>
         (if s ! 0 = CHR ''['' then
            (case IndexByte s (CHR '']'') of
               None \<Rightarrow> None
             | Some e \<Rightarrow>
                 if e + 1 = i \<and> CHR ''['' \<notin> set (drop 1 s) \<and> CHR '']'' \<notin> set (drop (e + 1) s)
                 then Some (take (e - 1) (drop 1 s), drop (i + 1) s) else None)
          else if CHR '':'' \<in> set (take i s) \<or> CHR ''['' \<in> set s \<or> CHR '']'' \<in> set s then None
          else Some (take i s, drop (i + 1) s)))"

definition splitHostPort :: "string \<Rightarrow> string \<times> string" where
  "splitHostPort addr = (case SplitHostPort addr of None \<Rightarrow> (''127.0.0.1'', ''53'') | Some hp \<Rightarrow> hp)"

fun lockdown_text :: "(string \<Rightarrow> string) \<Rightarrow> lockdown_error \<Rightarrow> string" where
  "lockdown_text quote (UserError e) = e"
| "lockdown_text quote (UnsafeUsername u) = ''unsafe username '' @ quote u"
| "lockdown_text quote (WriteError e) = e"

text \<open>An event of the agent about itself.\<close>

definition note_event :: "('m, 'p, 'n, 'j) start_env \<Rightarrow> EventType \<Rightarrow> string \<Rightarrow> Logger \<Rightarrow> ('m, 'p, 'n) world \<Rightarrow>
    ('m, 'p, 'n) world" where
  "note_event E ty rule l w = w\<lparr>w_fs := fst (WriteEvent (se_marshal E) (se_wout E)
     (zeroEvent\<lparr>ev_Ts := se_now E, ev_Type := ty, ev_Action := ACTION_ALLOW, ev_Rule := rule\<rparr>) l (w_fs w))\<rparr>"

section \<open>Closing\<close>

definition keep_first :: "string option \<Rightarrow> string option \<Rightarrow> string option" where
  "keep_first first err = (if first = None then err else first)"

definition close_docker :: "('m, 'p, 'n, 'j) start_env \<Rightarrow> 'j Runtime \<Rightarrow> ('m, 'p, 'n) world \<Rightarrow> ('m, 'p, 'n) world \<times> string option" where
  "close_docker E rt w = (case rt_dockerDNS rt of None \<Rightarrow> (w, None)
     | Some d \<Rightarrow> (case docker_Disable (se_docker_restore E) d (w_fs w) of (fs, err) \<Rightarrow> (w\<lparr>w_fs := fs\<rparr>, err)))"

definition close_redir :: "('m, 'p, 'n, 'j) start_env \<Rightarrow> 'j Runtime \<Rightarrow> ('m, 'p, 'n) world \<Rightarrow> ('m, 'p, 'n) world \<times> string option" where
  "close_redir E rt w = (case rt_dnsRedir rt of None \<Rightarrow> (w, None)
     | Some r \<Rightarrow> (case Remove (se_command E) r (w_nat w) of (_, nt, err) \<Rightarrow> (w\<lparr>w_nat := nt\<rparr>, err)))"

definition close_dns :: "'j Runtime \<Rightarrow> ('m, 'p, 'n) world \<Rightarrow> ('m, 'p, 'n) world \<times> string option" where
  "close_dns rt w = (case rt_dns rt of None \<Rightarrow> (w, None)
     | Some p \<Rightarrow> (case Shutdown p (w_net w) of (net, err) \<Rightarrow> (w\<lparr>w_net := net\<rparr>, err)))"

definition close_rest :: "('m, 'p, 'n, 'j) start_env \<Rightarrow> 'j Runtime \<Rightarrow> ('m, 'p, 'n) world \<Rightarrow> ('m, 'p, 'n) world \<times> string option" where
  "close_rest E rt w =
     (let w = w\<lparr>w_fw := DetachFirewall (w_fw w)\<rparr>;
          w = (case rt_lock rt of None \<Rightarrow> w | Some l \<Rightarrow> w\<lparr>w_fs := SudoLockdown.Disable l (w_fs w)\<rparr>) in
      case EventLog.Close (se_log_close E) (rt_log rt) (w_fs w) of
        (_, fs, err) \<Rightarrow>
          (w\<lparr>w_fs := remove_file (cf_StatusFile (rt_cfg rt)) (remove_file (cf_PidFile (rt_cfg rt))
               (remove_file (cf_ReadyFile (rt_cfg rt)) fs))\<rparr>, err))"

definition rt_Close :: "('m, 'p, 'n, 'j) start_env \<Rightarrow> 'j Runtime \<Rightarrow> ('m, 'p, 'n) world \<Rightarrow> ('m, 'p, 'n) world \<times> string option" where
  "rt_Close E rt w =
     (case close_docker E rt w of (w, e1) \<Rightarrow>
     (case close_redir E rt w of (w, e2) \<Rightarrow>
     (case close_dns rt w of (w, e3) \<Rightarrow>
     (case close_rest E rt w of (w, e4) \<Rightarrow>
       (w, keep_first (keep_first (keep_first e1 e2) e3) e4)))))"

section \<open>Starting\<close>

text \<open>A failure before the runtime exists, and one after it (which closes it first).\<close>

type_synonym ('m, 'p, 'n, 'j) started = "(string + 'j Runtime) \<times> ('m, 'p, 'n) world"

definition fail_with :: "('m, 'p, 'n, 'j) start_env \<Rightarrow> Config \<Rightarrow> string \<Rightarrow> ('m, 'p, 'n) world \<Rightarrow> ('m, 'p, 'n, 'j) started" where
  "fail_with E cfg err w = (Inl err, w\<lparr>w_fs := writeFail (se_fail_out E) (cf_FailureFile cfg) err (w_fs w)\<rparr>)"

definition fail_close :: "('m, 'p, 'n, 'j) start_env \<Rightarrow> 'j Runtime \<Rightarrow> string \<Rightarrow> ('m, 'p, 'n) world \<Rightarrow> ('m, 'p, 'n, 'j) started" where
  "fail_close E rt err w = fail_with E (rt_cfg rt) err (fst (rt_Close E rt w))"

text \<open>Loading the policy: from the local file if one is configured, else with the API key from the server.\<close>

definition load_policy :: "('m, 'p, 'n, 'j) start_env \<Rightarrow> Config \<Rightarrow> 'j Context \<Rightarrow> osfs \<Rightarrow> string + Client \<times> AgentPolicy" where
  "load_policy E cfg g fs =
     (let client = \<lparr>BaseURL = cf_APIURL cfg, APIKey = [], Version = se_version E, Attempts = 0\<rparr> in
      if cf_ConfigFile cfg \<noteq> [] then
        (case read_file fs (cf_ConfigFile cfg) of
           Inl e \<Rightarrow> Inl e
         | Inr b \<Rightarrow> (case se_unmarshal E b of Inl e \<Rightarrow> Inl e | Inr pol \<Rightarrow> Inr (client, pol)))
      else
        (case LoadAPIKey (read_file fs) (cf_APIKeyPath cfg) of
           Inl e \<Rightarrow> Inl e
         | Inr key \<Rightarrow>
            (if cf_APIURL cfg = [] then Inl ''CENSOR_API_URL required''
             else case se_fetch E (client\<lparr>APIKey := key\<rparr>) g of
               Inl e \<Rightarrow> Inl e
             | Inr pol \<Rightarrow> Inr (client\<lparr>APIKey := key\<rparr>, pol))))"

definition start_ready :: "('m, 'p, 'n, 'j) start_env \<Rightarrow> bool \<Rightarrow> 'j Runtime \<Rightarrow> ('m, 'p, 'n) world \<Rightarrow> ('m, 'p, 'n, 'j) started" where
  "start_ready E bpfOK rt w =
     (case write_file (se_pid_out E) (cf_PidFile (rt_cfg rt)) (dec_digits (se_pid E) @ [newline]) (w_fs w) of
        (fs, Some e) \<Rightarrow> fail_close E rt e (w\<lparr>w_fs := fs\<rparr>)
      | (fs, None) \<Rightarrow>
         (case write_file (se_ready_out E) (cf_ReadyFile (rt_cfg rt))
                ((if bpfOK then ''ok bpf=1'' else ''ok bpf=0'') @ [newline]) fs of
            (fs, Some e) \<Rightarrow> fail_close E rt e (w\<lparr>w_fs := fs\<rparr>)
          | (fs, None) \<Rightarrow> (Inr rt, w\<lparr>w_fs := fs\<rparr>)))"

text \<open>With the firewall attached: the configured prefixes, the seeding, and the event consumer.\<close>

definition seed_cidrs :: "('m, 'p, 'n, 'j) start_env \<Rightarrow> ('m, 'p) bpf_ops \<Rightarrow> endian \<Rightarrow> 'j Runtime \<Rightarrow> ('m, 'p, 'n) world \<Rightarrow>
    ('m, 'p, 'n) world option" where
  "seed_cidrs E L en rt w = do {
     (f, n, errs) \<leftarrow> ParseAndAllowCIDRs (se_parse_prefix E) L en (pl_AllowedCidrs (rt_policy rt)) (w_fw w);
     let w = w\<lparr>w_fw := f\<rparr>;
     Some (if n > 0 \<or> length errs > 0
       then note_event E EVENT_TYPE_CONNECT
              (''cidrs:ok='' @ dec_digits n @ '',err='' @ dec_digits (length errs)) (rt_log rt) w
       else w)
   }"

definition seed_hosts :: "('m, 'p, 'n, 'j) start_env \<Rightarrow> ('m, 'p) bpf_ops \<Rightarrow> endian \<Rightarrow> string list \<Rightarrow> 'j Runtime \<Rightarrow>
    ('m, 'p, 'n) world \<Rightarrow> ('m, 'p, 'n) world option" where
  "seed_hosts E L en allowed rt w = do {
     (f, conns, resolved) \<leftarrow> Run (se_proc E) (se_lookup_host E) allowed (AllowIP L en) (w_fw w);
     Some (note_event E EVENT_TYPE_CONNECT
       (''prepopulate:conns='' @ dec_digits conns @ '',resolved='' @ dec_digits resolved) (rt_log rt) (w\<lparr>w_fw := f\<rparr>))
   }"

definition require_bpf :: "AgentPolicy \<Rightarrow> bool" where
  "require_bpf pol = (pl_RequireBpf pol \<or> pl_Mode pol = MODE_ENFORCE)"

definition start_bpf :: "('m, 'p, 'n, 'j) start_env \<Rightarrow> ('m, 'p) bpf_ops \<Rightarrow> endian \<Rightarrow> string list \<Rightarrow> 'j Runtime \<Rightarrow>
    ('m, 'p, 'n) world \<Rightarrow> ('m, 'p, 'n, 'j) started option" where
  "start_bpf E L en allowed rt w =
     (case AttachFirewall (se_attach E) (pl_Mode (rt_policy rt) = MODE_MONITOR) (pl_WatchSudo (rt_policy rt)) (w_fw w) of
        (f, Some err) \<Rightarrow>
          (let w = note_event E EVENT_TYPE_CONNECT (''bpf_attach_skipped:'' @ err) (rt_log rt) (w\<lparr>w_fw := f\<rparr>) in
           if require_bpf (rt_policy rt) then Some (fail_close E rt (''bpf required: '' @ err) w)
           else Some (start_ready E False rt w))
      | (f, None) \<Rightarrow> do {
          w \<leftarrow> seed_cidrs E L en rt (w\<lparr>w_fw := f\<rparr>);
          w \<leftarrow> seed_hosts E L en allowed rt w;
          Some (start_ready E True (rt\<lparr>rt_consuming := eventCh (w_fw w)\<rparr>) w)
        })"

definition start_docker :: "('m, 'p, 'n, 'j) start_env \<Rightarrow> ('m, 'p) bpf_ops \<Rightarrow> endian \<Rightarrow> string list \<Rightarrow> string \<Rightarrow> 'j Runtime \<Rightarrow>
    ('m, 'p, 'n) world \<Rightarrow> ('m, 'p, 'n, 'j) started option" where
  "start_docker E L en allowed host rt w =
     (if cf_GitHubActions (rt_cfg rt) then do {
        (d, fs, err) \<leftarrow> docker_Enable (se_codec E) (se_docker_read E) (se_docker_write E)
           \<lparr>DaemonJSON = [], DNS = [host], backup = [], hadFile = False, enabled = False\<rparr> (w_fs w);
        let w = w\<lparr>w_fs := fs\<rparr>;
        let w = (case err of None \<Rightarrow> w | Some e \<Rightarrow> note_event E EVENT_TYPE_DNS (''docker_dns_skipped:'' @ e) (rt_log rt) w);
        start_bpf E L en allowed (rt\<lparr>rt_dockerDNS := Some d\<rparr>) w
      }
      else start_bpf E L en allowed rt w)"

definition start_redirect :: "('m, 'p, 'n, 'j) start_env \<Rightarrow> ('m, 'p) bpf_ops \<Rightarrow> endian \<Rightarrow> string list \<Rightarrow> 'j Runtime \<Rightarrow>
    ('m, 'p, 'n) world \<Rightarrow> ('m, 'p, 'n, 'j) started option" where
  "start_redirect E L en allowed rt w =
     (if cf_GitHubActions (rt_cfg rt) \<or> cf_DNSRedirect (rt_cfg rt) then
        (case splitHostPort (cf_DNSListen (rt_cfg rt)) of (host, port) \<Rightarrow>
        (case DnsRedirect.Enable (se_LookPath E) (se_command E)
                \<lparr>ListenHost = host, ListenPort = port, backend = [], installed = False\<rparr> (w_nat w) of
           (r, nt, err) \<Rightarrow>
             (let w = w\<lparr>w_nat := nt\<rparr>;
                  w = (case err of None \<Rightarrow> w | Some e \<Rightarrow> note_event E EVENT_TYPE_DNS (''dns_redirect_skipped:'' @ e) (rt_log rt) w)
              in start_docker E L en allowed host (rt\<lparr>rt_dnsRedir := Some r\<rparr>) w)))
      else start_bpf E L en allowed rt w)"

definition start_dns :: "('m, 'p, 'n, 'j) start_env \<Rightarrow> ('m, 'p) bpf_ops \<Rightarrow> endian \<Rightarrow> 'j Runtime \<Rightarrow>
    ('m, 'p, 'n) world \<Rightarrow> ('m, 'p, 'n, 'j) started option" where
  "start_dns E L en rt w =
     (let allowed = MergeAllowed (pl_AutoAllowGithubHosts (rt_policy rt) \<or> cf_GitHubActions (rt_cfg rt)) (pl_AllowedHosts (rt_policy rt));
          p = \<lparr>px_Upstream = cf_DNSUpstream (rt_cfg rt), px_Mode = pl_Mode (rt_policy rt), px_Allowed = allowed,
               px_Denied = pl_DeniedHosts (rt_policy rt), px_OnEvent = True, px_OnAllow = True, px_server = None\<rparr> in
      case DnsProxy.Start (se_binds E) (cf_DNSListen (rt_cfg rt)) p (w_net w) of
        (p, net, Some e) \<Rightarrow> Some (fail_close E (rt\<lparr>rt_dns := Some p\<rparr>) e (w\<lparr>w_net := net\<rparr>))
      | (p, net, None) \<Rightarrow> start_redirect E L en allowed (rt\<lparr>rt_dns := Some p\<rparr>) (w\<lparr>w_net := net\<rparr>))"

definition start_lock :: "('m, 'p, 'n, 'j) start_env \<Rightarrow> ('m, 'p) bpf_ops \<Rightarrow> endian \<Rightarrow> 'j Runtime \<Rightarrow>
    ('m, 'p, 'n) world \<Rightarrow> ('m, 'p, 'n, 'j) started option" where
  "start_lock E L en rt w =
     (if pl_DisableSudo (rt_policy rt) then
        (let l = \<lparr>SudoersFile = [], StateFile = [], Username = [], AllowCmds = []\<rparr> in
         case SudoLockdown.Enable (se_user E) (se_lookup_user E) (se_sudoers E) (se_sudo_state E) l (w_fs w) of
           (fs, Some e) \<Rightarrow>
             (case EventLog.Close (se_log_close E) (rt_log rt) fs of
                (_, fs, _) \<Rightarrow> Some (fail_with E (rt_cfg rt) (lockdown_text (se_quote E) e) (w\<lparr>w_fs := fs\<rparr>)))
         | (fs, None) \<Rightarrow> start_dns E L en (rt\<lparr>rt_lock := Some l\<rparr>) (w\<lparr>w_fs := fs\<rparr>))
      else start_dns E L en rt w)"

definition Start :: "('m, 'p, 'n, 'j) start_env \<Rightarrow> ('m, 'p) bpf_ops \<Rightarrow> endian \<Rightarrow> Config \<Rightarrow> ('m, 'p, 'n) world \<Rightarrow>
    ('m, 'p, 'n, 'j) started option" where
  "Start E L en cfg w =
     (let cfg = defaults (se_getenv E) cfg in
      case se_mkdir E of
        Some e \<Rightarrow> Some (Inl e, w)
      | None \<Rightarrow>
         (let w = w\<lparr>w_fs := remove_file (cf_StatusFile cfg) (remove_file (cf_FailureFile cfg)
                    (remove_file (cf_ReadyFile cfg) (w_fs w)))\<rparr> in
          case se_gha E of
            Inl e \<Rightarrow> Some (fail_with E cfg e w)
          | Inr g \<Rightarrow>
             (case load_policy E cfg g (w_fs w) of
                Inl e \<Rightarrow> Some (fail_with E cfg e w)
              | Inr (client, pol) \<Rightarrow>
                 (case EventLog.Open (se_open E) (cf_LogPath cfg) (w_fs w) of
                    (fs, Inl e) \<Rightarrow> Some (fail_with E cfg e (w\<lparr>w_fs := fs\<rparr>))
                  | (fs, Inr l) \<Rightarrow>
                      start_lock E L en
                        \<lparr>rt_cfg = cfg, rt_policy = pol, rt_ghac = g, rt_log = l, rt_dns = None, rt_lock = None, rt_dnsRedir = None,
                         rt_dockerDNS = None, rt_client = client, rt_consuming = False\<rparr> (w\<lparr>w_fs := fs\<rparr>)))))"

end
