(* ===== verification/RuntimeProps.thy ===== *)
theory RuntimeProps
  imports Runtime
begin

text \<open>
  Properties of the agent's life: when it reports itself ready, what a failed start leaves behind, and what
  closing releases.
\<close>

section \<open>Closing\<close>

lemma close_parts:
  "w_fw (fst (close_docker E rt w)) = w_fw w" "w_fw (fst (close_redir E rt w)) = w_fw w" "w_fw (fst (close_dns rt w)) = w_fw w"
  by (auto simp: close_docker_def close_redir_def close_dns_def split: option.splits prod.splits)

lemma close_rest_fw: "w_fw (fst (close_rest E rt w)) = DetachFirewall (w_fw w)"
  by (auto simp: close_rest_def Let_def split: option.splits prod.splits)

lemma rt_Close_eq:
  "fst (rt_Close E rt w) = fst (close_rest E rt (fst (close_dns rt (fst (close_redir E rt (fst (close_docker E rt w)))))))"
  by (simp add: rt_Close_def split_def)

lemma rt_Close_fw: "w_fw (fst (rt_Close E rt w)) = DetachFirewall (w_fw w)"
  by (simp add: rt_Close_eq close_rest_fw close_parts)

lemma rt_Close_files:
  "fdata (w_fs (fst (rt_Close E rt w))) (cf_ReadyFile (rt_cfg rt)) = None"
  "fdata (w_fs (fst (rt_Close E rt w))) (cf_PidFile (rt_cfg rt)) = None"
  "fdata (w_fs (fst (rt_Close E rt w))) (cf_StatusFile (rt_cfg rt)) = None"
  by (simp_all add: rt_Close_eq close_rest_def Let_def split_def)

lemma fd_close_unlocks: "flock (fd_close fd fs) p \<noteq> Some fd"
  by (simp add: fd_close_def fd_unlock_def)

lemma rt_Close_unlocks:
  "lg_file (rt_log rt) = Some fd \<Longrightarrow> flock (w_fs (fst (rt_Close E rt w))) p \<noteq> Some fd"
  by (simp add: rt_Close_eq close_rest_def Let_def split_def EventLog.Close_def remove_file_def fd_close_unlocks)

lemma close_rest_sudo:
  "rt_lock rt = Some l \<Longrightarrow> fdata (w_fs (fst (close_rest E rt w))) (fst (paths l)) = None"
  by (simp add: close_rest_def Let_def split_def SudoLockdown.Disable_def EventLog.Close_def fd_close_def fd_unlock_def
      split: option.split)

lemma rt_Close_sudo:
  "rt_lock rt = Some l \<Longrightarrow> fdata (w_fs (fst (rt_Close E rt w))) (fst (paths l)) = None"
  by (simp add: rt_Close_eq close_rest_sudo)

section \<open>Failing\<close>

lemma fail_close_fw: "w_fw (snd (fail_close E rt e w)) = DetachFirewall (w_fw w)"
  by (simp add: fail_close_def fail_with_def rt_Close_fw)

lemma fail_close_err: "fst (fail_close E rt e w) = Inl e"
  by (simp add: fail_close_def fail_with_def)

lemma writeFail_fdata:
  "q \<noteq> path \<Longrightarrow> fdata (writeFail out path e fs) q = fdata fs q"
  "path \<noteq> [] \<Longrightarrow> fdata (writeFail FOk path e fs) path = Some (e @ [newline])"
  by (simp_all add: writeFail_def write_file_fdata)

lemma fail_close_ready:
  "cf_ReadyFile (rt_cfg rt) \<noteq> cf_FailureFile (rt_cfg rt) \<Longrightarrow>
   fdata (w_fs (snd (fail_close E rt e w))) (cf_ReadyFile (rt_cfg rt)) = None"
  by (simp add: fail_close_def fail_with_def writeFail_fdata rt_Close_files)

section \<open>Outcomes of a start\<close>

text \<open>What every start that gets past reading the policy satisfies, for the configuration and policy it runs with:
  if it succeeds the ready file tells whether the firewall is loaded, which it is when it is required; if it
  fails the firewall is idle and there is no ready file.\<close>

definition start_ok :: "Config \<Rightarrow> AgentPolicy \<Rightarrow> 'j Runtime \<Rightarrow> ('m, 'p, 'n) world \<Rightarrow> bool" where
  "start_ok cfg pol rt w \<longleftrightarrow> rt_cfg rt = cfg \<and> rt_policy rt = pol \<and> fw_inv (w_fw w)
     \<and> (require_bpf pol \<longrightarrow> loaded (w_fw w))
     \<and> fdata (w_fs w) (cf_ReadyFile cfg) = Some ((if loaded (w_fw w) then ''ok bpf=1'' else ''ok bpf=0'') @ [newline])"

definition outcome_ok :: "Config \<Rightarrow> AgentPolicy \<Rightarrow> ('m, 'p, 'n, 'j) started \<Rightarrow> bool" where
  "outcome_ok cfg pol r = (case fst r of
     Inr rt \<Rightarrow> start_ok cfg pol rt (snd r)
   | Inl e \<Rightarrow> fw_idle (w_fw (snd r)) \<and> (cf_ReadyFile cfg \<noteq> cf_FailureFile cfg \<longrightarrow> fdata (w_fs (snd r)) (cf_ReadyFile cfg) = None))"

lemma outcome_fail_close:
  "fw_inv (w_fw w) \<Longrightarrow> rt_cfg rt = cfg \<Longrightarrow> outcome_ok cfg pol (fail_close E rt e w)"
  using fail_close_ready [of rt E e w]
  by (auto simp: outcome_ok_def fail_close_err fail_close_fw detach_idle)

lemma write_file_ok: "write_file out path c fs = (fs', None) \<Longrightarrow> fdata fs' path = Some c"
  by (auto simp: write_file_def split: file_outcome.splits)

lemma outcome_ready:
  assumes inv: "fw_inv (w_fw w)" "rt_cfg rt = cfg" "rt_policy rt = pol" "require_bpf pol \<Longrightarrow> loaded (w_fw w)"
    and b: "b = loaded (w_fw w)"
  shows "outcome_ok cfg pol (start_ready E b rt w)"
proof -
  obtain fs1 e1 where w1: "write_file (se_pid_out E) (cf_PidFile cfg) (dec_digits (se_pid E) @ [newline]) (w_fs w) = (fs1, e1)"
    by (metis surj_pair)
  obtain fs2 e2 where w2: "write_file (se_ready_out E) (cf_ReadyFile cfg)
      ((if b then ''ok bpf=1'' else ''ok bpf=0'') @ [newline]) fs1 = (fs2, e2)"
    by (metis surj_pair)
  have f: "outcome_ok cfg pol (fail_close E rt e (w\<lparr>w_fs := fs\<rparr>))" for e fs
    using inv by (intro outcome_fail_close) simp_all
  show ?thesis
  proof (cases e1)
    case Some
    with f show ?thesis by (simp add: start_ready_def inv(2) w1)
  next
    case None
    show ?thesis
    proof (cases e2)
      case Some
      with f None show ?thesis by (simp only: start_ready_def inv(2) w1 w2 prod.case option.case)
    next
      case None2: None
      have "start_ready E b rt w = (Inr rt, w\<lparr>w_fs := fs2\<rparr>)"
        using None None2 by (simp only: start_ready_def inv(2) w1 w2 prod.case option.case)
      with inv b write_file_ok [OF w2 [unfolded None2]] show ?thesis by (simp add: outcome_ok_def start_ok_def)
    qed
  qed
qed

lemma note_event_fw [simp]: "w_fw (note_event E ty rule l w) = w_fw w"
  by (simp add: note_event_def)

lemma AllowPrefix_inv:
  "AllowPrefix L en p s = Some (s', err) \<Longrightarrow> fw_inv s \<Longrightarrow> fw_inv s' \<and> loaded s' = loaded s"
  using step_inv [OF fw_step.allow_prefix, of L en p s s' err] AllowPrefix_total [of L en p s] by auto

lemma AllowIP_inv:
  "AllowIP L en a s = Some (s', err) \<Longrightarrow> fw_inv s \<Longrightarrow> fw_inv s' \<and> loaded s' = loaded s"
  using step_inv [OF fw_step.allow_ip, of L en a s s' err]
  by (auto simp: AllowIP_cases putV4_def putV6_def split: if_splits Addr.splits sum.splits)

text \<open>What the two insertions keep, the loops over a policy's prefixes and over the addresses to seed keep as well.\<close>

locale kept_by_insertions =
  fixes L :: "('m, 'p) bpf_ops" and en :: endian and P :: "('m, 'p) fw \<Rightarrow> bool"
  assumes AllowIP_keeps: "AllowIP L en a s = Some (s', err) \<Longrightarrow> P s \<Longrightarrow> P s'"
    and AllowPrefix_keeps: "AllowPrefix L en p s = Some (s', err) \<Longrightarrow> P s \<Longrightarrow> P s'"
begin

lemma cidrs_keep: "ParseAndAllowCIDRs parse L en cidrs s = Some (s', n, errs) \<Longrightarrow> P s \<Longrightarrow> P s'"
proof (induction cidrs arbitrary: s n errs)
  case (Cons c cidrs)
  then show ?case by (fastforce split: sum.splits bind_splits option.splits dest: AllowPrefix_keeps)
qed simp

lemma each_keep: "allow_each (AllowIP L en) as s n = Some (s', m) \<Longrightarrow> P s \<Longrightarrow> P s'"
proof (induction as arbitrary: s n)
  case (Cons a as)
  then show ?case by (fastforce split: bind_splits dest: AllowIP_keeps)
qed simp

lemma Run_keeps: "Run proc lookup hosts (AllowIP L en) s = Some (s', c, r) \<Longrightarrow> P s \<Longrightarrow> P s'"
  using Run_each [of proc lookup hosts "AllowIP L en" s] each_keep [of "seeded proc lookup hosts" s 0 s' "c + r"]
  by simp

end

interpretation sound: kept_by_insertions L en "\<lambda>s. fw_inv s \<and> loaded s = l" for L en l
  by unfold_locales (auto dest: AllowIP_inv AllowPrefix_inv)

lemma seed_inv:
  "seed_cidrs E L en rt w = Some w' \<Longrightarrow> fw_inv (w_fw w) \<Longrightarrow> fw_inv (w_fw w') \<and> loaded (w_fw w') = loaded (w_fw w)"
  "seed_hosts E L en allowed rt w = Some w' \<Longrightarrow> fw_inv (w_fw w) \<Longrightarrow> fw_inv (w_fw w') \<and> loaded (w_fw w') = loaded (w_fw w)"
  by (auto simp: seed_cidrs_def seed_hosts_def Let_def split: bind_splits if_splits
      dest!: sound.cidrs_keep [OF _ conjI [OF _ HOL.refl]] sound.Run_keeps [OF _ conjI [OF _ HOL.refl]])

lemma outcome_bpf:
  assumes "fw_idle (w_fw w)" "rt_cfg rt = cfg" "rt_policy rt = pol" "start_bpf E L en allowed rt w = Some r"
  shows "outcome_ok cfg pol r"
proof -
  obtain f err where a: "AttachFirewall (se_attach E) (pl_Mode pol = MODE_MONITOR) (pl_WatchSudo pol) (w_fw w) = (f, err)"
    by (metis surj_pair)
  note att = attach_outcome [OF assms(1), of "se_attach E" "pl_Mode pol = MODE_MONITOR" "pl_WatchSudo pol", unfolded a]
  show ?thesis
  proof (cases err)
    case (Some e)
    with att have idle: "fw_idle f" by (auto simp: stage_ok_def split: if_splits)
    let ?w = "note_event E EVENT_TYPE_CONNECT (''bpf_attach_skipped:'' @ e) (rt_log rt) (w\<lparr>w_fw := f\<rparr>)"
    have inv: "fw_inv (w_fw ?w)" "\<not> loaded (w_fw ?w)" using idle idle_inv by (auto simp: fw_idle_def)
    have "r = (if require_bpf pol then fail_close E rt (''bpf required: '' @ e) ?w else start_ready E False rt ?w)"
      using assms(3,4) a Some by (auto simp: start_bpf_def Let_def split: if_splits)
    moreover have "outcome_ok cfg pol (fail_close E rt (''bpf required: '' @ e) ?w)"
      by (rule outcome_fail_close [OF inv(1) assms(2)])
    moreover have "\<not> require_bpf pol \<Longrightarrow> outcome_ok cfg pol (start_ready E False rt ?w)"
      by (rule outcome_ready [OF inv(1) assms(2,3)]) (use inv(2) in simp_all)
    ultimately show ?thesis by (cases "require_bpf pol") (simp_all only: if_True if_False not_False_eq_True simp_thms)
  next
    case None
    with att have up: "fw_inv f" "loaded f" by (auto simp: stage_ok_def split: if_splits)
    from assms(3,4) a None obtain w1 w2 where s: "seed_cidrs E L en rt (w\<lparr>w_fw := f\<rparr>) = Some w1"
        "seed_hosts E L en allowed rt w1 = Some w2"
        "r = start_ready E True (rt\<lparr>rt_consuming := eventCh (w_fw w2)\<rparr>) w2"
      by (auto simp: start_bpf_def split: bind_splits)
    from seed_inv(1) [OF s(1)] up have u1: "fw_inv (w_fw w1)" "loaded (w_fw w1)" by simp_all
    from seed_inv(2) [OF s(2)] u1 have u2: "fw_inv (w_fw w2)" "loaded (w_fw w2)" by simp_all
    show ?thesis unfolding s(3) by (rule outcome_ready) (use u2 assms(2,3) in simp_all)
  qed
qed

lemma outcome_docker:
  assumes "fw_idle (w_fw w)" "rt_cfg rt = cfg" "rt_policy rt = pol" "start_docker E L en allowed host rt w = Some r"
  shows "outcome_ok cfg pol r"
proof (cases "cf_GitHubActions cfg")
  case True
  with assms(2,4) obtain d fs err where b: "start_bpf E L en allowed (rt\<lparr>rt_dockerDNS := Some d\<rparr>)
      (case err of None \<Rightarrow> w\<lparr>w_fs := fs\<rparr>
       | Some e \<Rightarrow> note_event E EVENT_TYPE_DNS (''docker_dns_skipped:'' @ e) (rt_log rt) (w\<lparr>w_fs := fs\<rparr>)) = Some r"
    by (auto simp: start_docker_def Let_def split: bind_splits)
  show ?thesis by (rule outcome_bpf [OF _ _ _ b]) (use assms(1-3) in \<open>simp_all split: option.split\<close>)
next
  case False
  with assms show ?thesis by (auto simp: start_docker_def intro: outcome_bpf)
qed

lemma outcome_redirect:
  assumes "fw_idle (w_fw w)" "rt_cfg rt = cfg" "rt_policy rt = pol" "start_redirect E L en allowed rt w = Some r"
  shows "outcome_ok cfg pol r"
proof (cases "cf_GitHubActions cfg \<or> cf_DNSRedirect cfg")
  case True
  with assms(2,4) obtain rd host nt err where b: "start_docker E L en allowed host (rt\<lparr>rt_dnsRedir := Some rd\<rparr>)
      (case err of None \<Rightarrow> w\<lparr>w_nat := nt\<rparr>
       | Some e \<Rightarrow> note_event E EVENT_TYPE_DNS (''dns_redirect_skipped:'' @ e) (rt_log rt) (w\<lparr>w_nat := nt\<rparr>)) = Some r"
    by (auto simp: start_redirect_def Let_def split: prod.splits)
  show ?thesis by (rule outcome_docker [OF _ _ _ b]) (use assms(1-3) in \<open>simp_all split: option.split\<close>)
next
  case False
  with assms show ?thesis by (auto simp: start_redirect_def intro: outcome_bpf)
qed

lemma outcome_dns:
  assumes "fw_idle (w_fw w)" "rt_cfg rt = cfg" "rt_policy rt = pol" "start_dns E L en rt w = Some r"
  shows "outcome_ok cfg pol r"
proof -
  from assms(4) obtain allowed p net where
    "start_redirect E L en allowed (rt\<lparr>rt_dns := Some p\<rparr>) (w\<lparr>w_net := net\<rparr>) = Some r"
    by (auto simp: start_dns_def Let_def DnsProxy.Start_def)
  with assms(1-3) show ?thesis by (intro outcome_redirect [of "w\<lparr>w_net := net\<rparr>" _ cfg pol]) simp_all
qed

text \<open>The paths the agent writes besides its ready file.\<close>

definition ready_apart :: "Config \<Rightarrow> bool" where
  "ready_apart cfg \<longleftrightarrow> cf_ReadyFile cfg \<notin> {cf_FailureFile cfg, cf_LogPath cfg, [], defaultSudoersFile, defaultStateFile}"

lemma log_close_fdata [simp]: "EventLog.Close cerr l fs = (l', fs', e) \<Longrightarrow> fdata fs' = fdata fs"
  by (auto simp: EventLog.Close_def fd_close_def fd_unlock_def split: option.splits)

lemma outcome_fail_with:
  "fw_idle (w_fw w) \<Longrightarrow> fdata (w_fs w) (cf_ReadyFile cfg) = None \<Longrightarrow> outcome_ok cfg pol (fail_with E cfg e w)"
  by (simp add: outcome_ok_def fail_with_def writeFail_fdata)

lemma outcome_lock:
  assumes "fw_idle (w_fw w)" "rt_cfg rt = cfg" "rt_policy rt = pol" "start_lock E L en rt w = Some r"
    and "ready_apart cfg" "fdata (w_fs w) (cf_ReadyFile cfg) = None"
  shows "outcome_ok cfg pol r"
proof (cases "pl_DisableSudo pol")
  case False
  with assms(3,4) have "start_dns E L en rt w = Some r" by (simp add: start_lock_def)
  with assms(1-3) show ?thesis by (rule outcome_dns)
next
  case True
  let ?l = "\<lparr>SudoersFile = [], StateFile = [], Username = [], AllowCmds = []\<rparr>"
  obtain fs err where e: "SudoLockdown.Enable (se_user E) (se_lookup_user E) (se_sudoers E) (se_sudo_state E) ?l (w_fs w) = (fs, err)"
    by (metis surj_pair)
  show ?thesis
  proof (cases err)
    case None
    with True e assms(3,4) have "start_dns E L en (rt\<lparr>rt_lock := Some ?l\<rparr>) (w\<lparr>w_fs := fs\<rparr>) = Some r"
      by (simp add: start_lock_def Let_def)
    from outcome_dns [OF _ _ _ this] assms(1-3) show ?thesis by simp
  next
    case (Some x)
    obtain l' fs' ce where c: "EventLog.Close (se_log_close E) (rt_log rt) fs = (l', fs', ce)" by (metis surj_pair)
    with Some True e assms(2-4)
    have r: "r = fail_with E cfg (lockdown_text (se_quote E) x) (w\<lparr>w_fs := fs'\<rparr>)"
      by (simp add: start_lock_def Let_def)
    have "fdata fs (cf_ReadyFile cfg) = None"
      using Enable_frame [OF e, of "cf_ReadyFile cfg"] assms(5,6) by (simp add: ready_apart_def paths_def)
    with c assms(1) show ?thesis unfolding r by (intro outcome_fail_with) simp_all
  qed
qed

lemma Open_frame:
  "EventLog.Open out path fs = (fs', r) \<Longrightarrow> q \<noteq> path \<Longrightarrow> path \<noteq> [] \<Longrightarrow> fdata fs' q = fdata fs q"
  by (auto simp: EventLog.Open_def Let_def fd_close_def fd_unlock_def split: option.splits if_splits)

lemma defaults_log [simp]: "cf_LogPath (defaults getenv cfg) \<noteq> []"
  by (simp add: defaults_def or_default_def DefaultLogPath_def)

text \<open>The steps of \<open>Start\<close> before the lockdown: the files cleared, the policy read, the log opened.\<close>

definition cleared :: "Config \<Rightarrow> osfs \<Rightarrow> osfs" where
  "cleared c fs = remove_file (cf_StatusFile c) (remove_file (cf_FailureFile c) (remove_file (cf_ReadyFile c) fs))"

abbreviation new_runtime :: "Config \<Rightarrow> AgentPolicy \<Rightarrow> 'j Context \<Rightarrow> Client \<Rightarrow> Logger \<Rightarrow> 'j Runtime" where
  "new_runtime c pol g client l \<equiv> \<lparr>rt_cfg = c, rt_policy = pol, rt_ghac = g, rt_log = l, rt_dns = None, rt_lock = None,
     rt_dnsRedir = None, rt_dockerDNS = None, rt_client = client, rt_consuming = False\<rparr>"

lemma cleared_ready: "fdata (cleared c fs) (cf_ReadyFile c) = None"
  by (simp add: cleared_def)

lemma Start_cases:
  assumes "Start E L en cfg w = s" "c = defaults (se_getenv E) cfg"
  obtains (dir) e where "se_mkdir E = Some e" "s = Some (Inl e, w)"
    | (policy) e where "se_mkdir E = None" "s = Some (fail_with E c e (w\<lparr>w_fs := cleared c (w_fs w)\<rparr>))"
    | (log) e fs where "se_mkdir E = None" "EventLog.Open (se_open E) (cf_LogPath c) (cleared c (w_fs w)) = (fs, Inl e)"
        "s = Some (fail_with E c e (w\<lparr>w_fs := fs\<rparr>))"
    | (begun) g client pol fs l where "se_mkdir E = None" "se_gha E = Inr g"
        "load_policy E c g (cleared c (w_fs w)) = Inr (client, pol)"
        "EventLog.Open (se_open E) (cf_LogPath c) (cleared c (w_fs w)) = (fs, Inr l)"
        "s = start_lock E L en (new_runtime c pol g client l) (w\<lparr>w_fs := fs\<rparr>)"
proof (cases "se_mkdir E")
  case (Some e)
  with assms(1) [symmetric] show thesis by (intro dir) (simp_all add: Start_def Let_def)
next
  case mk: None
  let ?fs = "cleared c (w_fs w)"
  note Start = assms(1) [unfolded Start_def Let_def, folded assms(2) cleared_def, symmetric]
  show thesis
  proof (cases "se_gha E")
    case (Inl e)
    with Start mk show thesis by (intro policy) simp_all
  next
    case g: (Inr g)
    show thesis
    proof (cases "load_policy E c g ?fs")
      case (Inl e)
      with Start mk g show thesis by (intro policy) simp_all
    next
      case (Inr cp)
      obtain client pol where cp: "cp = (client, pol)" by (cases cp)
      obtain fs res where op: "EventLog.Open (se_open E) (cf_LogPath c) ?fs = (fs, res)" by (metis surj_pair)
      with Start mk g Inr cp show thesis by (cases res) (auto intro: log begun)
    qed
  qed
qed

lemma Start_outcome:
  assumes "fw_idle (w_fw w)" "se_mkdir E = None" "ready_apart (defaults (se_getenv E) cfg)"
    and "Start E L en cfg w = Some (r, w')"
  shows "\<exists>pol. outcome_ok (defaults (se_getenv E) cfg) pol (r, w')"
proof -
  let ?c = "defaults (se_getenv E) cfg"
  have absent: "fdata fs (cf_ReadyFile ?c) = None"
    if "EventLog.Open (se_open E) (cf_LogPath ?c) (cleared ?c (w_fs w)) = (fs, res)" for fs res
    using Open_frame [OF that, of "cf_ReadyFile ?c"] assms(3) by (simp add: ready_apart_def cleared_def)
  from assms(4) HOL.refl show ?thesis
  proof (cases rule: Start_cases)
    case (dir e)
    with assms(2) show ?thesis by simp
  next
    case (policy e)
    with assms(1) outcome_fail_with [of "w\<lparr>w_fs := cleared ?c (w_fs w)\<rparr>" ?c undefined E e] show ?thesis
      by (auto simp: cleared_ready)
  next
    case (log e fs)
    with assms(1) absent [OF log(2)] outcome_fail_with [of "w\<lparr>w_fs := fs\<rparr>" ?c undefined E e] show ?thesis by auto
  next
    case (begun g client pol fs l)
    from outcome_lock [OF _ _ _ begun(5) [symmetric] assms(3), of pol] assms(1) absent [OF begun(4)] show ?thesis by auto
  qed
qed

section \<open>Properties\<close>


text \<open>A runner: enforcing a local policy, with every outcome good; and one whose BPF object does not load.\<close>

definition policy0 :: AgentPolicy where
  "policy0 = \<lparr>pl_Mode = MODE_ENFORCE, pl_AllowedHosts = [], pl_DeniedHosts = [], pl_AllowedCidrs = [], pl_DisableSudo = False,
     pl_WatchSudo = False, pl_RequireBpf = False, pl_AutoAllowGithubHosts = False, pl_CorrelationId = []\<rparr>"

definition config0 :: Config where
  "config0 = \<lparr>cf_APIURL = ''u'', cf_APIKeyPath = ''k'', cf_ConfigFile = ''c'', cf_LogPath = ''l'', cf_ReadyFile = ''r'',
     cf_FailureFile = ''f'', cf_PidFile = ''p'', cf_StatusFile = ''s'', cf_DNSListen = ''d'', cf_DNSUpstream = ''q'',
     cf_DNSRedirect = False, cf_GitHubActions = False, cf_Status = ''o''\<rparr>"

definition gha0 :: "int Context" where
  "gha0 = \<lparr>RepoOwner = [], RepoName = [], Workflow = [], WorkflowRef = [], RunID = [], RunAttempt = [], Job = [], JobId = [],
     SHA = [], Ref = [], Actor = [], EventName = [], RunnerArch = [], RunnerOS = [], MatrixJSON = [], Matrix = []\<rparr>"

definition runner0 :: "AgentPolicy \<Rightarrow> (ref_trie, ref_lru) outcomes \<Rightarrow>
    (ref_trie, ref_lru, (string \<times> string) list, int) start_env" where
  "runner0 pol out = \<lparr>se_getenv = (\<lambda>s. []), se_version = ''dev'', se_mkdir = None, se_gha = Inr gha0, se_unmarshal = (\<lambda>b. Inr pol),
     se_fetch = (\<lambda>c g. Inr pol), se_open = ok_open, se_user = Inr ''runner'', se_lookup_user = (\<lambda>u. True), se_quote = id,
     se_sudoers = FOk, se_sudo_state = FOk, se_binds = (\<lambda>n. True), se_LookPath = (\<lambda>c. Some c), se_command = ref_run,
     se_codec = codec0, se_docker_read = None, se_docker_write = FOk, se_attach = out,
     se_parse_prefix = (\<lambda>s. Inl ''no prefix''), se_proc = (\<lambda>p. NotExist), se_lookup_host = (\<lambda>h. Inr []), se_marshal = plain_marshal,
     se_wout = ok_write, se_now = 0, se_pid = 7, se_pid_out = FOk, se_ready_out = FOk, se_fail_out = FOk,
     se_docker_restore = FOk, se_log_close = None\<rparr>"

definition world0 :: "(ref_trie, ref_lru, (string \<times> string) list) world" where
  "world0 = \<lparr>w_fw = fw_init ref_boot, w_fs = fs0\<lparr>fdata := [''c'' \<mapsto> ''{}'']\<rparr>, w_net = [], w_nat = []\<rparr>"

lemma world0_idle: "fw_idle (w_fw world0)"
  by (simp add: world0_def fw_init_def fw_idle_def)

lemma runner0_defaults: "defaults (se_getenv (runner0 pol out)) config0 = config0"
  by (simp add: runner0_def defaults_def or_default_def config0_def)

lemma runner0_apart: "se_mkdir (runner0 pol out) = None" "ready_apart config0"
  by (simp_all add: runner0_def ready_apart_def config0_def defaultSudoersFile_def defaultStateFile_def)

end
