(* ===== verification/StartLive.thy ===== *)
theory StartLive
  imports RuntimeProps Enforcement
begin

text \<open>
  What a successful start amounts to: when it happens, what the proxy then serves, and which packets the filter
  lets through from the first moment.
\<close>

section \<open>What a prefix admits\<close>

definition prefix_admits :: "endian \<Rightarrow> Prefix \<Rightarrow> flow \<Rightarrow> bool" where
  "prefix_admits en p f =
     (prefixValid p \<and>
      (case maskAddr (nat (pBits p)) (pAddr p) of
         AddrZero \<Rightarrow> False
       | Addr4 w \<Rightarrow> admits4 (word_of_int (pBits p)) (mem32 en w) f
       | Addr6 w0 w1 w2 w3 \<Rightarrow> admits6 (word_of_int (pBits p)) (concat (map (mem32 en) [w0, w1, w2, w3])) f))"

definition cidrs_admit :: "(string \<Rightarrow> string + Prefix) \<Rightarrow> endian \<Rightarrow> string list \<Rightarrow> flow \<Rightarrow> bool" where
  "cidrs_admit parse en cidrs f = list_ex (\<lambda>c. case parse c of Inl _ \<Rightarrow> False | Inr p \<Rightarrow> prefix_admits en p f) cidrs"

context lpm_trie
begin

lemma putV4_sound:
  "putV4 L en p w s = (s', err) \<Longrightarrow> flow_allowed L (objs s') f \<Longrightarrow> admits4 p (mem32 en w) f \<or> flow_allowed L (objs s) f"
  using putV4_flow [of en p w s s' f] by (cases err) (auto dest: put_error_same)

lemma putV6_sound:
  "putV6 L en p ws s = (s', err) \<Longrightarrow> flow_allowed L (objs s') f \<Longrightarrow>
   admits6 p (concat (map (mem32 en) ws)) f \<or> flow_allowed L (objs s) f"
  using putV6_flow [of en p ws s s' f] by (cases err) (auto dest: put_error_same)

lemma AllowPrefix_sound:
  assumes "AllowPrefix L en p s = Some (s', err)" "flow_allowed L (objs s') f"
  shows "prefix_admits en p f \<or> flow_allowed L (objs s) f"
proof (cases "prefixValid p \<and> loaded s")
  case False
  with assms show ?thesis by (auto simp: AllowPrefix_cases split: if_splits)
next
  case True
  show ?thesis
  proof (cases "maskAddr (nat (pBits p)) (pAddr p)")
    case AddrZero
    with True assms show ?thesis by (simp add: AllowPrefix_cases)
  next
    case (Addr4 w)
    with True assms putV4_sound [of en "word_of_int (pBits p)" w s s' err f] show ?thesis
      by (simp add: AllowPrefix_cases prefix_admits_def)
  next
    case (Addr6 w0 w1 w2 w3)
    with True assms putV6_sound [of en "word_of_int (pBits p)" "[w0, w1, w2, w3]" s s' err f] show ?thesis
      by (simp add: AllowPrefix_cases prefix_admits_def)
  qed
qed

lemma ParseAndAllowCIDRs_sound:
  "ParseAndAllowCIDRs parse L en cidrs s = Some (s', n, errs) \<Longrightarrow> flow_allowed L (objs s') f \<Longrightarrow>
   cidrs_admit parse en cidrs f \<or> flow_allowed L (objs s) f"
proof (induction cidrs arbitrary: s n errs)
  case (Cons c cidrs)
  show ?case
  proof (cases "parse c")
    case (Inl e)
    with Cons.prems obtain m es where "ParseAndAllowCIDRs parse L en cidrs s = Some (s', m, es)"
      by (auto split: bind_splits)
    from Cons.IH [OF this Cons.prems(2)] Inl show ?thesis by (auto simp: cidrs_admit_def)
  next
    case (Inr p)
    with Cons.prems(1) obtain s1 err m es where p: "AllowPrefix L en p s = Some (s1, err)"
        "ParseAndAllowCIDRs parse L en cidrs s1 = Some (s', m, es)"
      by (auto split: bind_splits option.splits)
    from Cons.IH [OF p(2) Cons.prems(2)] AllowPrefix_sound [OF p(1)] Inr show ?thesis
      by (auto simp: cidrs_admit_def)
  qed
qed simp

end

section \<open>The steps of a start\<close>

text \<open>What the steps between the proxy and the firewall carry along.\<close>

definition carried :: "'j Runtime \<Rightarrow> ('m, 'p, 'n) world \<Rightarrow> 'j Runtime \<Rightarrow> ('m, 'p, 'n) world \<Rightarrow> bool" where
  "carried rt w rt1 w1 \<longleftrightarrow> rt_cfg rt1 = rt_cfg rt \<and> rt_policy rt1 = rt_policy rt \<and> rt_log rt1 = rt_log rt
     \<and> rt_dns rt1 = rt_dns rt \<and> rt_lock rt1 = rt_lock rt \<and> w_fw w1 = w_fw w \<and> w_net w1 = w_net w"

lemma note_event_net [simp]: "w_net (note_event E ty rule l w) = w_net w"
  by (simp add: note_event_def)

lemma carried_note: "carried rt w rt1 (note_event E ty rule l w1) = carried rt w rt1 w1"
  by (simp add: carried_def)

definition docker_panics :: "('m, 'p, 'n, 'j) start_env \<Rightarrow> Config \<Rightarrow> bool" where
  "docker_panics E cfg \<longleftrightarrow> cf_GitHubActions cfg \<and> (\<exists>b. dc_unmarshal (se_codec E) b = Inr None)"

lemma docker_Enable_total:
  "\<forall>b. dc_unmarshal C b \<noteq> Inr None \<Longrightarrow> docker_Enable C rerr out d fs \<noteq> None"
  by (auto simp: docker_Enable_def Let_def split: option.splits sum.splits prod.splits)

lemma docker_reaches:
  "start_docker E L en allowed host rt w = None \<and> docker_panics E (rt_cfg rt)
   \<or> (\<exists>rt1 w1. start_docker E L en allowed host rt w = start_bpf E L en allowed rt1 w1 \<and> carried rt w rt1 w1)"
proof (cases "cf_GitHubActions (rt_cfg rt)")
  case False
  then show ?thesis by (intro disjI2 exI [of _ rt] exI [of _ w]) (simp add: start_docker_def carried_def)
next
  case True
  let ?d = "\<lparr>DaemonJSON = [], DNS = [host], backup = [], hadFile = False, enabled = False\<rparr>"
  show ?thesis
  proof (cases "docker_Enable (se_codec E) (se_docker_read E) (se_docker_write E) ?d (w_fs w)")
  case None
  with True docker_Enable_total [of "se_codec E" "se_docker_read E" "se_docker_write E" ?d "w_fs w"]
  have "docker_panics E (rt_cfg rt)" by (auto simp: docker_panics_def)
  with True None show ?thesis by (simp add: start_docker_def)
next
  case (Some r)
  then obtain d fs err where e: "docker_Enable (se_codec E) (se_docker_read E) (se_docker_write E) ?d (w_fs w) = Some (d, fs, err)"
    by (cases r) auto
  let ?rt = "rt\<lparr>rt_dockerDNS := Some d\<rparr>"
  let ?w = "case err of None \<Rightarrow> w\<lparr>w_fs := fs\<rparr>
     | Some e \<Rightarrow> note_event E EVENT_TYPE_DNS (''docker_dns_skipped:'' @ e) (rt_log rt) (w\<lparr>w_fs := fs\<rparr>)"
  have "start_docker E L en allowed host rt w = start_bpf E L en allowed ?rt ?w"
    using True by (simp add: start_docker_def e Let_def cong: option.case_cong)
  moreover have "carried rt w ?rt ?w" by (simp add: carried_def split: option.split)
  ultimately show ?thesis by blast
  qed
qed

lemma redirect_reaches:
  "start_redirect E L en allowed rt w = None \<and> docker_panics E (rt_cfg rt)
   \<or> (\<exists>rt1 w1. start_redirect E L en allowed rt w = start_bpf E L en allowed rt1 w1 \<and> carried rt w rt1 w1)"
proof (cases "cf_GitHubActions (rt_cfg rt) \<or> cf_DNSRedirect (rt_cfg rt)")
  case False
  then show ?thesis by (intro disjI2 exI [of _ rt] exI [of _ w]) (simp add: start_redirect_def carried_def)
next
  case True
  obtain host port where hp: "splitHostPort (cf_DNSListen (rt_cfg rt)) = (host, port)" by (metis surj_pair)
  obtain r nt err where e: "DnsRedirect.Enable (se_LookPath E) (se_command E)
      \<lparr>ListenHost = host, ListenPort = port, backend = [], installed = False\<rparr> (w_nat w) = (r, nt, err)"
    by (metis prod_cases3)
  let ?rt = "rt\<lparr>rt_dnsRedir := Some r\<rparr>"
  let ?w = "case err of None \<Rightarrow> w\<lparr>w_nat := nt\<rparr>
     | Some e \<Rightarrow> note_event E EVENT_TYPE_DNS (''dns_redirect_skipped:'' @ e) (rt_log rt) (w\<lparr>w_nat := nt\<rparr>)"
  have "start_redirect E L en allowed rt w = start_docker E L en allowed host ?rt ?w"
    using True by (simp add: start_redirect_def hp e Let_def cong: option.case_cong)
  moreover have "carried rt w ?rt ?w" by (simp add: carried_def split: option.split)
  ultimately show ?thesis using docker_reaches [of E L en allowed host ?rt ?w] by (auto simp: carried_def)
qed

text \<open>The proxy of a runtime, and the list it allows.\<close>

definition merged_hosts :: "Config \<Rightarrow> AgentPolicy \<Rightarrow> string list" where
  "merged_hosts cfg pol = MergeAllowed (pl_AutoAllowGithubHosts pol \<or> cf_GitHubActions cfg) (pl_AllowedHosts pol)"

definition proxy_for :: "Config \<Rightarrow> AgentPolicy \<Rightarrow> Proxy" where
  "proxy_for cfg pol = \<lparr>px_Upstream = cf_DNSUpstream cfg, px_Mode = pl_Mode pol, px_Allowed = merged_hosts cfg pol,
     px_Denied = pl_DeniedHosts pol, px_OnEvent = True, px_OnAllow = True, px_server = Some (cf_DNSListen cfg)\<rparr>"

text \<open>Everything from the proxy on either is the panic of the docker step or comes down to the firewall step, with
  the proxy in place.\<close>

definition to_bpf :: "('m, 'p, 'n, 'j) start_env \<Rightarrow> ('m, 'p) bpf_ops \<Rightarrow> endian \<Rightarrow> Config \<Rightarrow> AgentPolicy \<Rightarrow> ('m, 'p, 'n) world \<Rightarrow>
    ('m, 'p, 'n, 'j) started option \<Rightarrow> bool" where
  "to_bpf E L en cfg pol w r \<longleftrightarrow> r = None \<and> docker_panics E cfg
     \<or> (\<exists>rt1 w1. r = start_bpf E L en (merged_hosts cfg pol) rt1 w1 \<and> rt_cfg rt1 = cfg \<and> rt_policy rt1 = pol
          \<and> w_fw w1 = w_fw w \<and> rt_dns rt1 = Some (proxy_for cfg pol))"

lemma dns_reaches: "to_bpf E L en (rt_cfg rt) (rt_policy rt) w (start_dns E L en rt w)"
proof -
  let ?rt = "rt\<lparr>rt_dns := Some (proxy_for (rt_cfg rt) (rt_policy rt))\<rparr>"
  obtain net where "start_dns E L en rt w = start_redirect E L en (merged_hosts (rt_cfg rt) (rt_policy rt)) ?rt (w\<lparr>w_net := net\<rparr>)"
    by (simp add: start_dns_def DnsProxy.Start_def Let_def proxy_for_def merged_hosts_def)
  with redirect_reaches [of E L en "merged_hosts (rt_cfg rt) (rt_policy rt)" ?rt "w\<lparr>w_net := net\<rparr>"]
  show ?thesis by (auto simp: carried_def to_bpf_def)
qed

definition lockable :: "('m, 'p, 'n, 'j) start_env \<Rightarrow> bool" where
  "lockable E \<longleftrightarrow> (\<forall>fs. snd (SudoLockdown.Enable (se_user E) (se_lookup_user E) (se_sudoers E) (se_sudo_state E)
     \<lparr>SudoersFile = [], StateFile = [], Username = [], AllowCmds = []\<rparr> fs) = None)"

lemma lock_reaches:
  "(\<exists>e w1. start_lock E L en rt w = Some (Inl e, w1)) \<and> pl_DisableSudo (rt_policy rt) \<and> \<not> lockable E
   \<or> to_bpf E L en (rt_cfg rt) (rt_policy rt) w (start_lock E L en rt w)"
proof (cases "pl_DisableSudo (rt_policy rt)")
  case False
  then show ?thesis by (simp add: start_lock_def dns_reaches)
next
  case True
  let ?l = "\<lparr>SudoersFile = [], StateFile = [], Username = [], AllowCmds = []\<rparr>"
  obtain fs err where e: "SudoLockdown.Enable (se_user E) (se_lookup_user E) (se_sudoers E) (se_sudo_state E) ?l (w_fs w) = (fs, err)"
    by (metis surj_pair)
  show ?thesis
  proof (cases err)
    case None
    with True e have "start_lock E L en rt w = start_dns E L en (rt\<lparr>rt_lock := Some ?l\<rparr>) (w\<lparr>w_fs := fs\<rparr>)"
      by (simp add: start_lock_def Let_def)
    with dns_reaches [of E L en "rt\<lparr>rt_lock := Some ?l\<rparr>" "w\<lparr>w_fs := fs\<rparr>"] show ?thesis by (simp add: to_bpf_def)
  next
    case (Some x)
    with e have "\<not> lockable E" by (auto simp: lockable_def intro!: exI [of _ "w_fs w"])
    with True e Some show ?thesis by (simp add: start_lock_def Let_def fail_with_def split_def)
  qed
qed

lemma Start_reaches:
  assumes "c = defaults (se_getenv E) cfg" "se_mkdir E = None" "se_gha E = Inr g"
    and "load_policy E c g (cleared c (w_fs w)) = Inr (client, pol)"
    and "EventLog.Open (se_open E) (cf_LogPath c) (cleared c (w_fs w)) = (fs, Inr l)"
  shows "(\<exists>e w1. Start E L en cfg w = Some (Inl e, w1)) \<and> pl_DisableSudo pol \<and> \<not> lockable E
    \<or> to_bpf E L en c pol w (Start E L en cfg w)"
proof -
  let ?rt = "new_runtime c pol g client l"
  have "Start E L en cfg w = start_lock E L en ?rt (w\<lparr>w_fs := fs\<rparr>)"
    using assms(2-5) unfolding assms(1) by (simp add: Start_def Let_def cleared_def)
  with lock_reaches [of E L en ?rt "w\<lparr>w_fs := fs\<rparr>"] show ?thesis by (simp add: to_bpf_def)
qed

lemma Start_success_inputs:
  assumes "Start E L en cfg w = Some (Inr rt, w')" "c = defaults (se_getenv E) cfg"
  obtains g client pol fs l where "se_mkdir E = None" "se_gha E = Inr g"
    "load_policy E c g (cleared c (w_fs w)) = Inr (client, pol)"
    "EventLog.Open (se_open E) (cf_LogPath c) (cleared c (w_fs w)) = (fs, Inr l)"
  using assms by (cases rule: Start_cases [OF assms]) (auto simp: fail_with_def)

section \<open>The firewall step\<close>

lemma start_ready_inr:
  "start_ready E b rt w = (Inr rt', w') \<Longrightarrow> rt' = rt \<and> w_fw w' = w_fw w"
  by (auto simp: start_ready_def fail_close_def fail_with_def split: prod.splits option.splits)

lemma start_ready_live:
  "se_pid_out E = FOk \<Longrightarrow> se_ready_out E = FOk \<Longrightarrow> \<exists>w'. start_ready E b rt w = (Inr rt, w') \<and> w_fw w' = w_fw w"
  by (simp add: start_ready_def write_file_def)

lemma ParseAndAllowCIDRs_total: "\<exists>s' n errs. ParseAndAllowCIDRs parse L en cidrs s = Some (s', n, errs)"
proof (induction cidrs arbitrary: s)
  case (Cons c cidrs)
  show ?case
  proof (cases "parse c")
    case (Inl e)
    with Cons [of s] show ?thesis by auto
  next
    case (Inr p)
    obtain s1 err where p: "AllowPrefix L en p s = Some (s1, err)" using AllowPrefix_total [of L en p s] by blast
    with Cons [of s1] Inr show ?thesis by (cases err) auto
  qed
qed simp

lemma seeds_total:
  "\<exists>w'. seed_cidrs E L en rt w = Some w'" "\<exists>w'. seed_hosts E L en allowed rt w = Some w'"
proof -
  obtain s' n errs where "ParseAndAllowCIDRs (se_parse_prefix E) L en (pl_AllowedCidrs (rt_policy rt)) (w_fw w) = Some (s', n, errs)"
    using ParseAndAllowCIDRs_total by blast
  then show "\<exists>w'. seed_cidrs E L en rt w = Some w'" by (simp add: seed_cidrs_def Let_def)
  obtain t m where "allow_each (AllowIP L en) (seeded (se_proc E) (se_lookup_host E) allowed) (w_fw w) 0 = Some (t, m)"
    using allow_each_total by blast
  with Run_each [of "se_proc E" "se_lookup_host E" allowed "AllowIP L en" "w_fw w"]
  show "\<exists>w'. seed_hosts E L en allowed rt w = Some w'" by (auto simp: seed_hosts_def)
qed

lemma start_bpf_live:
  assumes "fw_idle (w_fw w)" "all_up (se_attach E)" "se_pid_out E = FOk" "se_ready_out E = FOk"
  shows "\<exists>rt' w'. start_bpf E L en allowed rt w = Some (Inr rt', w') \<and> loaded (w_fw w')
    \<and> rt_cfg rt' = rt_cfg rt \<and> rt_policy rt' = rt_policy rt \<and> rt_dns rt' = rt_dns rt"
proof -
  obtain f err where a: "AttachFirewall (se_attach E) (pl_Mode (rt_policy rt) = MODE_MONITOR) (pl_WatchSudo (rt_policy rt)) (w_fw w) = (f, err)"
    by (metis surj_pair)
  from attach_outcome [OF assms(1), of "se_attach E" "pl_Mode (rt_policy rt) = MODE_MONITOR" "pl_WatchSudo (rt_policy rt)", unfolded a] assms(2)
  have up: "err = None" "fw_inv f" "loaded f" by (simp_all add: stage_ok_def)
  obtain w1 where w1: "seed_cidrs E L en rt (w\<lparr>w_fw := f\<rparr>) = Some w1" using seeds_total(1) by blast
  obtain w2 where w2: "seed_hosts E L en allowed rt w1 = Some w2" using seeds_total(2) by blast
  from seed_inv(1) [OF w1] seed_inv(2) [OF w2] up have l: "loaded (w_fw w2)" by simp
  have "start_bpf E L en allowed rt w = Some (start_ready E True (rt\<lparr>rt_consuming := eventCh (w_fw w2)\<rparr>) w2)"
    using a up(1) w1 w2 by (simp add: start_bpf_def)
  moreover obtain w' where "start_ready E True (rt\<lparr>rt_consuming := eventCh (w_fw w2)\<rparr>) w2 = (Inr (rt\<lparr>rt_consuming := eventCh (w_fw w2)\<rparr>), w')"
      "w_fw w' = w_fw w2"
    using start_ready_live [OF assms(3,4)] by blast
  ultimately show ?thesis using l by simp
qed

text \<open>The flows a started agent's filter is open to.\<close>

definition start_admits :: "('m, 'p, 'n, 'j) start_env \<Rightarrow> endian \<Rightarrow> Config \<Rightarrow> AgentPolicy \<Rightarrow> flow \<Rightarrow> bool" where
  "start_admits E en cfg pol f \<longleftrightarrow> cidrs_admit (se_parse_prefix E) en (pl_AllowedCidrs pol) f
     \<or> (\<exists>a \<in> set (seeded (se_proc E) (se_lookup_host E) (merged_hosts cfg pol)). addr_admits en a f)"

lemma note_event_only_fs: "seed_cidrs E L en rt w = Some w' \<Longrightarrow>
    \<exists>n errs. ParseAndAllowCIDRs (se_parse_prefix E) L en (pl_AllowedCidrs (rt_policy rt)) (w_fw w) = Some (w_fw w', n, errs)"
  by (auto simp: seed_cidrs_def Let_def split: bind_splits if_splits)

lemma seed_hosts_each: "seed_hosts E L en allowed rt w = Some w' \<Longrightarrow>
    \<exists>m. allow_each (AllowIP L en) (seeded (se_proc E) (se_lookup_host E) allowed) (w_fw w) 0 = Some (w_fw w', m)"
  using Run_each [of "se_proc E" "se_lookup_host E" allowed "AllowIP L en" "w_fw w"]
  by (auto simp: seed_hosts_def simp del: append.simps split: bind_splits) metis

lemma flow_allowed_config: "flow_allowed L (k\<lparr>config := c\<rparr>) f = flow_allowed L k f"
  by (simp add: flow_allowed_def)

lemma AllowIP_config: "AllowIP L en a s = Some (s', err) \<Longrightarrow> config (objs s') = config (objs s)"
  using put_frame(3) [of L en 32 _ s] put_frame(4) [of L en 128 _ s]
  by (auto simp: AllowIP_cases split: if_splits Addr.splits) (metis fst_conv)+

lemma AllowPrefix_config: "AllowPrefix L en p s = Some (s', err) \<Longrightarrow> config (objs s') = config (objs s)"
  using put_frame(3) [of L en "word_of_int (pBits p)" _ s] put_frame(4) [of L en "word_of_int (pBits p)" _ s]
  by (auto simp: AllowPrefix_cases split: if_splits Addr.splits) (metis fst_conv)+

interpretation settings: kept_by_insertions L en "\<lambda>s. config (objs s) = c" for L en c
  by unfold_locales (auto dest: AllowIP_config AllowPrefix_config)

text \<open>The firewall through a step that succeeds: attached, then the prefixes, then the addresses.\<close>

abbreviation attached :: "('m, 'p) outcomes \<Rightarrow> bool \<Rightarrow> ('m, 'p) kstate" where
  "attached out audit \<equiv> (o_maps out)\<lparr>config := (config (o_maps out))[0 := if audit then 1 else 0]\<rparr>"

lemma start_bpf_steps:
  assumes "fw_idle (w_fw w)" "start_bpf E L en allowed rt w = Some (Inr rt', w')"
  shows "(rt_cfg rt' = rt_cfg rt \<and> rt_policy rt' = rt_policy rt \<and> rt_dns rt' = rt_dns rt)
    \<and> (loaded (w_fw w') \<longrightarrow> (\<exists>fw f n errs m. objs fw = attached (se_attach E) (pl_Mode (rt_policy rt) = MODE_MONITOR)
         \<and> ParseAndAllowCIDRs (se_parse_prefix E) L en (pl_AllowedCidrs (rt_policy rt)) fw = Some (f, n, errs)
         \<and> allow_each (AllowIP L en) (seeded (se_proc E) (se_lookup_host E) allowed) f 0 = Some (w_fw w', m)))"
proof -
  let ?a = "pl_Mode (rt_policy rt) = MODE_MONITOR"
  obtain fw err where a: "AttachFirewall (se_attach E) ?a (pl_WatchSudo (rt_policy rt)) (w_fw w) = (fw, err)"
    by (metis surj_pair)
  note att = attach_outcome [OF assms(1), of "se_attach E" ?a "pl_WatchSudo (rt_policy rt)", unfolded a]
  show ?thesis
  proof (cases err)
    case (Some e)
    with att have down: "\<not> loaded fw" by (auto simp: stage_ok_def fw_idle_def split: if_splits)
    from assms(2) a Some have "start_ready E False rt (note_event E EVENT_TYPE_CONNECT (''bpf_attach_skipped:'' @ e)
        (rt_log rt) (w\<lparr>w_fw := fw\<rparr>)) = (Inr rt', w')"
      by (auto simp: start_bpf_def Let_def fail_close_def fail_with_def simp del: append.simps split: if_splits)
    from start_ready_inr [OF this] down show ?thesis by simp
  next
    case None
    with att have up: "objs fw = attached (se_attach E) ?a" by (auto simp: stage_ok_def split: if_splits)
    from assms(2) a None obtain w1 w2 where s: "seed_cidrs E L en rt (w\<lparr>w_fw := fw\<rparr>) = Some w1"
        "seed_hosts E L en allowed rt w1 = Some w2"
        "start_ready E True (rt\<lparr>rt_consuming := eventCh (w_fw w2)\<rparr>) w2 = (Inr rt', w')"
      by (auto simp: start_bpf_def split: bind_splits)
    from start_ready_inr [OF s(3)] note_event_only_fs [OF s(1)] seed_hosts_each [OF s(2)] up show ?thesis by auto
  qed
qed

lemma start_bpf_inr:
  assumes "fw_idle (w_fw w)" "start_bpf E L en allowed rt w = Some (Inr rt', w')"
  shows "rt_cfg rt' = rt_cfg rt \<and> rt_policy rt' = rt_policy rt \<and> rt_dns rt' = rt_dns rt"
    and "loaded (w_fw w') \<Longrightarrow> config (objs (w_fw w'))
           = (config (o_maps (se_attach E)))[0 := if pl_Mode (rt_policy rt) = MODE_MONITOR then 1 else 0]"
    and "loaded (w_fw w') \<Longrightarrow> lpm_trie L \<Longrightarrow> flow_allowed L (objs (w_fw w')) f \<Longrightarrow>
         flow_allowed L (o_maps (se_attach E)) f \<or> cidrs_admit (se_parse_prefix E) en (pl_AllowedCidrs (rt_policy rt)) f
         \<or> (\<exists>a \<in> set (seeded (se_proc E) (se_lookup_host E) allowed). addr_admits en a f)"
    and "loaded (w_fw w') \<Longrightarrow> pl_AllowedCidrs (rt_policy rt) = [] \<Longrightarrow> seeded (se_proc E) (se_lookup_host E) allowed = [] \<Longrightarrow>
         objs (w_fw w') = attached (se_attach E) (pl_Mode (rt_policy rt) = MODE_MONITOR)"
proof -
  note steps = start_bpf_steps [OF assms]
  then show "rt_cfg rt' = rt_cfg rt \<and> rt_policy rt' = rt_policy rt \<and> rt_dns rt' = rt_dns rt" by simp
  assume up: "loaded (w_fw w')"
  with steps obtain fw f1 n errs m where s: "objs fw = attached (se_attach E) (pl_Mode (rt_policy rt) = MODE_MONITOR)"
    "ParseAndAllowCIDRs (se_parse_prefix E) L en (pl_AllowedCidrs (rt_policy rt)) fw = Some (f1, n, errs)"
    "allow_each (AllowIP L en) (seeded (se_proc E) (se_lookup_host E) allowed) f1 0 = Some (w_fw w', m)"
    by auto
  show "config (objs (w_fw w')) = (config (o_maps (se_attach E)))[0 := if pl_Mode (rt_policy rt) = MODE_MONITOR then 1 else 0]"
    using settings.each_keep [OF s(3) settings.cidrs_keep [OF s(2)]] s(1) by simp
  show "lpm_trie L \<Longrightarrow> flow_allowed L (objs (w_fw w')) f \<Longrightarrow>
       flow_allowed L (o_maps (se_attach E)) f \<or> cidrs_admit (se_parse_prefix E) en (pl_AllowedCidrs (rt_policy rt)) f
       \<or> (\<exists>a \<in> set (seeded (se_proc E) (se_lookup_host E) allowed). addr_admits en a f)"
    using lpm_trie.allow_each_sound [OF _ s(3), of f] lpm_trie.ParseAndAllowCIDRs_sound [OF _ s(2), of f] s(1)
    by (auto simp: flow_allowed_config)
  show "pl_AllowedCidrs (rt_policy rt) = [] \<Longrightarrow> seeded (se_proc E) (se_lookup_host E) allowed = [] \<Longrightarrow>
       objs (w_fw w') = attached (se_attach E) (pl_Mode (rt_policy rt) = MODE_MONITOR)"
    using s by simp
qed

lemma Start_inr:
  assumes "Start E L en cfg w = Some (Inr rt, w')"
  obtains rt1 w1 where "start_bpf E L en (merged_hosts (rt_cfg rt1) (rt_policy rt1)) rt1 w1 = Some (Inr rt, w')"
    "rt_cfg rt1 = defaults (se_getenv E) cfg" "w_fw w1 = w_fw w" "rt_dns rt1 = Some (proxy_for (rt_cfg rt1) (rt_policy rt1))"
proof -
  obtain g client pol fs l where i: "se_mkdir E = None" "se_gha E = Inr g"
    "load_policy E (defaults (se_getenv E) cfg) g (cleared (defaults (se_getenv E) cfg) (w_fs w)) = Inr (client, pol)"
    "EventLog.Open (se_open E) (cf_LogPath (defaults (se_getenv E) cfg)) (cleared (defaults (se_getenv E) cfg) (w_fs w)) = (fs, Inr l)"
    using Start_success_inputs [OF assms HOL.refl] by blast
  from Start_reaches [OF HOL.refl i, of L en] assms
  have "to_bpf E L en (defaults (se_getenv E) cfg) pol w (Some (Inr rt, w'))" by auto
  then obtain rt1 w1 where "start_bpf E L en (merged_hosts (rt_cfg rt1) (rt_policy rt1)) rt1 w1 = Some (Inr rt, w')"
    "rt_cfg rt1 = defaults (se_getenv E) cfg" "w_fw w1 = w_fw w" "rt_dns rt1 = Some (proxy_for (rt_cfg rt1) (rt_policy rt1))"
    by (auto simp: to_bpf_def)
  then show thesis by (rule that)
qed

section \<open>Properties\<close>

text \<open>The filter is closed from the first moment. When the agent has started with the filter loaded into fresh maps
  and the mode is not monitor, every packet the filter looks at is dropped unless its flow is admitted by a CIDR of
  the policy or by a seeded address (an endpoint of the socket tables, or a resolved allowed host); and the proxy that
  serves the queries carries the lists of that policy. The upstream resolver is not among the exceptions: nothing
  in \<open>Start\<close> admits the proxy's own queries.\<close>

theorem Start_enforces:
  assumes "lpm_trie L" "fw_idle (w_fw w)" "Start E L en cfg w = Some (Inr rt, w')" "loaded (w_fw w')"
    and "config (o_maps (se_attach E)) = [0, 0]" "\<forall>f. \<not> flow_allowed L (o_maps (se_attach E)) f"
    and "pl_Mode (rt_policy rt) \<noteq> MODE_MONITOR"
    and "flow_of en skb = Some f" "\<not> start_admits E en (rt_cfg rt) (rt_policy rt) f"
  shows "map_option fst (censor_egress L en h skb (objs (w_fw w'))) = Some TC_ACT_SHOT
    \<and> rt_dns rt = Some (proxy_for (rt_cfg rt) (rt_policy rt))"
proof -
  obtain rt1 w1 where b: "start_bpf E L en (merged_hosts (rt_cfg rt1) (rt_policy rt1)) rt1 w1 = Some (Inr rt, w')"
    "w_fw w1 = w_fw w" "rt_dns rt1 = Some (proxy_for (rt_cfg rt1) (rt_policy rt1))"
    using Start_inr [OF assms(3)] by blast
  have idle: "fw_idle (w_fw w1)" using assms(2) b(2) by simp
  note s = start_bpf_inr [OF idle b(1)]
  have "audit_mode (objs (w_fw w')) = 0"
    using s(1) s(2) [OF assms(4)] assms(5,7) by (simp add: audit_mode_def array_lookup_def)
  moreover have "\<not> flow_allowed L (objs (w_fw w')) f"
    using s(3) [OF assms(4,1), of f] s(1) assms(6,9) by (auto simp: start_admits_def)
  ultimately show ?thesis using assms(8) s(1) b(3) by (simp add: egress_flow flow_step_def flow_verdict_def)
qed

lemma runner0_inputs:
  assumes "E = runner0 pol out"
  shows "se_mkdir E = None" "se_gha E = Inr gha0"
    "\<exists>client. load_policy E (defaults (se_getenv E) config0) gha0 (cleared (defaults (se_getenv E) config0) (w_fs world0)) = Inr (client, pol)"
    "\<exists>fs l. EventLog.Open (se_open E) (cf_LogPath (defaults (se_getenv E) config0))
       (cleared (defaults (se_getenv E) config0) (w_fs world0)) = (fs, Inr l)"
    "\<not> docker_panics E (defaults (se_getenv E) config0)"
  unfolding assms runner0_defaults
  by (simp_all add: runner0_def load_policy_def config0_def cleared_def world0_def read_file_def remove_file_def
      EventLog.Open_def ok_open_def fs0_def Let_def docker_panics_def)

lemma runner0_reaches:
  assumes "\<not> pl_DisableSudo pol"
  shows "\<exists>rt1 w1. Start (runner0 pol out) L en config0 world0 = start_bpf (runner0 pol out) L en (merged_hosts config0 pol) rt1 w1
    \<and> rt_cfg rt1 = config0 \<and> rt_policy rt1 = pol \<and> w_fw w1 = w_fw world0 \<and> rt_dns rt1 = Some (proxy_for config0 pol)"
proof -
  note i = runner0_inputs [OF HOL.refl, of pol out]
  obtain client where c: "load_policy (runner0 pol out) (defaults (se_getenv (runner0 pol out)) config0) gha0
      (cleared (defaults (se_getenv (runner0 pol out)) config0) (w_fs world0)) = Inr (client, pol)"
    using i(3) by blast
  obtain fs l where op: "EventLog.Open (se_open (runner0 pol out)) (cf_LogPath (defaults (se_getenv (runner0 pol out)) config0))
      (cleared (defaults (se_getenv (runner0 pol out)) config0) (w_fs world0)) = (fs, Inr l)"
    using i(4) by blast
  from Start_reaches [OF HOL.refl i(1,2) c op, of L en] assms i(5) show ?thesis
    by (auto simp: to_bpf_def runner0_defaults)
qed

lemma runner0_up:
  assumes "\<not> pl_DisableSudo pol"
  shows "\<exists>rt w'. Start (runner0 pol outcomes_ok) L en config0 world0 = Some (Inr rt, w') \<and> loaded (w_fw w')
     \<and> rt_cfg rt = config0 \<and> rt_policy rt = pol \<and> rt_dns rt = Some (proxy_for config0 pol)"
proof -
  obtain rt1 w1 where r: "Start (runner0 pol outcomes_ok) L en config0 world0
      = start_bpf (runner0 pol outcomes_ok) L en (merged_hosts config0 pol) rt1 w1"
    "rt_cfg rt1 = config0" "rt_policy rt1 = pol" "w_fw w1 = w_fw world0" "rt_dns rt1 = Some (proxy_for config0 pol)"
    using runner0_reaches [OF assms, of outcomes_ok L en] by auto
  have "fw_idle (w_fw w1)" "all_up (se_attach (runner0 pol outcomes_ok))" "se_pid_out (runner0 pol outcomes_ok) = FOk"
    "se_ready_out (runner0 pol outcomes_ok) = FOk"
    using world0_idle outcomes_ok_up by (simp_all add: r(4) runner0_def)
  from start_bpf_live [OF this, of L en "merged_hosts config0 pol" rt1] r show ?thesis by auto
qed

lemma runner0_fresh:
  "config (o_maps (se_attach (runner0 pol outcomes_ok))) = [0, 0]"
  "\<not> flow_allowed ref_ops (o_maps (se_attach (runner0 pol outcomes_ok))) f"
  by (simp_all add: runner0_def outcomes_ok_def ref_boot_def flow_allowed_def ref_ops_def ref_lookup_def)

lemma policy0_sudo: "\<not> pl_DisableSudo policy0"
  by (simp add: policy0_def)

text \<open>An enforcing agent without hosts, prefixes or connections drops the packets of its own proxy to the upstream
  resolver 8.8.8.8.\<close>

theorem Start_enforces_witness:
  "\<exists>rt w'. Start (runner0 policy0 outcomes_ok) ref_ops LittleEndian config0 world0 = Some (Inr rt, w')
     \<and> map_option fst (censor_egress ref_ops LittleEndian hooks0 (pkt4 8 8 8 8) (objs (w_fw w'))) = Some TC_ACT_SHOT"
proof -
  obtain rt w' where s: "Start (runner0 policy0 outcomes_ok) ref_ops LittleEndian config0 world0 = Some (Inr rt, w')"
    "loaded (w_fw w')" and r: "rt_cfg rt = config0" "rt_policy rt = policy0"
    using runner0_up [OF policy0_sudo] by blast
  obtain f where f: "flow_of LittleEndian (pkt4 8 8 8 8) = Some f" by (simp add: pkt4_flow)
  have "\<not> start_admits (runner0 policy0 outcomes_ok) LittleEndian (rt_cfg rt) (rt_policy rt) f"
    by (simp add: start_admits_def r policy0_def config0_def merged_hosts_def cidrs_admit_def seeded_def runner0_def
        table_addrs_def host_addrs_def proc_paths_def MergeAllowed_def)
  from Start_enforces [OF ref_lpm_trie world0_idle s runner0_fresh(1) _ _ f this] runner0_fresh(2) r s(1) show ?thesis by (auto simp: policy0_def)
qed

text \<open>C4: The start succeeds whenever its surroundings let it. With an idle firewall, a readable context and policy,
  a log that can be opened, the lockdown applicable if it is asked for, a docker configuration that is not the
  text null, every attach step up, and the pid and ready files writable, \<open>Start\<close> returns a runtime with the filter
  loaded, for that policy, with the proxy in place; failures of the redirect, of the docker configuration, of the
  resolver, of the tables and of the log do not stop it.\<close>

theorem Start_succeeds:
  assumes "c = defaults (se_getenv E) cfg" "fw_idle (w_fw w)" "se_mkdir E = None" "se_gha E = Inr g"
    and "load_policy E c g (cleared c (w_fs w)) = Inr (client, pol)"
    and "EventLog.Open (se_open E) (cf_LogPath c) (cleared c (w_fs w)) = (fs, Inr l)"
    and "pl_DisableSudo pol \<Longrightarrow> lockable E" "\<not> docker_panics E c"
    and "all_up (se_attach E)" "se_pid_out E = FOk" "se_ready_out E = FOk"
  shows "\<exists>rt w'. Start E L en cfg w = Some (Inr rt, w') \<and> loaded (w_fw w') \<and> rt_cfg rt = c \<and> rt_policy rt = pol
    \<and> rt_dns rt = Some (proxy_for c pol)"
proof -
  from Start_reaches [OF assms(1,3,4,5,6), of L en] assms(7,8) obtain rt1 w1 where
    r: "Start E L en cfg w = start_bpf E L en (merged_hosts c pol) rt1 w1" "rt_cfg rt1 = c" "rt_policy rt1 = pol"
      "w_fw w1 = w_fw w" "rt_dns rt1 = Some (proxy_for c pol)"
    by (auto simp: to_bpf_def)
  have "fw_idle (w_fw w1)" using assms(2) r(4) by simp
  from start_bpf_live [OF this assms(9-11), of L en "merged_hosts c pol" rt1] r show ?thesis by auto
qed

theorem Start_succeeds_witness:
  "\<exists>rt w'. Start (runner0 (policy0\<lparr>pl_DisableSudo := True\<rparr>) outcomes_ok) ref_ops LittleEndian config0 world0 = Some (Inr rt, w')
     \<and> loaded (w_fw w') \<and> map_option px_Mode (rt_dns rt) = Some MODE_ENFORCE"
proof -
  let ?pol = "policy0\<lparr>pl_DisableSudo := True\<rparr>"
  note i = runner0_inputs [OF HOL.refl, of ?pol outcomes_ok]
  obtain client where c: "load_policy (runner0 ?pol outcomes_ok) (defaults (se_getenv (runner0 ?pol outcomes_ok)) config0) gha0
      (cleared (defaults (se_getenv (runner0 ?pol outcomes_ok)) config0) (w_fs world0)) = Inr (client, ?pol)"
    using i(3) by blast
  obtain fs l where op: "EventLog.Open (se_open (runner0 ?pol outcomes_ok)) (cf_LogPath (defaults (se_getenv (runner0 ?pol outcomes_ok)) config0))
      (cleared (defaults (se_getenv (runner0 ?pol outcomes_ok)) config0) (w_fs world0)) = (fs, Inr l)"
    using i(4) by blast
  have k: "lockable (runner0 ?pol outcomes_ok)"
    by (simp add: lockable_def runner0_def SudoLockdown.Enable_def lockdown_user_def contains_any_def unsafe_chars_def newline_def write_file_def)
  have o: "all_up (se_attach (runner0 ?pol outcomes_ok))" "se_pid_out (runner0 ?pol outcomes_ok) = FOk"
    "se_ready_out (runner0 ?pol outcomes_ok) = FOk"
    using outcomes_ok_up by (simp_all add: runner0_def)
  from Start_succeeds [OF HOL.refl world0_idle i(1,2) c op k i(5) o, of ref_ops LittleEndian]
  show ?thesis by (auto simp: proxy_for_def policy0_def)
qed

text \<open>A runner whose BPF object does not load.\<close>

definition broken0 :: "(ref_trie, ref_lru) outcomes" where
  "broken0 = outcomes_ok\<lparr>o_load := Some ''no BTF''\<rparr>"

lemma broken0_fails: "fw_idle s \<Longrightarrow> \<exists>f. AttachFirewall broken0 a w s = (f, Some ''load bpf: no BTF'') \<and> \<not> loaded f"
  by (simp add: AttachFirewall_def broken0_def outcomes_ok_def fw_idle_def)


end
