(* ===== verification/Lifecycle.thy ===== *)
theory Lifecycle
  imports StartLive
begin

text \<open>
  The rest of \<^verbatim>\<open>internal/agent/runtime.go\<close>: the status handed over at shutdown, the upload of the log, and waiting
  for the agent to be ready.
\<close>

section \<open>Status\<close>

definition ShutdownStatus :: "osfs \<Rightarrow> 'j Runtime \<Rightarrow> string" where
  "ShutdownStatus fs rt =
     (let c = rt_cfg rt;
          s = (if cf_StatusFile c \<noteq> [] then (case read_file fs (cf_StatusFile c) of Inl e \<Rightarrow> [] | Inr b \<Rightarrow> trim_space b) else [])
      in if s \<noteq> [] then s else if cf_Status c \<noteq> [] then cf_Status c else ''success'')"

definition WriteStatus :: "string option \<Rightarrow> file_outcome \<Rightarrow> string \<Rightarrow> string \<Rightarrow> osfs \<Rightarrow> osfs \<times> string option" where
  "WriteStatus mkdir out path status fs =
     (let path = (if path = [] then DefaultStatusFile else path) in
      case mkdir of
        Some e \<Rightarrow> (fs, Some e)
      | None \<Rightarrow> write_file out path (trim_space status @ [newline]) fs)"

section \<open>Upload\<close>

text \<open>\<open>gzip\<close> compresses; writing to a buffer cannot fail. \<open>serr\<close> is the outcome of syncing the log.\<close>

definition upload_meta :: "'j Runtime \<Rightarrow> string \<Rightarrow> string \<Rightarrow> 'x JobContext \<Rightarrow> 'x AgentLogUpload" where
  "upload_meta rt version status jc = \<lparr>lu_CorrelationId = pl_CorrelationId (rt_policy rt), lu_Job = jc,
     lu_Mode = pl_Mode (rt_policy rt), lu_AgentVersion = version, lu_Status = status\<rparr>"

definition Upload :: "(nat \<Rightarrow> error option) \<Rightarrow> (nat \<Rightarrow> nat) \<Rightarrow> ('s, 'x) api_env \<Rightarrow> (string \<Rightarrow> string) \<Rightarrow>
    ((string \<times> 'j json) list \<Rightarrow> string + 'x) \<Rightarrow> string \<Rightarrow> string option \<Rightarrow> 'j Runtime \<Rightarrow> osfs \<Rightarrow> string \<Rightarrow> 's \<Rightarrow>
    error option \<times> 's" where
  "Upload ctx_done rnd A gzip new_struct version serr rt fs status s =
     (if cf_ConfigFile (rt_cfg rt) \<noteq> [] \<and> cf_APIURL (rt_cfg rt) = [] then (None, s)
      else case EventLog.ReadFile serr (rt_log rt) fs of
        Inl e \<Rightarrow> (Some (Plain e), s)
      | Inr raw \<Rightarrow>
         (case GhaContext.Proto new_struct (rt_ghac rt) of
            Inl e \<Rightarrow> (Some (Plain e), s)
          | Inr jc \<Rightarrow> UploadLogs ctx_done rnd A (rt_client rt) (upload_meta rt version status jc) (gzip raw) s))"

section \<open>Waiting\<close>

text \<open>One turn of the loop: the clock as it is read, and the file system at the read of the failure file and at
  the stat of the ready file. Durations are nanoseconds.\<close>

record moment =
  mo_now :: int
  mo_failure :: osfs
  mo_ready :: osfs

definition wait_turn :: "string \<Rightarrow> string \<Rightarrow> moment \<Rightarrow> string option option" where
  "wait_turn ready failure m =
     (case read_file (mo_failure m) failure of
        Inr b \<Rightarrow> if length b > 0 then Some (Some (''censor failed: '' @ trim_space b))
                 else if fdata (mo_ready m) ready \<noteq> None then Some None else None
      | Inl e \<Rightarrow> if fdata (mo_ready m) ready \<noteq> None then Some None else None)"

partial_function (option) wait_loop :: "(nat \<Rightarrow> moment) \<Rightarrow> int \<Rightarrow> string \<Rightarrow> string \<Rightarrow> nat \<Rightarrow> string option option" where
  "wait_loop m deadline ready failure i =
     (if mo_now (m i) < deadline then
        (case wait_turn ready failure (m i) of
           Some r \<Rightarrow> Some r
         | None \<Rightarrow> wait_loop m deadline ready failure (Suc i))
      else Some (Some (''timeout waiting for '' @ ready)))"

definition WaitReady :: "int \<Rightarrow> (nat \<Rightarrow> moment) \<Rightarrow> string \<Rightarrow> string \<Rightarrow> int \<Rightarrow> string option option" where
  "WaitReady start m ready failure timeout =
     wait_loop m (start + timeout) (or_default ready DefaultReadyFile) (or_default failure DefaultFailureFile) 0"

definition poll_interval :: int where
  "poll_interval = 100 * 1000000"

section \<open>Trimming\<close>

lemma trim_left_stops: "find (\<lambda>w. w \<noteq> [] \<and> prefix w (trim_left ws s)) ws = None"
proof (induction ws s rule: trim_left.induct)
  case (1 ws s)
  show ?case
  proof (cases "find (\<lambda>w. w \<noteq> [] \<and> prefix w s) ws")
    case None
    then show ?thesis by (simp add: trim_left.simps [of ws s])
  next
    case (Some w)
    from 1 [OF Some] show ?thesis by (simp add: trim_left.simps [of ws s] Some)
  qed
qed

lemma trim_left_drop: "\<exists>k. trim_left ws s = drop k s"
proof (induction ws s rule: trim_left.induct)
  case (1 ws s)
  show ?case
  proof (cases "find (\<lambda>w. w \<noteq> [] \<and> prefix w s) ws")
    case None
    then show ?thesis by (intro exI [of _ 0]) (simp add: trim_left.simps [of ws s])
  next
    case (Some w)
    with 1 [OF Some] show ?thesis by (auto simp: trim_left.simps [of ws s])
  qed
qed

lemma trim_left_same: "find (\<lambda>w. w \<noteq> [] \<and> prefix w s) ws = None \<Longrightarrow> trim_left ws s = s"
  by (simp add: trim_left.simps [of ws s])

lemma space_snoc:
  assumes "w \<in> set go_spaces" "w \<noteq> []" "prefix w (t @ [newline])" "t \<noteq> []"
  shows "prefix w t"
proof -
  have "prefix w t \<or> w = t @ [newline]" using assms(3) by (auto simp: prefix_snoc)
  moreover have "w \<noteq> t @ [newline]"
  proof
    assume "w = t @ [newline]"
    with assms(1,4) have "t @ [newline] \<in> set go_spaces" "length (t @ [newline]) \<noteq> 1" by simp_all
    then show False by (auto simp: go_spaces_def newline_def char_of_def bit_Suc_0_iff append_eq_Cons_conv)
  qed
  ultimately show ?thesis by simp
qed

lemma newline_first: "find (\<lambda>w. w \<noteq> [] \<and> prefix w (newline # cs)) (map rev go_spaces) = Some [newline]"
  by (simp add: go_spaces_def newline_def char_of_def bit_Suc_0_iff)

lemma trim_newline: "trim_space [newline] = []"
  by (simp add: trim_space_def trim_left.simps [of go_spaces] go_spaces_def newline_def char_of_def bit_Suc_0_iff)
    (simp add: trim_left.simps)

text \<open>Text without space at either end is read back from its line.\<close>

definition trimmed :: "string \<Rightarrow> bool" where
  "trimmed t \<longleftrightarrow> find (\<lambda>w. w \<noteq> [] \<and> prefix w t) go_spaces = None
     \<and> find (\<lambda>w. w \<noteq> [] \<and> prefix w (rev t)) (map rev go_spaces) = None"

lemma trim_space_line:
  assumes "trimmed t"
  shows "trim_space (t @ [newline]) = t"
proof (cases "t = []")
  case True
  then show ?thesis by (simp add: trim_newline)
next
  case False
  have "find (\<lambda>w. w \<noteq> [] \<and> prefix w (t @ [newline])) go_spaces = None"
    using assms False by (auto simp: trimmed_def find_None_iff dest: space_snoc)
  then have "trim_left go_spaces (t @ [newline]) = t @ [newline]" by (rule trim_left_same)
  moreover have "trim_left (map rev go_spaces) (newline # rev t) = trim_left (map rev go_spaces) (rev t)"
    by (subst trim_left.simps) (simp only: newline_first option.case list.size drop_Suc_Cons drop_0 One_nat_def add_0 plus_1_eq_Suc)
  moreover have "trim_left (map rev go_spaces) (rev t) = rev t"
    by (rule trim_left_same) (use assms in \<open>simp add: trimmed_def\<close>)
  ultimately show ?thesis by (simp add: trim_space_def)
qed

lemma trimmed_trim_space: "trimmed (trim_space s)"
proof -
  let ?u = "trim_left go_spaces s"
  obtain k where k: "trim_left (map rev go_spaces) (rev ?u) = drop k (rev ?u)" using trim_left_drop by blast
  then have t: "trim_space s = take (length ?u - k) ?u" by (simp add: trim_space_def rev_drop)
  have "find (\<lambda>w. w \<noteq> [] \<and> prefix w (trim_space s)) go_spaces = None"
    using trim_left_stops [of go_spaces s] unfolding find_None_iff t
    by (metis prefix_order.trans take_is_prefix)
  moreover have "find (\<lambda>w. w \<noteq> [] \<and> prefix w (rev (trim_space s))) (map rev go_spaces) = None"
    using trim_left_stops [of "map rev go_spaces" "rev ?u"] by (simp add: trim_space_def)
  ultimately show ?thesis by (simp add: trimmed_def)
qed

section \<open>The loop\<close>

text \<open>As long as the turns decide nothing and the deadline is not reached, the loop goes on.\<close>

lemma wait_loop_steps:
  "(\<And>j. i \<le> j \<Longrightarrow> j < i + k \<Longrightarrow> mo_now (m j) < d \<and> wait_turn ready failure (m j) = None) \<Longrightarrow>
   wait_loop m d ready failure i = wait_loop m d ready failure (i + k)"
proof (induction k arbitrary: i)
  case (Suc k)
  then have "mo_now (m i) < d" "wait_turn ready failure (m i) = None" by simp_all
  then have "wait_loop m d ready failure i = wait_loop m d ready failure (Suc i)"
    by (simp add: wait_loop.simps [of m d ready failure i])
  with Suc.IH [of "Suc i"] Suc.prems show ?case by simp
qed simp

lemma clock_bound:
  assumes "\<forall>i. mo_now (m i) + poll_interval \<le> mo_now (m (Suc i))"
  shows "mo_now (m 0) + int k * poll_interval \<le> mo_now (m k)"
proof (induction k)
  case (Suc k)
  have "mo_now (m k) + poll_interval \<le> mo_now (m (Suc k))" using assms by blast
  with Suc show ?case by (simp add: algebra_simps)
qed simp

text \<open>The status handed over by the stop command is the one uploaded. After a successful \<open>WriteStatus\<close> to the
  agent's status file, \<open>ShutdownStatus\<close> gives back the status without surrounding space; when that is blank, the
  configured status, and \<^verbatim>\<open>success\<close> when that is empty too.\<close>

lemma handed_status:
  assumes "WriteStatus mkdir out path status fs = (fs', None)" "cf_StatusFile (rt_cfg rt) = or_default path DefaultStatusFile"
  shows "ShutdownStatus fs' rt = or_default (trim_space status) (or_default (cf_Status (rt_cfg rt)) ''success'')"
proof -
  have p: "or_default path DefaultStatusFile \<noteq> []" by (simp add: or_default_def DefaultStatusFile_def)
  from assms(1) have "write_file out (or_default path DefaultStatusFile) (trim_space status @ [newline]) fs = (fs', None)"
    by (auto simp: WriteStatus_def or_default_def Let_def split: option.splits if_splits)
  then have "fdata fs' (cf_StatusFile (rt_cfg rt)) = Some (trim_space status @ [newline])"
    unfolding assms(2) by (rule write_file_ok)
  with p show ?thesis
    unfolding ShutdownStatus_def assms(2)
    by (simp add: read_file_def trim_space_line [OF trimmed_trim_space] or_default_def assms(2) Let_def)
qed

section \<open>Properties\<close>

text \<open>C12: Waiting ends. When a sleep lasts at least its hundred milliseconds, \<open>WaitReady\<close> returns after at most one
  turn per hundred milliseconds of the timeout and one more; the turns before the last were in time and undecided,
  and the result is that of the first deciding turn, or the timeout.\<close>

theorem WaitReady_returns:
  assumes "start \<le> mo_now (m 0)" "\<forall>i. mo_now (m i) + poll_interval \<le> mo_now (m (Suc i))"
  shows "\<exists>k. k \<le> nat (timeout div poll_interval + 1)
    \<and> {i. i < k} \<subseteq> {i. mo_now (m i) < start + timeout
        \<and> wait_turn (or_default ready DefaultReadyFile) (or_default failure DefaultFailureFile) (m i) = None}
    \<and> WaitReady start m ready failure timeout =
       (if mo_now (m k) < start + timeout
        then wait_turn (or_default ready DefaultReadyFile) (or_default failure DefaultFailureFile) (m k)
        else Some (Some (''timeout waiting for '' @ or_default ready DefaultReadyFile)))
    \<and> WaitReady start m ready failure timeout \<noteq> None"
proof -
  let ?r = "or_default ready DefaultReadyFile" and ?f = "or_default failure DefaultFailureFile" and ?d = "start + timeout"
  let ?ends = "\<lambda>k. \<not> (mo_now (m k) < ?d \<and> wait_turn ?r ?f (m k) = None)"
  let ?n = "nat (timeout div poll_interval + 1)"
  have "timeout < (timeout div poll_interval + 1) * poll_interval"
    by (simp add: poll_interval_def)
  also have "\<dots> \<le> int ?n * poll_interval" by (simp add: poll_interval_def)
  finally have "?d \<le> mo_now (m ?n)" using clock_bound [of m ?n] assms by auto
  then have ends: "?ends ?n" by simp
  define k where "k = (LEAST k. ?ends k)"
  have k: "?ends k" "k \<le> ?n" unfolding k_def by (rule LeastI [of ?ends, OF ends], rule Least_le [of ?ends, OF ends])
  have before: "\<not> ?ends i" if "i < k" for i using not_less_Least [OF that [unfolded k_def]] by simp
  then have "wait_loop m ?d ?r ?f 0 = wait_loop m ?d ?r ?f (0 + k)" by (intro wait_loop_steps) auto
  then have w: "WaitReady start m ready failure timeout = wait_loop m ?d ?r ?f k" by (simp add: WaitReady_def)
  show ?thesis
    using k before w by (intro exI [of _ k]) (auto simp: wait_loop.simps [of m ?d ?r ?f k] split: option.splits)
qed

text \<open>Ready at the third look, 200 milliseconds in.\<close>

definition moments0 :: "nat \<Rightarrow> moment" where
  "moments0 i = \<lparr>mo_now = int i * poll_interval, mo_failure = fs0,
     mo_ready = (if i < 2 then fs0 else fs0\<lparr>fdata := [''r'' \<mapsto> ''ok'']\<rparr>)\<rparr>"

theorem WaitReady_returns_witness:
  "WaitReady 0 moments0 ''r'' ''f'' (10 * poll_interval) = Some None"
proof -
  have "0 \<le> mo_now (moments0 0)" "\<forall>i. mo_now (moments0 i) + poll_interval \<le> mo_now (moments0 (Suc i))"
    by (simp_all add: moments0_def poll_interval_def)
  note r = WaitReady_returns [OF this, of "10 * poll_interval" "''r''" "''f''"]
  have d: "or_default ''r'' DefaultReadyFile = ''r''" "or_default ''f'' DefaultFailureFile = ''f''"
    by (simp_all add: or_default_def)
  from r obtain k where k: "{i. i < k} \<subseteq> {i. mo_now (moments0 i) < 0 + 10 * poll_interval \<and> wait_turn ''r'' ''f'' (moments0 i) = None}"
    "WaitReady 0 moments0 ''r'' ''f'' (10 * poll_interval) =
       (if mo_now (moments0 k) < 0 + 10 * poll_interval then wait_turn ''r'' ''f'' (moments0 k)
        else Some (Some (''timeout waiting for '' @ ''r'')))"
    "WaitReady 0 moments0 ''r'' ''f'' (10 * poll_interval) \<noteq> None"
    unfolding d by blast
  have t: "wait_turn ''r'' ''f'' (moments0 i) = (if i < 2 then None else Some None)" for i
    by (simp add: wait_turn_def moments0_def read_file_def fs0_def)
  have "\<not> 2 < k"
  proof
    assume "2 < k"
    with k(1) have "wait_turn ''r'' ''f'' (moments0 2) = None" by blast
    then show False by (simp add: t)
  qed
  then have "k \<le> 2" by simp
  then have "mo_now (moments0 k) < 10 * poll_interval" by (simp add: moments0_def poll_interval_def)
  with k(2,3) show ?thesis by (simp add: t split: if_splits)
qed

end
