(* ===== verification/FileFrames.thy ===== *)
theory FileFrames
  imports RuntimeProps
begin

text \<open>
  What a start and a close do to the file system, once and for all: everything goes through writing, removing and
  logging, so a property of the file system that these keep is kept by the whole start, and one that closing the
  log establishes holds after every failure and every close.
\<close>

section \<open>The interface\<close>

text \<open>\<open>P\<close> holds while the log \<open>lg\<close> is open, \<open>Q\<close> once it is closed; \<open>W\<close> are the files the agent may write meanwhile.\<close>

locale file_frame =
  fixes lg :: Logger and W :: "string set" and P Q :: "osfs \<Rightarrow> bool"
  assumes P_write: "P fs \<Longrightarrow> q \<in> W \<Longrightarrow> P (fst (write_file out q c fs))"
    and P_remove: "P fs \<Longrightarrow> q \<in> W \<Longrightarrow> P (remove_file q fs)"
    and P_log: "P fs \<Longrightarrow> P (fst (WriteEvent marshal wout (ev :: AgentEvent) lg fs))"
    and P_close: "P fs \<Longrightarrow> EventLog.Close cerr lg fs = (l', fs', e) \<Longrightarrow> Q fs'"
    and Q_write: "Q fs \<Longrightarrow> Q (fst (write_file out q c fs))"
    and Q_remove: "Q fs \<Longrightarrow> Q (remove_file q fs)"

text \<open>A runtime whose files are among \<open>W\<close>.\<close>

definition files_in :: "string set \<Rightarrow> Config \<Rightarrow> bool" where
  "files_in W c \<longleftrightarrow> {cf_PidFile c, cf_ReadyFile c, DefaultDockerDaemonJSON, defaultSudoersFile, defaultStateFile} \<subseteq> W"

definition framed :: "Logger \<Rightarrow> string set \<Rightarrow> 'j Runtime \<Rightarrow> bool" where
  "framed lg W rt \<longleftrightarrow> rt_log rt = lg \<and> files_in W (rt_cfg rt)
     \<and> pred_option (\<lambda>d. DaemonJSON d \<in> W) (rt_dockerDNS rt)
     \<and> pred_option (\<lambda>l. fst (paths l) \<in> W \<and> snd (paths l) \<in> W) (rt_lock rt)"

lemma framed_fields [simp]:
  "framed lg W (rt\<lparr>rt_dnsRedir := r\<rparr>) = framed lg W rt" "framed lg W (rt\<lparr>rt_dns := x\<rparr>) = framed lg W rt"
  "framed lg W (rt\<lparr>rt_consuming := b\<rparr>) = framed lg W rt"
  by (simp_all add: framed_def)

lemma framed_new: "files_in W c \<Longrightarrow> framed lg W (new_runtime c pol g client lg)"
  by (simp add: framed_def)

lemma framed_docker: "framed lg W rt \<Longrightarrow> DaemonJSON d \<in> W \<Longrightarrow> framed lg W (rt\<lparr>rt_dockerDNS := Some d\<rparr>)"
  by (simp add: framed_def)

lemma framed_lock:
  "framed lg W rt \<Longrightarrow> framed lg W (rt\<lparr>rt_lock := Some \<lparr>SudoersFile = [], StateFile = [], Username = [], AllowCmds = []\<rparr>\<rparr>)"
  by (simp add: framed_def files_in_def paths_def)

lemma docker_Enable_files:
  assumes "docker_Enable C rerr out d fs = Some (d', fs', err)"
  shows "DaemonJSON d' = docker_path d" "fs' = fs \<or> (\<exists>c. fs' = fst (write_file out (docker_path d) c fs))"
  using assms
  by (auto simp: docker_Enable_def Let_def split: if_splits option.splits sum.splits prod.splits) (metis fst_conv)+

definition framed_outcome :: "Logger \<Rightarrow> string set \<Rightarrow> (osfs \<Rightarrow> bool) \<Rightarrow> (osfs \<Rightarrow> bool) \<Rightarrow> ('m, 'p, 'n, 'j) started \<Rightarrow> bool" where
  "framed_outcome lg W P Q r \<longleftrightarrow>
     (case fst r of Inl e \<Rightarrow> Q (w_fs (snd r)) | Inr rt \<Rightarrow> P (w_fs (snd r)) \<and> framed lg W rt)"

context file_frame
begin

lemma note_keeps: "P (w_fs w) \<Longrightarrow> P (w_fs (note_event E ty rule lg w))"
  by (simp add: note_event_def P_log)

lemma skip_keeps: "P (w_fs w) \<Longrightarrow> P (w_fs (case err of None \<Rightarrow> w | Some e \<Rightarrow> note_event E ty (pre @ e) lg w))"
  by (simp add: note_keeps split: option.split)

section \<open>Closing\<close>

lemma close_docker_keeps: "framed lg W rt \<Longrightarrow> P (w_fs w) \<Longrightarrow> P (w_fs (fst (close_docker E rt w)))"
  by (cases "rt_dockerDNS rt") (auto simp: close_docker_def framed_def docker_Disable_def split_def P_write P_remove)

lemma close_others: "w_fs (fst (close_redir E rt w)) = w_fs w" "w_fs (fst (close_dns rt w)) = w_fs w"
  by (auto simp: close_redir_def close_dns_def split: option.split prod.split)

lemma close_rest_closes:
  assumes "framed lg W rt" "P (w_fs w)"
  shows "Q (w_fs (fst (close_rest E rt w)))"
proof -
  let ?w = "case rt_lock rt of None \<Rightarrow> w\<lparr>w_fw := DetachFirewall (w_fw w)\<rparr>
    | Some l \<Rightarrow> w\<lparr>w_fw := DetachFirewall (w_fw w), w_fs := SudoLockdown.Disable l (w_fs w)\<rparr>"
  have "P (w_fs ?w)"
    using assms by (cases "rt_lock rt") (simp_all add: framed_def SudoLockdown.Disable_def P_remove)
  obtain l' fs' e where c: "EventLog.Close (se_log_close E) lg (w_fs ?w) = (l', fs', e)" by (metis prod_cases3)
  from P_close [OF \<open>P (w_fs ?w)\<close> c] have "Q fs'" .
  moreover have "w_fs (fst (close_rest E rt w)) = remove_file (cf_StatusFile (rt_cfg rt)) (remove_file (cf_PidFile (rt_cfg rt))
      (remove_file (cf_ReadyFile (rt_cfg rt)) fs'))"
    using c assms(1) by (cases "rt_lock rt") (simp_all add: close_rest_def Let_def framed_def)
  ultimately show ?thesis by (simp add: Q_remove)
qed

lemma Close_closes: "framed lg W rt \<Longrightarrow> P (w_fs w) \<Longrightarrow> Q (w_fs (fst (rt_Close E rt w)))"
  by (simp add: rt_Close_eq close_rest_closes close_others close_docker_keeps)

section \<open>Starting\<close>

lemma fail_with_outcome: "Q (w_fs w) \<Longrightarrow> framed_outcome lg W P Q (fail_with E c e w)"
  by (simp add: framed_outcome_def fail_with_def writeFail_def Q_write)

lemma fail_close_outcome: "framed lg W rt \<Longrightarrow> P (w_fs w) \<Longrightarrow> framed_outcome lg W P Q (fail_close E rt e w)"
  unfolding fail_close_def by (intro fail_with_outcome Close_closes)

lemma ready_outcome:
  assumes "framed lg W rt" "P (w_fs w)"
  shows "framed_outcome lg W P Q (start_ready E b rt w)"
proof -
  obtain fs1 e1 where w1: "write_file (se_pid_out E) (cf_PidFile (rt_cfg rt)) (dec_digits (se_pid E) @ [newline]) (w_fs w) = (fs1, e1)"
    by (metis surj_pair)
  obtain fs2 e2 where w2: "write_file (se_ready_out E) (cf_ReadyFile (rt_cfg rt))
      ((if b then ''ok bpf=1'' else ''ok bpf=0'') @ [newline]) fs1 = (fs2, e2)"
    by (metis surj_pair)
  have in_W: "cf_PidFile (rt_cfg rt) \<in> W" "cf_ReadyFile (rt_cfg rt) \<in> W" using assms(1) by (simp_all add: framed_def files_in_def)
  have p1: "P fs1" using P_write [OF assms(2) in_W(1)] w1 by (metis fst_conv)
  have p2: "P fs2" using P_write [OF p1 in_W(2)] w2 by (metis fst_conv)
  have f: "P fs \<Longrightarrow> framed_outcome lg W P Q (fail_close E rt e (w\<lparr>w_fs := fs\<rparr>))" for e fs
    by (rule fail_close_outcome [OF assms(1)]) simp
  have "framed_outcome lg W P Q (Inr rt, w\<lparr>w_fs := fs2\<rparr>)" using p2 assms(1) by (simp add: framed_outcome_def)
  with f p1 p2 show ?thesis
    by (simp only: start_ready_def w1 w2 prod.case split: option.split) simp
qed

lemma seeds_keep:
  assumes "rt_log rt = lg" "P (w_fs w)"
  shows "seed_cidrs E L en rt w = Some w' \<Longrightarrow> P (w_fs w')" "seed_hosts E L en allowed rt w = Some w' \<Longrightarrow> P (w_fs w')"
  using assms(2)
  by (auto simp: seed_cidrs_def seed_hosts_def Let_def assms(1) simp del: append.simps intro!: note_keeps
      split: bind_splits if_splits)

lemma bpf_outcome:
  assumes "framed lg W rt" "P (w_fs w)" "start_bpf E L en allowed rt w = Some r"
  shows "framed_outcome lg W P Q r"
proof -
  have lg: "rt_log rt = lg" using assms(1) by (simp add: framed_def)
  obtain f err where a: "AttachFirewall (se_attach E) (pl_Mode (rt_policy rt) = MODE_MONITOR) (pl_WatchSudo (rt_policy rt)) (w_fw w) = (f, err)"
    by (metis surj_pair)
  show ?thesis
  proof (cases err)
    case (Some e)
    let ?w = "note_event E EVENT_TYPE_CONNECT (''bpf_attach_skipped:'' @ e) lg (w\<lparr>w_fw := f\<rparr>)"
    have "P (w_fs ?w)" by (rule note_keeps) (use assms(2) in simp)
    with ready_outcome [OF assms(1) this] fail_close_outcome [OF assms(1) this] assms(3) a Some lg show ?thesis
      by (auto simp: start_bpf_def Let_def simp del: append.simps split: if_splits)
  next
    case None
    with assms(3) a obtain w1 w2 where s: "seed_cidrs E L en rt (w\<lparr>w_fw := f\<rparr>) = Some w1" "seed_hosts E L en allowed rt w1 = Some w2"
        "r = start_ready E True (rt\<lparr>rt_consuming := eventCh (w_fw w2)\<rparr>) w2"
      by (auto simp: start_bpf_def split: bind_splits)
    have "P (w_fs w1)" by (rule seeds_keep(1) [OF lg _ s(1)]) (use assms(2) in simp)
    then have "P (w_fs w2)" by (rule seeds_keep(2) [OF lg _ s(2)])
    then show ?thesis unfolding s(3) by (intro ready_outcome) (use assms(1) in simp)
  qed
qed

lemma docker_outcome:
  assumes "framed lg W rt" "P (w_fs w)" "start_docker E L en allowed host rt w = Some r"
  shows "framed_outcome lg W P Q r"
proof (cases "cf_GitHubActions (rt_cfg rt)")
  case False
  with assms(3) have "start_bpf E L en allowed rt w = Some r" by (simp add: start_docker_def)
  with assms(1,2) show ?thesis by (rule bpf_outcome)
next
  case True
  let ?d = "\<lparr>DaemonJSON = [], DNS = [host], backup = [], hadFile = False, enabled = False\<rparr>"
  have lg: "rt_log rt = lg" and json: "DefaultDockerDaemonJSON \<in> W" using assms(1) by (simp_all add: framed_def files_in_def)
  from True assms(3) lg obtain d fs err where e: "docker_Enable (se_codec E) (se_docker_read E) (se_docker_write E) ?d (w_fs w) = Some (d, fs, err)"
      and b: "start_bpf E L en allowed (rt\<lparr>rt_dockerDNS := Some d\<rparr>)
      (case err of None \<Rightarrow> w\<lparr>w_fs := fs\<rparr> | Some e \<Rightarrow> note_event E EVENT_TYPE_DNS (''docker_dns_skipped:'' @ e) lg (w\<lparr>w_fs := fs\<rparr>)) = Some r"
    by (auto simp: start_docker_def Let_def split: bind_splits)
  have path: "docker_path ?d = DefaultDockerDaemonJSON" by (simp add: docker_path_def)
  have "P fs" using docker_Enable_files(2) [OF e] assms(2) json P_write unfolding path by auto
  then have "P (w_fs (case err of None \<Rightarrow> w\<lparr>w_fs := fs\<rparr>
      | Some e \<Rightarrow> note_event E EVENT_TYPE_DNS (''docker_dns_skipped:'' @ e) lg (w\<lparr>w_fs := fs\<rparr>)))"
    by (intro skip_keeps) simp
  moreover have "framed lg W (rt\<lparr>rt_dockerDNS := Some d\<rparr>)"
    using framed_docker [OF assms(1)] docker_Enable_files(1) [OF e] path json by simp
  ultimately show ?thesis using b by (intro bpf_outcome)
qed

lemma redirect_outcome:
  assumes "framed lg W rt" "P (w_fs w)" "start_redirect E L en allowed rt w = Some r"
  shows "framed_outcome lg W P Q r"
proof (cases "cf_GitHubActions (rt_cfg rt) \<or> cf_DNSRedirect (rt_cfg rt)")
  case False
  with assms(3) have "start_bpf E L en allowed rt w = Some r" by (simp add: start_redirect_def)
  with assms(1,2) show ?thesis by (rule bpf_outcome)
next
  case True
  have lg: "rt_log rt = lg" using assms(1) by (simp add: framed_def)
  from True assms(3) lg obtain rd host nt err where b: "start_docker E L en allowed host (rt\<lparr>rt_dnsRedir := Some rd\<rparr>)
      (case err of None \<Rightarrow> w\<lparr>w_nat := nt\<rparr> | Some e \<Rightarrow> note_event E EVENT_TYPE_DNS (''dns_redirect_skipped:'' @ e) lg (w\<lparr>w_nat := nt\<rparr>)) = Some r"
    by (auto simp: start_redirect_def Let_def split: prod.splits)
  have "P (w_fs (case err of None \<Rightarrow> w\<lparr>w_nat := nt\<rparr> | Some e \<Rightarrow> note_event E EVENT_TYPE_DNS (''dns_redirect_skipped:'' @ e) lg (w\<lparr>w_nat := nt\<rparr>)))"
    by (rule skip_keeps) (use assms(2) in simp)
  from docker_outcome [OF _ this b] assms(1) show ?thesis by simp
qed

lemma dns_outcome:
  assumes "framed lg W rt" "P (w_fs w)" "start_dns E L en rt w = Some r"
  shows "framed_outcome lg W P Q r"
proof -
  obtain allowed px net where "start_redirect E L en allowed (rt\<lparr>rt_dns := Some px\<rparr>) (w\<lparr>w_net := net\<rparr>) = Some r"
    using assms(3) by (auto simp: start_dns_def Let_def DnsProxy.Start_def)
  from redirect_outcome [OF _ _ this] assms(1,2) show ?thesis by simp
qed

lemma lock_outcome:
  assumes "framed lg W rt" "P (w_fs w)" "start_lock E L en rt w = Some r"
  shows "framed_outcome lg W P Q r"
proof (cases "pl_DisableSudo (rt_policy rt)")
  case False
  with assms(3) have "start_dns E L en rt w = Some r" by (simp add: start_lock_def)
  with assms(1,2) show ?thesis by (rule dns_outcome)
next
  case True
  let ?l = "\<lparr>SudoersFile = [], StateFile = [], Username = [], AllowCmds = []\<rparr>"
  obtain fs err where e: "SudoLockdown.Enable (se_user E) (se_lookup_user E) (se_sudoers E) (se_sudo_state E) ?l (w_fs w) = (fs, err)"
    by (metis surj_pair)
  have W: "fst (paths ?l) \<in> W" "snd (paths ?l) \<in> W" using framed_lock [OF assms(1)] by (simp_all add: framed_def)
  have fs: "P fs"
    using e
  proof (cases rule: Enable_cases)
    case (both user)
    have "P ((w_fs w)\<lparr>fdata := (fdata (w_fs w))(fst (paths ?l) \<mapsto> sudoers_text user (AllowCmds ?l))\<rparr>)"
      using P_write [OF assms(2) W(1), of FOk "sudoers_text user (AllowCmds ?l)"] by (simp add: write_file_def)
    then show ?thesis unfolding both(4) by (rule P_write [OF _ W(2)])
  qed (simp_all add: assms(2) P_write W)
  show ?thesis
  proof (cases err)
    case None
    with True e assms(3) have "start_dns E L en (rt\<lparr>rt_lock := Some ?l\<rparr>) (w\<lparr>w_fs := fs\<rparr>) = Some r"
      by (simp add: start_lock_def Let_def)
    from dns_outcome [OF framed_lock [OF assms(1)] _ this] fs show ?thesis by simp
  next
    case (Some x)
    have lg: "rt_log rt = lg" using assms(1) by (simp add: framed_def)
    obtain l' fs' ce where c: "EventLog.Close (se_log_close E) lg fs = (l', fs', ce)" by (metis prod_cases3)
    with Some True e assms(3) lg have "r = fail_with E (rt_cfg rt) (lockdown_text (se_quote E) x) (w\<lparr>w_fs := fs'\<rparr>)"
      by (simp add: start_lock_def Let_def)
    then show ?thesis using P_close [OF fs c] by (simp add: fail_with_outcome)
  qed
qed

end

end
