(* ===== verification/ReadySignal.thy ===== *)
theory ReadySignal
  imports Lifecycle FileFrames
begin

text \<open>
  Starting and waiting together: what \<open>WaitReady\<close>, in another process, reads from the files that \<open>Start\<close> left.
\<close>

section \<open>Files left alone\<close>

text \<open>The log is open on its path, and another file is absent.\<close>

definition absent :: "string \<Rightarrow> string \<Rightarrow> Logger \<Rightarrow> osfs \<Rightarrow> bool" where
  "absent p path lg fs \<longleftrightarrow> path \<noteq> p \<and> (\<exists>fd off. lg_file lg = Some fd \<and> fopen fs fd = Some (path, off)) \<and> fdata fs p = None"

lemma absent_log: "absent p path lg fs \<Longrightarrow> absent p path lg (fst (WriteEvent marshal wout ev lg fs))"
  by (auto simp: absent_def WriteEvent_def fd_write_def split: sum.split option.split)

interpretation absent: file_frame lg "- {p}" "absent p path lg" "\<lambda>_. True" for lg p path
proof unfold_locales
  fix fs q out c and marshal :: "AgentEvent \<Rightarrow> string + string" and wout ev
  assume a: "absent p path lg fs"
  show "absent p path lg (fst (WriteEvent marshal wout ev lg fs))" using a by (rule absent_log)
  assume "q \<in> - {p}"
  with a show "absent p path lg (fst (write_file out q c fs))" "absent p path lg (remove_file q fs)"
    by (auto simp: absent_def write_file_def remove_file_def split: file_outcome.split)
qed simp_all

text \<open>The failure file is none of the other files the agent writes.\<close>

definition failure_apart :: "Config \<Rightarrow> bool" where
  "failure_apart c \<longleftrightarrow> cf_FailureFile c \<notin> {cf_LogPath c, cf_PidFile c, cf_ReadyFile c, defaultSudoersFile, defaultStateFile,
     DefaultDockerDaemonJSON, []}"

text \<open>Every failure after the first directory is reported through the failure file, last of all.\<close>

definition reported :: "('m, 'p, 'n, 'j) start_env \<Rightarrow> Config \<Rightarrow> ('m, 'p, 'n, 'j) started \<Rightarrow> bool" where
  "reported E c r \<longleftrightarrow> (case fst r of Inr rt \<Rightarrow> True | Inl e \<Rightarrow> \<exists>w1. r = fail_with E c e w1)"

lemma reported_fail: "reported E c (fail_with E c e w)" "rt_cfg rt = c \<Longrightarrow> reported E c (fail_close E rt e w)"
  by (auto simp: reported_def fail_with_def fail_close_def)

lemma reported_ready: "rt_cfg rt = c \<Longrightarrow> reported E c (start_ready E b rt w)"
  by (auto simp: start_ready_def reported_fail reported_def [of E c "(Inr rt, w)" for w] split: prod.split option.split)

lemma reported_bpf: "start_bpf E L en allowed rt w = Some r \<Longrightarrow> reported E (rt_cfg rt) r"
  by (auto simp: start_bpf_def Let_def reported_fail reported_ready simp del: append.simps
      split: prod.splits option.splits bind_splits if_splits)

lemma reported_lock: "start_lock E L en rt w = Some r \<Longrightarrow> reported E (rt_cfg rt) r"
proof -
  assume s: "start_lock E L en rt w = Some r"
  have dns: "start_dns E L en rt1 w1 = Some r \<Longrightarrow> rt_cfg rt1 = rt_cfg rt \<Longrightarrow> reported E (rt_cfg rt) r" for rt1 w1
    using dns_reaches [of E L en rt1 w1] by (auto simp: to_bpf_def dest: reported_bpf [OF sym])
  show ?thesis
  proof (cases "pl_DisableSudo (rt_policy rt)")
    case False
    with s dns [of rt w] show ?thesis by (simp add: start_lock_def)
  next
    case True
    let ?l = "\<lparr>SudoersFile = [], StateFile = [], Username = [], AllowCmds = []\<rparr>"
    obtain fs err where e: "SudoLockdown.Enable (se_user E) (se_lookup_user E) (se_sudoers E) (se_sudo_state E) ?l (w_fs w) = (fs, err)"
      by (metis surj_pair)
    with True s dns [of "rt\<lparr>rt_lock := Some ?l\<rparr>" "w\<lparr>w_fs := fs\<rparr>"] show ?thesis
      by (auto simp: start_lock_def Let_def reported_fail split: option.splits prod.splits)
  qed
qed

lemma reported_Start:
  assumes "Start E L en cfg w = Some r" "se_mkdir E = None"
  shows "reported E (defaults (se_getenv E) cfg) r"
proof -
  have lock: "Some r = start_lock E L en (new_runtime c pol g client l) w1 \<Longrightarrow> reported E c r" for c pol g client l w1
    using reported_lock [OF sym, of r E L en "new_runtime c pol g client l"] by simp
  from assms(1) HOL.refl show ?thesis by (cases rule: Start_cases) (use assms(2) in \<open>auto simp: reported_fail lock\<close>)
qed

lemma Open_log: "EventLog.Open out path fs = (fs', Inr l) \<Longrightarrow> path \<noteq> [] \<Longrightarrow>
    \<exists>fd off. lg_file l = Some fd \<and> fopen fs' fd = Some (path, off)"
  by (auto simp: EventLog.Open_def Let_def split: option.splits if_splits)

lemma defaults_files [simp]: "cf_ReadyFile (defaults getenv cfg) \<noteq> []" "cf_FailureFile (defaults getenv cfg) \<noteq> []"
  by (simp_all add: defaults_def or_default_def DefaultReadyFile_def DefaultFailureFile_def)

lemma absent_Start:
  assumes "Start E L en cfg w = Some (Inr rt, w')" "c = defaults (se_getenv E) cfg" "failure_apart c"
  shows "fdata (w_fs w') (cf_FailureFile c) = None"
  using assms(1,2)
proof (cases rule: Start_cases)
  case (begun g client pol fs l)
  let ?p = "cf_FailureFile c"
  have lp: "cf_LogPath c \<noteq> []" by (simp add: assms(2))
  have apart: "?p \<noteq> cf_LogPath c" using assms(3) by (simp add: failure_apart_def)
  then have "fdata fs ?p = None" using Open_frame [OF begun(4) _ lp] by (simp add: cleared_def)
  with apart Open_log [OF begun(4) lp] have "absent ?p (cf_LogPath c) l fs" by (simp add: absent_def)
  moreover have "framed l (- {?p}) (new_runtime c pol g client l)"
    using assms(3) by (intro framed_new) (auto simp: files_in_def failure_apart_def)
  ultimately have "framed_outcome l (- {?p}) (absent ?p (cf_LogPath c) l) (\<lambda>_. True) (Inr rt, w')"
    using absent.lock_outcome [OF _ _ begun(5) [symmetric]] by simp
  then show ?thesis by (simp add: framed_outcome_def absent_def)
qed (simp_all add: fail_with_def)

section \<open>Properties\<close>



end
