(* ===== verification/CommandLine.thy ===== *)
theory CommandLine
  imports ReadySignal
begin

text \<open>
  The command line, \<^verbatim>\<open>cmd/censor/main.go\<close>: the flags, the commands start, stop and wait-ready with their exit
  codes and messages, and the dispatch. What lies outside, from the kernel to the API server, is the record \<open>cli\<close>.
\<close>

section \<open>Flags\<close>

text \<open>The part of the package \<^verbatim>\<open>flag\<close> the program uses: string, bool and duration flags, with one or two dashes,
  values after an equals sign or in the next argument; parsing ends at the first argument that is no flag.\<close>

datatype flag_kind = FString | FBool | FDuration
datatype flag_error = BadSyntax string | NotDefined string | HelpRequested | NeedsArgument string | InvalidValue string string

definition ParseBool :: "string \<Rightarrow> bool option" where
  "ParseBool s = (if s \<in> {''1'', ''t'', ''T'', ''true'', ''TRUE'', ''True''} then Some True
     else if s \<in> {''0'', ''f'', ''F'', ''false'', ''FALSE'', ''False''} then Some False else None)"

definition flag_valid :: "(string \<Rightarrow> int option) \<Rightarrow> flag_kind \<Rightarrow> string \<Rightarrow> bool" where
  "flag_valid duration k v = (case k of FString \<Rightarrow> True | FBool \<Rightarrow> ParseBool v \<noteq> None | FDuration \<Rightarrow> duration v \<noteq> None)"

text \<open>One argument: not a flag, the terminator, malformed, or a name with an optional value.\<close>

datatype flag_arg = NoFlag | Malformed | Flag string "string option"

definition flag_arg :: "string \<Rightarrow> flag_arg" where
  "flag_arg s =
     (if length s < 2 \<or> s ! 0 \<noteq> CHR ''-'' \<or> s = ''--'' then NoFlag
      else let name = drop (if s ! 1 = CHR ''-'' then 2 else 1) s in
        if name = [] \<or> name ! 0 = CHR ''-'' \<or> name ! 0 = CHR ''='' then Malformed
        else let n = takeWhile (\<lambda>c. c \<noteq> CHR ''='') name in
          Flag n (if CHR ''='' \<in> set name then Some (drop (Suc (length n)) name) else None))"

fun parse_flags :: "(string \<Rightarrow> int option) \<Rightarrow> (string \<Rightarrow> flag_kind option) \<Rightarrow> (string \<Rightarrow> string option) \<Rightarrow> string list \<Rightarrow>
    flag_error + (string \<Rightarrow> string option)" where
  "parse_flags duration kinds vals [] = Inr vals"
| "parse_flags duration kinds vals (s # args) =
     (case flag_arg s of
        NoFlag \<Rightarrow> Inr vals
      | Malformed \<Rightarrow> Inl (BadSyntax s)
      | Flag name val \<Rightarrow>
         (case kinds name of
            None \<Rightarrow> Inl (if name = ''help'' \<or> name = ''h'' then HelpRequested else NotDefined name)
          | Some k \<Rightarrow>
             (case (if k = FBool \<and> val = None then Some ''true'' else val) of
                Some v \<Rightarrow> if flag_valid duration k v then parse_flags duration kinds (vals(name \<mapsto> v)) args
                          else Inl (InvalidValue name v)
              | None \<Rightarrow>
                 (case args of
                    [] \<Rightarrow> Inl (NeedsArgument name)
                  | v # rest \<Rightarrow> if flag_valid duration k v then parse_flags duration kinds (vals(name \<mapsto> v)) rest
                               else Inl (InvalidValue name v)))))"

definition flag_str :: "(string \<Rightarrow> string option) \<Rightarrow> string \<Rightarrow> string \<Rightarrow> string" where
  "flag_str vals name d = (case vals name of None \<Rightarrow> d | Some v \<Rightarrow> v)"

text \<open>\<^verbatim>\<open>strconv.Atoi\<close> on 64-bit integers.\<close>

datatype atoi_error = SyntaxError | RangeError

definition digits_value :: "string \<Rightarrow> nat" where
  "digits_value ds = foldl (\<lambda>n c. 10 * n + (of_char c - 48)) 0 ds"

definition is_digit :: "char \<Rightarrow> bool" where
  "is_digit c = ((48 :: nat) \<le> of_char c \<and> of_char c \<le> (57 :: nat))"

definition Atoi :: "string \<Rightarrow> atoi_error + int" where
  "Atoi s =
     (let neg = (s \<noteq> [] \<and> s ! 0 = CHR ''-'');
          ds = (if s \<noteq> [] \<and> (s ! 0 = CHR ''-'' \<or> s ! 0 = CHR ''+'') then drop 1 s else s) in
      if ds = [] \<or> \<not> list_all is_digit ds then Inl SyntaxError
      else let n = int (digits_value ds) in
        if neg then (if n \<le> 2 ^ 63 then Inr (- n) else Inl RangeError)
        else (if n < 2 ^ 63 then Inr n else Inl RangeError))"

section \<open>Error texts\<close>

definition dec_int :: "int \<Rightarrow> string" where
  "dec_int i = (if i < 0 then CHR ''-'' # dec_digits (nat (- i)) else dec_digits (nat i))"

fun class_number :: "FailureClass \<Rightarrow> nat" where
  "class_number FailureNone = 0"
| "class_number FailureTransport = 1"
| "class_number FailureServer = 2"
| "class_number FailureClient = 3"
| "class_number FailureAuth = 4"
| "class_number FailureNotFound = 5"

fun error_text :: "error \<Rightarrow> string" where
  "error_text (Plain m) = m"
| "error_text Canceled = ''context canceled''"
| "error_text DeadlineExceeded = ''context deadline exceeded''"
| "error_text EOF = ''EOF''"
| "error_text UnexpectedEOF = ''unexpected EOF''"
| "error_text (Wrap n m e) = m @ error_text e"
| "error_text (APIError c code e) =
     (if code \<noteq> 0 then ''api error class='' @ dec_digits (class_number c) @ '' status='' @ dec_int code @ '': '' @ error_text e
      else ''api error class='' @ dec_digits (class_number c) @ '': '' @ error_text e)"

section \<open>Commands\<close>

text \<open>The machine the commands run on: the world, the network, the signals sent, what was printed.\<close>

record ('m, 'p, 'n, 's) machine =
  m_world :: "('m, 'p, 'n) world"
  m_net :: 's
  m_kills :: "int list"
  m_stdout :: string
  m_stderr :: string

text \<open>The outside: for starting, all of \<open>start_env\<close>; what happens to the world between being ready and the signal;
  the upload's context, jitter, transport, compression and struct conversion; outcomes of the stop command's calls;
  the parser of durations; the clock and the files while waiting.\<close>

record ('m, 'p, 'n, 'j, 's, 'x) cli =
  cl_start :: "('m, 'p, 'n, 'j) start_env"
  cl_ops :: "('m, 'p) bpf_ops"
  cl_endian :: endian
  cl_serve :: "'j Runtime \<Rightarrow> ('m, 'p, 'n) world \<Rightarrow> ('m, 'p, 'n) world"
  cl_ctx :: "nat \<Rightarrow> error option"
  cl_rnd :: "nat \<Rightarrow> nat"
  cl_api :: "('s, 'x) api_env"
  cl_gzip :: "string \<Rightarrow> string"
  cl_struct :: "(string \<times> 'j json) list \<Rightarrow> string + 'x"
  cl_sync :: "string option"
  cl_mkdir :: "string option"
  cl_status_out :: file_outcome
  cl_kill :: "int \<Rightarrow> string option"
  cl_duration :: "string \<Rightarrow> int option"
  cl_now :: int
  cl_moments :: "nat \<Rightarrow> moment"

definition eprint :: "string \<Rightarrow> ('m, 'p, 'n, 's) machine \<Rightarrow> ('m, 'p, 'n, 's) machine" where
  "eprint msg m = m\<lparr>m_stderr := m_stderr m @ msg @ [newline]\<rparr>"

definition start_flags :: "string \<Rightarrow> flag_kind option" where
  "start_flags = map_of [(''api-url'', FString), (''api-key-file'', FString), (''config'', FString), (''log'', FString),
     (''dns-listen'', FString), (''dns-upstream'', FString), (''ready-file'', FString), (''failure-file'', FString),
     (''pidfile'', FString), (''github-actions'', FBool)]"

definition start_config :: "(string \<Rightarrow> string) \<Rightarrow> (string \<Rightarrow> string option) \<Rightarrow> Config" where
  "start_config getenv vals =
     (let gha = (ParseBool (flag_str vals ''github-actions'' ''false'') = Some True);
          cfg = \<lparr>cf_APIURL = flag_str vals ''api-url'' (getenv ''CENSOR_API_URL''),
            cf_APIKeyPath = flag_str vals ''api-key-file'' DefaultAPIKeyPath,
            cf_ConfigFile = flag_str vals ''config'' (getenv ''CENSOR_CONFIG_FILE''),
            cf_LogPath = flag_str vals ''log'' [],
            cf_ReadyFile = flag_str vals ''ready-file'' DefaultReadyFile,
            cf_FailureFile = flag_str vals ''failure-file'' DefaultFailureFile,
            cf_PidFile = flag_str vals ''pidfile'' DefaultPidFile,
            cf_StatusFile = [],
            cf_DNSListen = flag_str vals ''dns-listen'' ''127.0.0.1:5353'',
            cf_DNSUpstream = flag_str vals ''dns-upstream'' ''8.8.8.8:53'',
            cf_DNSRedirect = False, cf_GitHubActions = gha, cf_Status = []\<rparr>
      in if gha then cfg\<lparr>cf_DNSListen := ''127.0.0.1:53'', cf_DNSRedirect := True\<rparr> else cfg)"

text \<open>From the signal on: the status, the upload, the end.\<close>

definition run_shutdown :: "('m, 'p, 'n, 'j, 's, 'x) cli \<Rightarrow> 'j Runtime \<Rightarrow> ('m, 'p, 'n, 's) machine \<Rightarrow> int \<times> ('m, 'p, 'n, 's) machine" where
  "run_shutdown C rt m =
     (let status = ShutdownStatus (w_fs (m_world m)) rt in
      case Upload (cl_ctx C) (cl_rnd C) (cl_api C) (cl_gzip C) (cl_struct C) (se_version (cl_start C)) (cl_sync C) rt
             (w_fs (m_world m)) status (m_net m) of
        (Some e, s) \<Rightarrow>
          (let m = eprint (''upload: '' @ error_text e) (m\<lparr>m_net := s\<rparr>) in
           (1, m\<lparr>m_world := fst (rt_Close (cl_start C) rt (m_world m))\<rparr>))
      | (None, s) \<Rightarrow>
          (case rt_Close (cl_start C) rt (m_world m) of
             (w, Some e) \<Rightarrow> (1, eprint (''close: '' @ e) (m\<lparr>m_net := s, m_world := w\<rparr>))
           | (w, None) \<Rightarrow> (0, m\<lparr>m_net := s, m_world := w\<rparr>)))"

definition runStart :: "('m, 'p, 'n, 'j, 's, 'x) cli \<Rightarrow> string list \<Rightarrow> ('m, 'p, 'n, 's) machine \<Rightarrow>
    (int \<times> ('m, 'p, 'n, 's) machine) option" where
  "runStart C args m =
     (case parse_flags (cl_duration C) start_flags Map.empty args of
        Inl e \<Rightarrow> Some (2, m)
      | Inr vals \<Rightarrow> do {
          (r, w) \<leftarrow> Start (cl_start C) (cl_ops C) (cl_endian C) (start_config (se_getenv (cl_start C)) vals) (m_world m);
          Some (case r of
              Inl e \<Rightarrow> (1, eprint (''start: '' @ e) (m\<lparr>m_world := w\<rparr>))
            | Inr rt \<Rightarrow> run_shutdown C rt (m\<lparr>m_world := cl_serve C rt w\<rparr>))
        })"

definition stop_flags :: "string \<Rightarrow> flag_kind option" where
  "stop_flags = map_of [(''pidfile'', FString), (''status-file'', FString), (''status'', FString)]"

definition atoi_text :: "atoi_error \<Rightarrow> (string \<Rightarrow> string) \<Rightarrow> string \<Rightarrow> string" where
  "atoi_text e quote s = ''strconv.Atoi: parsing '' @ quote s @
     (case e of SyntaxError \<Rightarrow> '': invalid syntax'' | RangeError \<Rightarrow> '': value out of range'')"

definition runStop :: "('m, 'p, 'n, 'j, 's, 'x) cli \<Rightarrow> string list \<Rightarrow> ('m, 'p, 'n, 's) machine \<Rightarrow> int \<times> ('m, 'p, 'n, 's) machine" where
  "runStop C args m =
     (case parse_flags (cl_duration C) stop_flags Map.empty args of
        Inl e \<Rightarrow> (2, m)
      | Inr vals \<Rightarrow>
         (case WriteStatus (cl_mkdir C) (cl_status_out C) (flag_str vals ''status-file'' DefaultStatusFile)
                 (flag_str vals ''status'' ''success'') (w_fs (m_world m)) of
            (fs, err) \<Rightarrow>
              (let m = m\<lparr>m_world := (m_world m)\<lparr>w_fs := fs\<rparr>\<rparr> in
               case err of
                 Some e \<Rightarrow> (1, eprint (''status: '' @ e) m)
               | None \<Rightarrow>
                  (case read_file fs (flag_str vals ''pidfile'' DefaultPidFile) of
                     Inl e \<Rightarrow> (1, eprint (''pidfile: '' @ e) m)
                   | Inr b \<Rightarrow>
                      (case Atoi (trim_space b) of
                         Inl e \<Rightarrow> (1, eprint (''pid: '' @ atoi_text e (se_quote (cl_start C)) (trim_space b)) m)
                       | Inr pid \<Rightarrow>
                          (let m = m\<lparr>m_kills := m_kills m @ [pid]\<rparr> in
                           case cl_kill C pid of
                             Some e \<Rightarrow> (1, eprint (''kill: '' @ e) m)
                           | None \<Rightarrow> (0, m)))))))"

definition wait_flags :: "string \<Rightarrow> flag_kind option" where
  "wait_flags = map_of [(''ready-file'', FString), (''failure-file'', FString), (''timeout'', FDuration)]"

definition runWaitReady :: "('m, 'p, 'n, 'j, 's, 'x) cli \<Rightarrow> string list \<Rightarrow> ('m, 'p, 'n, 's) machine \<Rightarrow>
    (int \<times> ('m, 'p, 'n, 's) machine) option" where
  "runWaitReady C args m =
     (case parse_flags (cl_duration C) wait_flags Map.empty args of
        Inl e \<Rightarrow> Some (2, m)
      | Inr vals \<Rightarrow> do {
          err \<leftarrow> WaitReady (cl_now C) (cl_moments C) (flag_str vals ''ready-file'' DefaultReadyFile)
                  (flag_str vals ''failure-file'' DefaultFailureFile)
                  (case vals ''timeout'' of None \<Rightarrow> 30 * 1000000000 | Some v \<Rightarrow> the (cl_duration C v));
          Some (case err of Some e \<Rightarrow> (1, eprint e m) | None \<Rightarrow> (0, m))
        })"

definition usage_text :: string where
  "usage_text = ''usage: censor <start|stop|wait-ready|version> [flags]''"

definition main :: "('m, 'p, 'n, 'j, 's, 'x) cli \<Rightarrow> string list \<Rightarrow> ('m, 'p, 'n, 's) machine \<Rightarrow>
    (int \<times> ('m, 'p, 'n, 's) machine) option" where
  "main C args m =
     (if length args < 2 then Some (2, eprint usage_text m)
      else if args ! 1 = ''version'' then Some (0, m\<lparr>m_stdout := m_stdout m @ se_version (cl_start C) @ [newline]\<rparr>)
      else if args ! 1 = ''start'' then runStart C (drop 2 args) m
      else if args ! 1 = ''stop'' then Some (runStop C (drop 2 args) m)
      else if args ! 1 = ''wait-ready'' then runWaitReady C (drop 2 args) m
      else Some (2, eprint usage_text m))"

end
