(* ===== verification/CommandProps.thy ===== *)
theory CommandProps
  imports CommandLine
begin

text \<open>
  Properties of the commands: the stop command reaches the agent the start command left running, and the start
  command leaves no filter behind.
\<close>

section \<open>Numbers on lines\<close>

lemma spaces_ends: "list_all (\<lambda>w. w \<noteq> [] \<and> \<not> is_digit (hd w) \<and> \<not> is_digit (last w)) go_spaces"
  by (simp add: go_spaces_def is_digit_def)

lemma trimmed_digits:
  assumes "list_all is_digit s"
  shows "trimmed s"
proof -
  have "\<not> prefix w s" if "w \<in> set go_spaces" for w
  proof
    assume "prefix w s"
    moreover have "w \<noteq> []" "\<not> is_digit (hd w)" using spaces_ends that by (auto simp: list_all_iff)
    ultimately show False using assms by (cases w; cases s) auto
  qed
  moreover have "\<not> prefix (rev w) (rev s)" if "w \<in> set go_spaces" for w
  proof
    assume "prefix (rev w) (rev s)"
    then obtain u where "rev s = rev w @ u" by (auto simp: prefix_def)
    then have "s = rev u @ w" by (metis rev_append rev_rev_ident)
    moreover have "w \<noteq> []" "\<not> is_digit (last w)" using spaces_ends that by (auto simp: list_all_iff)
    ultimately show False using assms by (auto simp: list_all_iff)
  qed
  ultimately show ?thesis by (auto simp: trimmed_def find_None_iff)
qed

lemma is_digit_char: "d < 10 \<Longrightarrow> is_digit (char_of (48 + d))" "d < 10 \<Longrightarrow> of_char (char_of (48 + d :: nat)) = 48 + d"
  by (simp_all add: is_digit_def)

lemma dec_digits_facts: "list_all is_digit (dec_digits n) \<and> dec_digits n \<noteq> [] \<and> digits_value (dec_digits n) = n"
proof (induction n rule: dec_digits.induct)
  case (1 n)
  show ?case
  proof (cases "n < 10")
    case True
    then show ?thesis by (simp add: dec_digits.simps [of n] digits_value_def is_digit_char)
  next
    case False
    with 1 show ?thesis
      by (simp add: dec_digits.simps [of n] digits_value_def is_digit_char)
  qed
qed

lemma digit_not_sign: "is_digit c \<Longrightarrow> c \<noteq> CHR ''-'' \<and> c \<noteq> CHR ''+''"
  by (auto simp: is_digit_def)

lemma Atoi_digits:
  assumes "n < 2 ^ 63"
  shows "Atoi (trim_space (dec_digits n @ [newline])) = Inr (int n)"
proof -
  note d = dec_digits_facts [of n]
  have "trim_space (dec_digits n @ [newline]) = dec_digits n"
    using d by (intro trim_space_line trimmed_digits) simp
  moreover have "dec_digits n ! 0 \<noteq> CHR ''-'' \<and> dec_digits n ! 0 \<noteq> CHR ''+''"
    using d digit_not_sign [of "dec_digits n ! 0"] by (cases "dec_digits n") auto
  moreover have "int n < 2 ^ 63" using assms by simp
  ultimately show ?thesis using d by (simp add: Atoi_def Let_def)
qed

section \<open>What a started agent leaves in its files\<close>

lemma ready_pid:
  assumes "start_ready E b rt w = (Inr rt', w')" "cf_PidFile (rt_cfg rt) \<noteq> cf_ReadyFile (rt_cfg rt)"
  shows "fdata (w_fs w') (cf_PidFile (rt_cfg rt)) = Some (dec_digits (se_pid E) @ [newline]) \<and> rt_cfg rt' = rt_cfg rt"
proof -
  obtain fs1 e1 where w1: "write_file (se_pid_out E) (cf_PidFile (rt_cfg rt)) (dec_digits (se_pid E) @ [newline]) (w_fs w) = (fs1, e1)"
    by (metis surj_pair)
  obtain fs2 e2 where w2: "write_file (se_ready_out E) (cf_ReadyFile (rt_cfg rt))
      ((if b then ''ok bpf=1'' else ''ok bpf=0'') @ [newline]) fs1 = (fs2, e2)"
    by (metis surj_pair)
  have "e1 = None" "e2 = None" "rt' = rt" "w_fs w' = fs2"
    using assms(1) w1 w2 by (auto simp: start_ready_def fail_close_def fail_with_def simp del: append.simps split: option.splits)
  with write_file_ok [of "se_pid_out E" "cf_PidFile (rt_cfg rt)"] w1 w2
    write_file_fdata [of "se_ready_out E" "cf_ReadyFile (rt_cfg rt)" "(if b then ''ok bpf=1'' else ''ok bpf=0'') @ [newline]" fs1 "cf_PidFile (rt_cfg rt)"]
    assms(2)
  show ?thesis by auto
qed

lemma bpf_pid:
  assumes "start_bpf E L en allowed rt w = Some (Inr rt', w')" "cf_PidFile (rt_cfg rt) \<noteq> cf_ReadyFile (rt_cfg rt)"
  shows "fdata (w_fs w') (cf_PidFile (rt_cfg rt)) = Some (dec_digits (se_pid E) @ [newline]) \<and> rt_cfg rt' = rt_cfg rt"
proof -
  obtain b rt1 w1 where "start_ready E b rt1 w1 = (Inr rt', w')" "rt_cfg rt1 = rt_cfg rt"
    using assms(1)
    by (auto simp: start_bpf_def Let_def fail_close_def fail_with_def simp del: append.simps
        split: prod.splits option.splits bind_splits if_splits)
  with ready_pid [of E b rt1 w1 rt' w'] assms(2) show ?thesis by simp
qed

lemma Start_pid:
  assumes "Start E L en cfg w = Some (Inr rt, w')" "cf_PidFile (rt_cfg rt) \<noteq> cf_ReadyFile (rt_cfg rt)"
  shows "fdata (w_fs w') (cf_PidFile (rt_cfg rt)) = Some (dec_digits (se_pid E) @ [newline])
    \<and> rt_cfg rt = defaults (se_getenv E) cfg"
proof -
  obtain rt1 w1 where b: "start_bpf E L en (merged_hosts (rt_cfg rt1) (rt_policy rt1)) rt1 w1 = Some (Inr rt, w')"
    "rt_cfg rt1 = defaults (se_getenv E) cfg"
    using Start_inr [OF assms(1)] by blast
  have "rt_cfg rt = rt_cfg rt1"
    using b(1) start_ready_inr
    by (fastforce simp: start_bpf_def Let_def fail_close_def fail_with_def simp del: append.simps
        split: prod.splits option.splits bind_splits if_splits)
  with bpf_pid [OF b(1)] b(2) assms(2) show ?thesis by simp
qed

section \<open>The firewall after a start\<close>

lemma bpf_fw:
  assumes "fw_idle (w_fw w)" "start_bpf E L en allowed rt w = Some r"
  shows "case fst r of Inl e \<Rightarrow> fw_idle (w_fw (snd r)) | Inr rt' \<Rightarrow> fw_inv (w_fw (snd r))"
  using outcome_bpf [OF assms(1) HOL.refl HOL.refl assms(2)] by (auto simp: outcome_ok_def start_ok_def split: sum.splits)

lemma to_bpf_fw:
  assumes "to_bpf E L en c pol w (Some r)" "fw_idle (w_fw w)"
  shows "case fst r of Inl e \<Rightarrow> fw_idle (w_fw (snd r)) | Inr rt' \<Rightarrow> fw_inv (w_fw (snd r))"
proof -
  from assms(1) obtain rt1 w1 where "start_bpf E L en (merged_hosts c pol) rt1 w1 = Some r" "w_fw w1 = w_fw w"
    unfolding to_bpf_def by force
  with bpf_fw [of w1 E L en "merged_hosts c pol" rt1 r] assms(2) show ?thesis by simp
qed

lemma lock_fw:
  assumes "start_lock E L en rt w = Some r" "fw_idle (w_fw w)"
  shows "case fst r of Inl e \<Rightarrow> fw_idle (w_fw (snd r)) | Inr rt' \<Rightarrow> fw_inv (w_fw (snd r))"
proof -
  have dns: "start_dns E L en rt1 w1 = Some r \<Longrightarrow> w_fw w1 = w_fw w \<Longrightarrow> ?thesis" for rt1 w1
    using dns_reaches [of E L en rt1 w1] to_bpf_fw [of E L en "rt_cfg rt1" "rt_policy rt1" w1 r] assms(2) by simp
  show ?thesis
  proof (cases "pl_DisableSudo (rt_policy rt)")
    case False
    with assms(1) dns [of rt w] show ?thesis by (simp add: start_lock_def)
  next
    case True
    let ?l = "\<lparr>SudoersFile = [], StateFile = [], Username = [], AllowCmds = []\<rparr>"
    obtain fs err where e: "SudoLockdown.Enable (se_user E) (se_lookup_user E) (se_sudoers E) (se_sudo_state E) ?l (w_fs w) = (fs, err)"
      by (metis surj_pair)
    with True assms dns [of "rt\<lparr>rt_lock := Some ?l\<rparr>" "w\<lparr>w_fs := fs\<rparr>"] show ?thesis
      by (auto simp: start_lock_def Let_def fail_with_def split: option.splits prod.splits)
  qed
qed

lemma Start_fw:
  assumes "Start E L en cfg w = Some r" "fw_idle (w_fw w)"
  shows "case fst r of Inl e \<Rightarrow> fw_idle (w_fw (snd r)) | Inr rt' \<Rightarrow> fw_inv (w_fw (snd r))"
proof -
  note lock = lock_fw [of E L en _ _ r]
  from assms(1) HOL.refl show ?thesis
    by (cases rule: Start_cases) (use assms(2) in \<open>auto simp: fail_with_def dest!: lock [OF sym]\<close>)
qed

lemma shutdown_fw:
  assumes "run_shutdown C rt m = (code, m')" "fw_inv (w_fw (m_world m))"
  shows "fw_idle (w_fw (m_world m')) \<and> code \<in> {0, 1}"
proof -
  have "w_fw (m_world m') = DetachFirewall (w_fw (m_world m)) \<and> code \<in> {0, 1}"
    using assms(1) rt_Close_fw [of "cl_start C" rt "m_world m"]
    by (auto simp: run_shutdown_def Let_def eprint_def split: prod.splits option.splits)
  with detach_idle [OF assms(2)] show ?thesis by simp
qed

lemma Start_total:
  assumes "\<not> docker_panics E (defaults (se_getenv E) cfg)"
  shows "Start E L en cfg w \<noteq> None"
proof -
  have bpf: "start_bpf E L en allowed rt w \<noteq> None" for allowed rt w
  proof -
    obtain f err where a: "AttachFirewall (se_attach E) (pl_Mode (rt_policy rt) = MODE_MONITOR) (pl_WatchSudo (rt_policy rt)) (w_fw w) = (f, err)"
      by (metis surj_pair)
    obtain w1 where w1: "seed_cidrs E L en rt (w\<lparr>w_fw := f\<rparr>) = Some w1" using seeds_total(1) by blast
    obtain w2 where w2: "seed_hosts E L en allowed rt w1 = Some w2" using seeds_total(2) by blast
    show ?thesis by (cases err) (simp_all add: start_bpf_def a w1 w2 Let_def del: append.simps)
  qed
  have lock: "rt_cfg rt = defaults (se_getenv E) cfg \<Longrightarrow> start_lock E L en rt w1 \<noteq> None" for rt w1
    using lock_reaches [of E L en rt w1] bpf assms by (auto simp: to_bpf_def)
  show ?thesis
    using lock by (simp add: Start_def Let_def split: option.split sum.split prod.split)
qed

lemma runStart_total:
  assumes "\<And>c. \<not> docker_panics (cl_start C) c"
  shows "\<exists>code m'. runStart C args m = Some (code, m')"
proof (cases "parse_flags (cl_duration C) start_flags Map.empty args")
  case (Inl e)
  then show ?thesis by (simp add: runStart_def)
next
  case (Inr vals)
  obtain r w where "Start (cl_start C) (cl_ops C) (cl_endian C) (start_config (se_getenv (cl_start C)) vals) (m_world m) = Some (r, w)"
    using Start_total [OF assms] by (metis not_None_eq surj_pair)
  with Inr show ?thesis by (cases r; cases "run_shutdown C (projr r) (m\<lparr>m_world := cl_serve C (projr r) w\<rparr>)") (simp_all add: runStart_def)
qed

lemma runner0_docker: "\<not> docker_panics (runner0 pol out) c"
  by (simp add: docker_panics_def runner0_def codec0_def)

section \<open>Properties\<close>

text \<open>The start command leaves no filter behind, as long as the agent's firewall keeps its invariant while it runs.\<close>

lemma runStart_leaves_nothing:
  assumes "fw_idle (w_fw (m_world m))" "\<And>rt w. fw_inv (w_fw w) \<Longrightarrow> fw_inv (w_fw (cl_serve C rt w))"
    and "runStart C args m = Some (code, m')"
  shows "fw_idle (w_fw (m_world m')) \<and> code \<in> {0, 1, 2}"
proof (cases "parse_flags (cl_duration C) start_flags Map.empty args")
  case (Inl e)
  with assms show ?thesis by (auto simp: runStart_def)
next
  case (Inr vals)
  with assms(3) obtain r w where s: "Start (cl_start C) (cl_ops C) (cl_endian C) (start_config (se_getenv (cl_start C)) vals) (m_world m)
      = Some (r, w)"
    and o: "(code, m') = (case r of Inl e \<Rightarrow> (1, eprint (''start: '' @ e) (m\<lparr>m_world := w\<rparr>))
            | Inr rt \<Rightarrow> run_shutdown C rt (m\<lparr>m_world := cl_serve C rt w\<rparr>))"
    by (auto simp: runStart_def split: bind_splits)
  from Start_fw [OF s assms(1)] have fw: "case r of Inl e \<Rightarrow> fw_idle (w_fw w) | Inr rt \<Rightarrow> fw_inv (w_fw w)" by (auto split: sum.splits)
  show ?thesis
  proof (cases r)
    case (Inl e)
    with fw o show ?thesis by (simp add: eprint_def)
  next
    case (Inr rt)
    with fw assms(2) have "fw_inv (w_fw (cl_serve C rt w))" by simp
    with Inr o shutdown_fw [of C rt "m\<lparr>m_world := cl_serve C rt w\<rparr>" code m'] show ?thesis by auto
  qed
qed

text \<open>C10: The stop command reaches the agent. When a start has left an agent running and its pid file is still as
  written, stopping with its files signals exactly the agent's process, exits with 0, and the status then uploaded
  is the one given, without surrounding space (or the default, when that is blank).\<close>

theorem runStop_reaches_agent:
  assumes "Start E L en cfg w = Some (Inr rt, w')" "cf_PidFile (rt_cfg rt) \<notin> {cf_ReadyFile (rt_cfg rt), cf_StatusFile (rt_cfg rt)}"
    and "fdata (w_fs (m_world m)) (cf_PidFile (rt_cfg rt)) = fdata (w_fs w') (cf_PidFile (rt_cfg rt))"
    and "se_pid E < 2 ^ 63" "cl_mkdir C = None" "cl_status_out C = FOk" "cl_kill C (int (se_pid E)) = None"
    and "runStop C [''--pidfile'', cf_PidFile (rt_cfg rt), ''-status-file'', cf_StatusFile (rt_cfg rt), ''--status'', status] m = (code, m')"
  shows "code = 0 \<and> m_kills m' = m_kills m @ [int (se_pid E)]
    \<and> ShutdownStatus (w_fs (m_world m')) rt = or_default (trim_space status) (or_default (cf_Status (rt_cfg rt)) ''success'')"
proof -
  let ?p = "cf_PidFile (rt_cfg rt)" and ?s = "cf_StatusFile (rt_cfg rt)"
  from Start_pid [OF assms(1)] assms(2,3) have pid: "fdata (w_fs (m_world m)) ?p = Some (dec_digits (se_pid E) @ [newline])"
    and cfg: "rt_cfg rt = defaults (se_getenv E) cfg" by simp_all
  have sf: "?s \<noteq> []" by (simp add: cfg defaults_def or_default_def DefaultStatusFile_def)
  have parse: "parse_flags (cl_duration C) stop_flags Map.empty [''--pidfile'', ?p, ''-status-file'', ?s, ''--status'', status]
      = Inr [''pidfile'' \<mapsto> ?p, ''status-file'' \<mapsto> ?s, ''status'' \<mapsto> status]"
    by (simp add: flag_arg_def flag_valid_def stop_flags_def)
  obtain fs where ws: "WriteStatus (cl_mkdir C) (cl_status_out C) ?s status (w_fs (m_world m)) = (fs, None)"
    and fs: "fs = (w_fs (m_world m))\<lparr>fdata := (fdata (w_fs (m_world m)))(?s \<mapsto> trim_space status @ [newline])\<rparr>"
    using sf assms(5,6) by (simp add: WriteStatus_def write_file_def)
  have "read_file fs ?p = Inr (dec_digits (se_pid E) @ [newline])"
    using pid assms(2) by (simp add: fs read_file_def)
  then have m': "(code, m') = (0, m\<lparr>m_world := (m_world m)\<lparr>w_fs := fs\<rparr>, m_kills := m_kills m @ [int (se_pid E)]\<rparr>)"
    unfolding assms(8) [symmetric] runStop_def parse
    by (simp add: flag_str_def ws Atoi_digits [OF assms(4)] assms(7) Let_def)
  have "ShutdownStatus fs rt = or_default (trim_space status) (or_default (cf_Status (rt_cfg rt)) ''success'')"
    by (rule handed_status [OF ws]) (use sf in \<open>simp add: or_default_def\<close>)
  with m' show ?thesis by simp
qed

text \<open>A command line around the runner: nothing happens between being ready and the signal.\<close>

definition cli0 :: "AgentPolicy \<Rightarrow> (ref_trie, ref_lru) outcomes \<Rightarrow>
    (ref_trie, ref_lru, (string \<times> string) list, int, request list, unit) cli" where
  "cli0 pol out = \<lparr>cl_start = runner0 pol out, cl_ops = ref_ops, cl_endian = LittleEndian, cl_serve = (\<lambda>rt w. w),
     cl_ctx = (\<lambda>i. None), cl_rnd = (\<lambda>i. 0), cl_api = env0 204, cl_gzip = id, cl_struct = (\<lambda>m. Inr ()), cl_sync = None,
     cl_mkdir = None, cl_status_out = FOk, cl_kill = (\<lambda>p. None), cl_duration = (\<lambda>s. None), cl_now = 0, cl_moments = moments0\<rparr>"

definition machine0 :: "(ref_trie, ref_lru, (string \<times> string) list) world \<Rightarrow>
    (ref_trie, ref_lru, (string \<times> string) list, request list) machine" where
  "machine0 w = \<lparr>m_world = w, m_net = [], m_kills = [], m_stdout = [], m_stderr = []\<rparr>"

theorem runStop_reaches_agent_witness:
  "\<exists>rt w' m'. Start (runner0 policy0 outcomes_ok) ref_ops LittleEndian config0 world0 = Some (Inr rt, w')
     \<and> runStop (cli0 policy0 outcomes_ok) [''--pidfile'', ''p'', ''-status-file'', ''s'', ''--status'', '' failure ''] (machine0 w') = (0, m')
     \<and> m_kills m' = [7] \<and> ShutdownStatus (w_fs (m_world m')) rt = ''failure''"
proof -
  obtain rt w' where s: "Start (runner0 policy0 outcomes_ok) ref_ops LittleEndian config0 world0 = Some (Inr rt, w')"
    and c: "rt_cfg rt = config0"
    using runner0_up [OF policy0_sudo] by blast
  obtain code m' where r: "runStop (cli0 policy0 outcomes_ok) [''--pidfile'', cf_PidFile (rt_cfg rt), ''-status-file'',
      cf_StatusFile (rt_cfg rt), ''--status'', '' failure ''] (machine0 w') = (code, m')"
    by (metis surj_pair)
  have p: "cf_PidFile (rt_cfg rt) \<notin> {cf_ReadyFile (rt_cfg rt), cf_StatusFile (rt_cfg rt)}" by (simp add: c config0_def)
  have q: "fdata (w_fs (m_world (machine0 w'))) (cf_PidFile (rt_cfg rt)) = fdata (w_fs w') (cf_PidFile (rt_cfg rt))"
    by (simp add: machine0_def)
  have e: "se_pid (runner0 policy0 outcomes_ok) < 2 ^ 63" "cl_mkdir (cli0 policy0 outcomes_ok) = None"
    "cl_status_out (cli0 policy0 outcomes_ok) = FOk" "cl_kill (cli0 policy0 outcomes_ok) (int (se_pid (runner0 policy0 outcomes_ok))) = None"
    by (simp_all add: runner0_def cli0_def)
  have "trim_space '' failure '' = ''failure''" by code_simp
  with runStop_reaches_agent [OF s p q e r] r s show ?thesis
    by (auto simp: c config0_def runner0_def machine0_def or_default_def)
qed

end
