(* ===== verification/AgentRun.thy ===== *)
theory AgentRun
  imports CommandProps
begin

text \<open>
  The agent running: the programs in the kernel, the DNS handlers (each query in its own goroutine, their effects
  interleaved in any way), the reader of the ring buffer and the log, as a step relation from the state a start
  leaves.
\<close>

section \<open>Steps\<close>

text \<open>The state: the world, the handlers under way with the effects they still have to run, and the queries
  received so far.\<close>

record ('m, 'p, 'n, 'q) running =
  ru_world :: "('m, 'p, 'n) world"
  ru_pending :: "('q query \<times> 'q effect list) list"
  ru_received :: "'q query list"

text \<open>What the environment of a run is fixed to: the map operations, the byte order, Unicode lower-casing, the DNS
  library, the marshaller, and the runtime's log and proxy.\<close>

record ('m, 'p, 'q) surroundings =
  su_ops :: "('m, 'p) bpf_ops"
  su_endian :: endian
  su_uni :: "string \<Rightarrow> string"
  su_dns :: "'q dns_lib"
  su_marshal :: "AgentEvent \<Rightarrow> string + string"
  su_log :: Logger
  su_proxy :: Proxy

abbreviation with_fw :: "('m, 'p) fw \<Rightarrow> ('m, 'p, 'n, 'q) running \<Rightarrow> ('m, 'p, 'n, 'q) running" where
  "with_fw f s \<equiv> s\<lparr>ru_world := (ru_world s)\<lparr>w_fw := f\<rparr>\<rparr>"

abbreviation with_maps :: "('m, 'p) kstate \<Rightarrow> ('m, 'p, 'n, 'q) running \<Rightarrow> ('m, 'p, 'n, 'q) running" where
  "with_maps k s \<equiv> with_fw ((w_fw (ru_world s))\<lparr>objs := k\<rparr>) s"

text \<open>What the process and the kernel do: queries arrive, handlers advance, packets leave, sockets connect, programs are
  executed, the reader drains the ring.\<close>

inductive serve_step :: "('m, 'p, 'q) surroundings \<Rightarrow> ('m, 'p, 'n, 'q) running \<Rightarrow> ('m, 'p, 'n, 'q) running \<Rightarrow> bool"
  for S :: "('m, 'p, 'q) surroundings" where
  receive: "serve_step S s (s\<lparr>ru_received := ru_received s @ [q],
      ru_pending := (q, ServeDNS (su_uni S) (su_dns S) (qy_exchange q) (su_proxy S) (qy_msg q)) # ru_pending s\<rparr>)"
| effect: "ru_pending s = before @ (q, e # es) # after \<Longrightarrow>
    run_effects (su_marshal S) (su_ops S) (su_endian S) (su_log S) q [e] (w_fw (ru_world s), w_fs (ru_world s)) = Some (f, fs) \<Longrightarrow>
    serve_step S s (s\<lparr>ru_world := (ru_world s)\<lparr>w_fw := f, w_fs := fs\<rparr>, ru_pending := before @ (q, es) # after\<rparr>)"
| packet: "censor_egress (su_ops S) (su_endian S) h skb (objs (w_fw (ru_world s))) = Some (v, k) \<Longrightarrow>
    serve_step S s (with_maps k s)"
| connect: "serve_step S s (with_maps (snd (censor_connect4 (su_ops S) h (objs (w_fw (ru_world s))))) s)"
| exec: "serve_step S s (with_maps (snd (censor_exec h (objs (w_fw (ru_world s))))) s)"
| drain: "serve_step S s (with_maps ((objs (w_fw (ru_world s)))\<lparr>events := drop n (events (objs (w_fw (ru_world s))))\<rparr>) s)"

text \<open>Besides, files change in any way.\<close>

inductive agent_step :: "('m, 'p, 'q) surroundings \<Rightarrow> ('m, 'p, 'n, 'q) running \<Rightarrow> ('m, 'p, 'n, 'q) running \<Rightarrow> bool"
  for S :: "('m, 'p, 'q) surroundings" where
  serve: "serve_step S s s' \<Longrightarrow> agent_step S s s'"
| files: "agent_step S s (s\<lparr>ru_world := (ru_world s)\<lparr>w_fs := fs\<rparr>\<rparr>)"

inductive agent_run :: "('m, 'p, 'q) surroundings \<Rightarrow> ('m, 'p, 'n) world \<Rightarrow> ('m, 'p, 'n, 'q) running \<Rightarrow> bool"
  for S :: "('m, 'p, 'q) surroundings" and w :: "('m, 'p, 'n) world" where
  ready: "agent_run S w \<lparr>ru_world = w, ru_pending = [], ru_received = []\<rparr>"
| step: "agent_run S w s \<Longrightarrow> agent_step S s s' \<Longrightarrow> agent_run S w s'"

section \<open>Invariants\<close>

text \<open>What the programs in the kernel do to the maps leaves the allow maps and the configuration alone.\<close>

definition same_filter :: "('m, 'p) kstate \<Rightarrow> ('m, 'p) kstate \<Rightarrow> bool" where
  "same_filter k k' \<longleftrightarrow> allow_v4 k' = allow_v4 k \<and> allow_v6 k' = allow_v6 k \<and> config k' = config k"

lemma same_filter_programs:
  "censor_egress L en h skb k = Some (v, k') \<Longrightarrow> same_filter k k'"
  "same_filter k (snd (censor_connect4 L h k))" "same_filter k (snd (censor_exec h k))"
  "same_filter k (k\<lparr>events := es\<rparr>)"
  by (auto simp: same_filter_def egress_flow flow_step_def censor_connect4_def censor_exec_def emit_def Let_def
      split: option.splits if_splits)

lemma same_filter_flow: "same_filter k k' \<Longrightarrow> flow_allowed L k' f = flow_allowed L k f"
  by (simp add: same_filter_def flow_allowed_def)

lemma same_filter_fw:
  assumes "same_filter (objs s) k"
  shows "fw_inv (s\<lparr>objs := k\<rparr>) = fw_inv s" "loaded (s\<lparr>objs := k\<rparr>) = loaded s"
  by (simp_all add: fw_inv_def)

text \<open>One effect of a handler.\<close>

lemma effect_fw:
  assumes "run_effects marshal L en l q [e] (f, fs) = Some (f', fs')" "fw_inv f"
  shows "fw_inv f' \<and> loaded f' = loaded f \<and> config (objs f') = config (objs f)"
proof -
  have "f' = f \<or> (\<exists>a err. AllowIP L en a f = Some (f', err))"
    using assms(1) by (cases e) (auto simp: allowIPs_def split: bind_splits option.splits)
  then show ?thesis using AllowIP_inv AllowIP_config assms(2) by blast
qed

lemma handler_effect_admits:
  "OnAllow ip \<in> set (ServeDNS uni D (qy_exchange q) p (qy_msg q)) \<Longrightarrow> AddrFromSlice ip = Some a \<Longrightarrow>
   addr_admits en (Unmap a) f \<Longrightarrow> query_admits uni D en p q f"
  unfolding ServeDNS_def handle_allow query_admits_def by blast

definition pending_ok :: "('m, 'p, 'q) surroundings \<Rightarrow> 'q query list \<Rightarrow> 'q query \<times> 'q effect list \<Rightarrow> bool" where
  "pending_ok S qs p \<longleftrightarrow> fst p \<in> set qs
     \<and> set (snd p) \<subseteq> set (ServeDNS (su_uni S) (su_dns S) (qy_exchange (fst p)) (su_proxy S) (qy_msg (fst p)))"

text \<open>The invariant of a run: the firewall's own one, unchanged loading and mode, every pending effect one of its
  query's, and every flow open from the start or through an answered query.\<close>

definition run_inv :: "('m, 'p, 'q) surroundings \<Rightarrow> ('m, 'p, 'n) world \<Rightarrow> ('m, 'p, 'n, 'q) running \<Rightarrow> bool" where
  "run_inv S w s \<longleftrightarrow> fw_inv (w_fw (ru_world s)) \<and> loaded (w_fw (ru_world s)) = loaded (w_fw w)
     \<and> config (objs (w_fw (ru_world s))) = config (objs (w_fw w))
     \<and> list_all (pending_ok S (ru_received s)) (ru_pending s)
     \<and> (\<forall>f. flow_allowed (su_ops S) (objs (w_fw (ru_world s))) f \<longrightarrow> flow_allowed (su_ops S) (objs (w_fw w)) f
          \<or> (\<exists>q \<in> set (ru_received s). query_admits (su_uni S) (su_dns S) (su_endian S) (su_proxy S) q f))"

lemma pending_mono: "pending_ok S qs p \<Longrightarrow> pending_ok S (qs @ rs) p"
  by (auto simp: pending_ok_def)

lemma run_inv_maps:
  assumes "run_inv S w s" "same_filter (objs (w_fw (ru_world s))) k"
  shows "run_inv S w (with_maps k s)"
  using assms same_filter_fw [OF assms(2)]
  by (simp add: run_inv_def same_filter_flow [OF assms(2)]) (simp add: same_filter_def)

lemma run_inv_serve:
  assumes "lpm_trie (su_ops S)" "serve_step S s s'" "run_inv S w s"
  shows "run_inv S w s'"
  using assms(2)
proof cases
  case (receive q)
  have "pending_ok S (ru_received s @ [q]) (q, ServeDNS (su_uni S) (su_dns S) (qy_exchange q) (su_proxy S) (qy_msg q))"
    by (simp add: pending_ok_def)
  with assms(3) pending_mono [of S "ru_received s"] show ?thesis
    by (auto simp: receive run_inv_def list_all_iff)
next
  case (effect before q e es after f fs)
  from assms(3) effect(2) have inv: "fw_inv (w_fw (ru_world s))" and ok: "pending_ok S (ru_received s) (q, e # es)"
    by (simp_all add: run_inv_def)
  note keep = effect_fw [OF effect(3) inv]
  have flows: "flow_allowed (su_ops S) (objs (w_fw (ru_world s))) g
      \<or> query_admits (su_uni S) (su_dns S) (su_endian S) (su_proxy S) q g"
    if "flow_allowed (su_ops S) (objs f) g" for g
    using lpm_trie.run_effects_sound [OF assms(1) effect(3) that] ok
    by (auto simp: pending_ok_def intro: handler_effect_admits)
  have "q \<in> set (ru_received s)" using ok by (simp add: pending_ok_def)
  moreover have "list_all (pending_ok S (ru_received s)) (before @ (q, es) # after)"
    using assms(3) effect(2) by (auto simp: run_inv_def pending_ok_def)
  ultimately show ?thesis
    using assms(3) keep flows unfolding effect(1) run_inv_def by simp blast
next
  case (packet h skb v k)
  with assms(3) same_filter_programs(1) [OF packet(2)] show ?thesis by (simp add: run_inv_maps)
next
  case (connect h)
  with assms(3) show ?thesis by (simp add: run_inv_maps same_filter_programs)
next
  case (exec h)
  with assms(3) show ?thesis by (simp add: run_inv_maps same_filter_programs)
next
  case (drain n)
  with assms(3) show ?thesis by (simp add: run_inv_maps same_filter_programs)
qed

lemma run_inv_step:
  assumes "lpm_trie (su_ops S)" "agent_step S s s'" "run_inv S w s"
  shows "run_inv S w s'"
  using assms(2) by cases (use run_inv_serve [OF assms(1) _ assms(3)] assms(3) in \<open>simp_all add: run_inv_def\<close>)

lemma run_inv_run:
  assumes "agent_run S w s" "lpm_trie (su_ops S)" "fw_inv (w_fw w)"
  shows "run_inv S w s"
  using assms(1)
proof induction
  case ready
  with assms(3) show ?case by (simp add: run_inv_def)
next
  case (step s s')
  with run_inv_step [OF assms(2)] show ?case by blast
qed

text \<open>A handler is a sequence of steps.\<close>

lemma handler_steps:
  assumes "agent_run S w s" "ru_pending s = [(q, es)]"
    and "run_effects (su_marshal S) (su_ops S) (su_endian S) (su_log S) q es (w_fw (ru_world s), w_fs (ru_world s)) = Some (f, fs)"
  shows "agent_run S w (s\<lparr>ru_world := (ru_world s)\<lparr>w_fw := f, w_fs := fs\<rparr>, ru_pending := [(q, [])]\<rparr>)"
  using assms
proof (induction es arbitrary: s)
  case Nil
  then have "s\<lparr>ru_world := (ru_world s)\<lparr>w_fw := f, w_fs := fs\<rparr>, ru_pending := [(q, [])]\<rparr> = s" by simp
  with Nil show ?case by (simp only:)
next
  case (Cons e es)
  obtain f1 fs1 where e: "run_effects (su_marshal S) (su_ops S) (su_endian S) (su_log S) q [e]
      (w_fw (ru_world s), w_fs (ru_world s)) = Some (f1, fs1)"
    using run_effects_total by (metis surj_pair)
  let ?s = "s\<lparr>ru_world := (ru_world s)\<lparr>w_fw := f1, w_fs := fs1\<rparr>, ru_pending := [(q, es)]\<rparr>"
  have "agent_step S s ?s" using agent_step.serve [OF serve_step.effect [of s "[]" q e es "[]", OF _ e]] Cons.prems(2) by simp
  with Cons.prems(1) have run: "agent_run S w ?s" by (rule agent_run.step)
  have "run_effects (su_marshal S) (su_ops S) (su_endian S) (su_log S) q es (f1, fs1) = Some (f, fs)"
    using e Cons.prems(3) by (cases e) (auto split: bind_splits)
  with Cons.IH [OF run] show ?case by simp
qed

section \<open>Properties\<close>


definition policy1 :: AgentPolicy where
  "policy1 = policy0\<lparr>pl_AllowedHosts := [''github.com'']\<rparr>"

definition agent1 :: "(ref_trie, ref_lru, toy) surroundings" where
  "agent1 = \<lparr>su_ops = ref_ops, su_endian = LittleEndian, su_uni = id, su_dns = toy_lib, su_marshal = plain_marshal, su_log = log0,
     su_proxy = proxy_for config0 policy1\<rparr>"

lemma query1_effects:
  "ServeDNS id toy_lib (qy_exchange query1) (proxy_for config0 policy1) (qy_msg query1)
     = [OnEvent ''github.com'' ACTION_ALLOW ''allowedHosts'', Exchange ([''github.com.''], [], 0) ''q'', OnAllow [1, 2, 3, 4],
        WriteMsg ([''github.com.''], [RR_A [1, 2, 3, 4]], 0)]"
  by code_simp

abbreviation flow4321 :: flow where
  "flow4321 \<equiv> \<lparr>f_v6 = False, f_dst = [4, 3, 2, 1], f_dport = 443, f_proto = 6\<rparr>"

lemma query1_opens:
  assumes "loaded f" "allow_v4 (objs f) = []"
  shows "\<exists>f' fs'. run_effects plain_marshal ref_ops LittleEndian log0 query1
       (ServeDNS id toy_lib (qy_exchange query1) (proxy_for config0 policy1) (qy_msg query1)) (f, fs) = Some (f', fs')
    \<and> config (objs f') = config (objs f) \<and> flow_allowed ref_ops (objs f') flow4321"
proof -
  obtain f' where a: "AllowIP ref_ops LittleEndian (Addr4 (join_be32 1 2 3 4)) f = Some (f', None)"
    using assms by (simp add: AllowIP_cases putV4_def ref_ops_def ref_update_def Let_def)
  then have "allowIPs ref_ops LittleEndian [1, 2, 3, 4] f = Some f'"
    by (simp add: allowIPs_def AddrFromSlice_def AddrFrom4_def)
  moreover have "addr_admits LittleEndian (Addr4 (join_be32 1 2 3 4)) flow4321"
    by (simp add: addr_admits_def codec_simps)
  ultimately show ?thesis
    using lpm_trie.AllowIP_flow [OF ref_lpm_trie a assms(1)] AllowIP_config [OF a] by (simp add: query1_effects)
qed

lemma runner0_seeded: "seeded (se_proc (runner0 pol out)) (se_lookup_host (runner0 pol out)) hosts = []"
  by (auto simp: seeded_def runner0_def table_addrs_def host_addrs_def proc_paths_def)



text \<open>An agent that serves one query before it is stopped.\<close>

definition serve1 :: "'j Runtime \<Rightarrow> (ref_trie, ref_lru, 'n) world \<Rightarrow> (ref_trie, ref_lru, 'n) world" where
  "serve1 rt w = (case run_effects plain_marshal ref_ops LittleEndian log0 query1
       (ServeDNS id toy_lib (qy_exchange query1) (proxy_for config0 policy1) (qy_msg query1)) (w_fw w, w_fs w) of
     Some (f, fs) \<Rightarrow> w\<lparr>w_fw := f, w_fs := fs\<rparr> | None \<Rightarrow> w)"

lemma serve1_run: "\<exists>s. agent_run agent1 w s \<and> ru_world s = serve1 rt w"
proof -
  let ?es = "ServeDNS id toy_lib (qy_exchange query1) (proxy_for config0 policy1) (qy_msg query1)"
  obtain f fs where e: "run_effects plain_marshal ref_ops LittleEndian log0 query1 ?es (w_fw w, w_fs w) = Some (f, fs)"
    using run_effects_total by (metis surj_pair)
  let ?r = "\<lparr>ru_world = w, ru_pending = [(query1, ?es)], ru_received = [query1]\<rparr>"
  have "agent_run agent1 w ?r"
    using agent_run.step [OF agent_run.ready agent_step.serve [OF serve_step.receive], of agent1 w query1] by (simp add: agent1_def)
  from handler_steps [OF this] e have
    "agent_run agent1 w (?r\<lparr>ru_world := w\<lparr>w_fw := f, w_fs := fs\<rparr>, ru_pending := [(query1, [])]\<rparr>)" by (simp add: agent1_def)
  then show ?thesis by (intro exI conjI) (assumption, simp add: serve1_def e)
qed


end
