(* ===== verification/RemoteStart.thy ===== *)
theory RemoteStart
  imports AgentRun
begin

text \<open>
  The agent and the server: a start whose policy comes from the API client, over a server that answers every request
  with one status and body, and the upload that ends a run.
\<close>

section \<open>The policy from the server\<close>

text \<open>What \<^verbatim>\<open>Start\<close> makes of \<^verbatim>\<open>client.FetchPolicy\<close>, with the context, the jitter, the transport and its state fixed.\<close>

definition fetched :: "error option \<times> AgentPolicy option \<times> 's \<Rightarrow> string + AgentPolicy" where
  "fetched r = (case r of (Some e, _, _) \<Rightarrow> Inl (error_text e) | (None, pol, _) \<Rightarrow> Inr (the pol))"

definition on_server :: "(nat \<Rightarrow> error option) \<Rightarrow> (nat \<Rightarrow> nat) \<Rightarrow> (request list, 'x) api_env \<Rightarrow>
    ('m, 'p, 'n, 'j) start_env \<Rightarrow> ('m, 'p, 'n, 'j) start_env" where
  "on_server ctx rnd A E = E\<lparr>se_fetch := \<lambda>c g. fetched (FetchPolicy ctx rnd A c g [])\<rparr>"

lemma on_server_sel [simp]:
  "se_getenv (on_server ctx rnd A E) = se_getenv E" "se_mkdir (on_server ctx rnd A E) = se_mkdir E"
  "se_gha (on_server ctx rnd A E) = se_gha E" "se_open (on_server ctx rnd A E) = se_open E"
  "se_attach (on_server ctx rnd A E) = se_attach E" "se_pid_out (on_server ctx rnd A E) = se_pid_out E"
  "se_ready_out (on_server ctx rnd A E) = se_ready_out E" "se_fail_out (on_server ctx rnd A E) = se_fail_out E"
  "se_version (on_server ctx rnd A E) = se_version E"
  "docker_panics (on_server ctx rnd A E) c = docker_panics E c" "lockable (on_server ctx rnd A E) = lockable E"
  by (simp_all add: on_server_def docker_panics_def lockable_def)

text \<open>The client a start builds.\<close>

definition remote_client :: "('m, 'p, 'n, 'j) start_env \<Rightarrow> Config \<Rightarrow> string \<Rightarrow> Client" where
  "remote_client E c key = \<lparr>BaseURL = cf_APIURL c, APIKey = key, Version = se_version E, Attempts = 0\<rparr>"

text \<open>A configuration that asks for a remote policy, with its key readable and its URL well-formed.\<close>

definition remote :: "('m, 'p, 'n, 'j) start_env \<Rightarrow> (request list, 'x) api_env \<Rightarrow> Config \<Rightarrow> 'j Context \<Rightarrow> osfs \<Rightarrow> string \<Rightarrow>
    string \<times> (string \<times> string) list \<Rightarrow> bool" where
  "remote E A c g fs key u \<longleftrightarrow> cf_ConfigFile c = [] \<and> cf_APIURL c \<noteq> []
     \<and> LoadAPIKey (read_file fs) (cf_APIKeyPath c) = Inr key
     \<and> ae_url_parse A (trim_right (cf_APIURL c) (CHR ''/'') @ policyPath) = Inr u
     \<and> ae_new_request A (policy_request (remote_client E c key) g u) = None"

lemma load_policy_remote:
  "remote E A c g fs key u \<Longrightarrow> load_policy (on_server ctx rnd A E) c g fs
     = map_sum id (Pair (remote_client E c key)) (fetched (FetchPolicy ctx rnd A (remote_client E c key) g []))"
  by (cases "fetched (FetchPolicy ctx rnd A (remote_client E c key) g [])")
    (simp_all add: remote_def load_policy_def remote_client_def on_server_def Let_def)

lemma FetchPolicy_accepted:
  assumes "\<forall>i. ctx i = None" "answers A code body" "ClassifyStatus code = FailureNone" "ae_unmarshal A body = Inr pol"
    and "remote E A c g fs key u"
  shows "FetchPolicy ctx rnd A (remote_client E c key) g [] = (None, Some pol, [policy_request (remote_client E c key) g u])"
proof -
  let ?c = "remote_client E c key"
  have f: "fetch_fn A ?c g ([], None) = (([policy_request ?c g u], Some pol), None)"
    using assms by (simp add: fetch_fn_def fetchPolicyOnce_def answers_def remote_def remote_client_def)
  obtain ws where "withRetries ctx rnd (attempts ?c) (fetch_fn A ?c g) ([], None) = (None, ([policy_request ?c g u], Some pol), ws)"
    using retries_once [of ctx "fetch_fn A ?c g" "([], None)" rnd "attempts ?c"] assms(1)
    by (auto simp: f goes_on_def)
  then show ?thesis by (simp add: FetchPolicy_def)
qed

text \<open>With no runtime yet, failing to load the policy only leaves the failure file.\<close>

lemma Start_no_policy:
  assumes "se_mkdir E = None" "se_gha E = Inr g"
    and "load_policy E (defaults (se_getenv E) cfg) g (cleared (defaults (se_getenv E) cfg) (w_fs w)) = Inl e"
  shows "Start E L en cfg w = Some (Inl e, w\<lparr>w_fs := writeFail (se_fail_out E) (cf_FailureFile (defaults (se_getenv E) cfg)) e
    (cleared (defaults (se_getenv E) cfg) (w_fs w))\<rparr>)"
  using assms by (simp add: Start_def Let_def cleared_def fail_with_def)

section \<open>Properties\<close>

text \<open>C14: A rejected agent does not run. When the server answers the policy requests with a failing status,
  \<open>Start\<close> fails with the class and the status, after one request for a final status and three for one worth retrying, all
  of them the request of this job; the firewall, the sockets and the NAT table are as before, and of the files only
  the agent's own are touched: the ready and status files are gone and the failure file holds the reason.\<close>

theorem rejected_start:
  assumes "c = defaults (se_getenv E) cfg" "se_mkdir E = None" "se_gha E = Inr g"
    and "remote E A c g (cleared c (w_fs w)) key u" "\<forall>i. ctx i = None"
    and "answers A code body" "ClassifyStatus code \<noteq> FailureNone"
    and "msg = error_text (APIError (ClassifyStatus code) code (Plain (ApiClient.truncate body 256)))"
  shows "Start (on_server ctx rnd A E) L en cfg w
      = Some (Inl msg, w\<lparr>w_fs := writeFail (se_fail_out E) (cf_FailureFile c) msg (cleared c (w_fs w))\<rparr>)
    \<and> snd (snd (FetchPolicy ctx rnd A (remote_client E c key) g []))
      = replicate (if Retryable (ClassifyStatus code) then 3 else 1) (policy_request (remote_client E c key) g u)"
proof -
  let ?c = "remote_client E c key"
  have "ae_url_parse A (trim_right (BaseURL ?c) (CHR ''/'') @ policyPath) = Inr u" "ae_new_request A (policy_request ?c g u) = None"
    using assms(4) by (simp_all add: remote_def remote_client_def)
  note p = FetchPolicy_posture [OF assms(5,6,7) this, of rnd, THEN conjunct1]
  have "load_policy (on_server ctx rnd A E) c g (cleared c (w_fs w)) = Inl msg"
    unfolding load_policy_remote [OF assms(4)] p by (simp add: fetched_def assms(8))
  then have "Start (on_server ctx rnd A E) L en cfg w
      = Some (Inl msg, w\<lparr>w_fs := writeFail (se_fail_out E) (cf_FailureFile c) msg (cleared c (w_fs w))\<rparr>)"
    using Start_no_policy [of "on_server ctx rnd A E" g cfg w msg L en] assms(2,3) unfolding assms(1) by simp
  moreover have "requests_for ?c code = (if Retryable (ClassifyStatus code) then 3 else 1)"
    by (simp add: requests_for_def remote_client_def attempts_def max_calls_def)
  ultimately show ?thesis by (simp add: p)
qed

text \<open>A runner that asks the server: no local policy, the key in its file.\<close>

definition remote0 :: Config where
  "remote0 = config0\<lparr>cf_ConfigFile := []\<rparr>"

definition world1 :: "(ref_trie, ref_lru, (string \<times> string) list) world" where
  "world1 = world0\<lparr>w_fs := fs0\<lparr>fdata := [''k'' \<mapsto> ''key'' @ [newline], ''r'' \<mapsto> ''ok'']\<rparr>\<rparr>"

lemma remote0_setting:
  "defaults (se_getenv (runner0 pol out)) remote0 = remote0" "se_mkdir (runner0 pol out) = None" "se_gha (runner0 pol out) = Inr gha0"
  "ae_url_parse A = (\<lambda>s. Inr (s, [])) \<Longrightarrow> ae_new_request A = (\<lambda>r. None) \<Longrightarrow>
   remote (runner0 pol out) A remote0 gha0 (cleared remote0 (w_fs world1)) ''key'' (''u/v1/agent/policy'', [])"
proof -
  have "trim_space (''key'' @ [newline]) = ''key''" by code_simp
  moreover have "trim_right ''u'' (CHR ''/'') @ policyPath = ''u/v1/agent/policy''" by code_simp
  ultimately show "ae_url_parse A = (\<lambda>s. Inr (s, [])) \<Longrightarrow> ae_new_request A = (\<lambda>r. None) \<Longrightarrow>
   remote (runner0 pol out) A remote0 gha0 (cleared remote0 (w_fs world1)) ''key'' (''u/v1/agent/policy'', [])"
    by (simp add: remote_def remote0_def config0_def cleared_def world1_def world0_def remove_file_def LoadAPIKey_def read_file_def
        del: append.simps)
qed (simp_all add: runner0_def defaults_def or_default_def remote0_def config0_def)

theorem rejected_start_witness:
  "\<exists>w'. Start (on_server (\<lambda>i. None) (\<lambda>i. 0) (env0 403) (runner0 policy0 outcomes_ok)) ref_ops LittleEndian remote0 world1
       = Some (Inl ''api error class=4 status=403: no'', w')
     \<and> w_fw w' = w_fw world1 \<and> fdata (w_fs w') ''r'' = None \<and> fdata (w_fs w') ''f'' = Some (''api error class=4 status=403: no'' @ [newline])
     \<and> length (snd (snd (FetchPolicy (\<lambda>i. None) (\<lambda>i. 0) (env0 403) (remote_client (runner0 policy0 outcomes_ok) remote0 ''key'') gha0 []))) = 1"
proof -
  note s = remote0_setting [where pol = policy0 and out = outcomes_ok]
  have r: "remote (runner0 policy0 outcomes_ok) (env0 403) remote0 gha0 (cleared remote0 (w_fs world1)) ''key'' (''u/v1/agent/policy'', [])"
    by (rule s(4)) (simp_all add: env0_def)
  have a: "\<forall>i :: nat. (\<lambda>i. None :: error option) i = None" "answers (env0 403) 403 ''no''" "ClassifyStatus 403 \<noteq> FailureNone"
    by (simp_all add: answers_def env0_def ClassifyStatus_def)
  have m: "''api error class=4 status=403: no'' = error_text (APIError (ClassifyStatus 403) 403 (Plain (ApiClient.truncate ''no'' 256)))"
    by code_simp
  have nr: "\<not> Retryable (ClassifyStatus 403)" by (simp add: ClassifyStatus_def Retryable_def)
  from rejected_start [OF s(1) [symmetric] s(2,3) r a m, of "\<lambda>i. 0" ref_ops LittleEndian] nr show ?thesis
    by (simp add: runner0_def writeFail_def write_file_def remote0_def config0_def cleared_def remove_file_def del: append.simps)
qed

text \<open>C13: An accepted agent runs the server's policy. When the server answers with a policy and the rest of the surroundings
  let the agent start, \<open>Start\<close> returns a runtime with the filter loaded and the proxy in place for exactly that
  policy, having sent one request.\<close>

theorem accepted_start:
  assumes "c = defaults (se_getenv E) cfg" "se_mkdir E = None" "se_gha E = Inr g"
    and "remote E A c g (cleared c (w_fs w)) key u" "\<forall>i. ctx i = None"
    and "answers A code body" "ClassifyStatus code = FailureNone" "ae_unmarshal A body = Inr pol"
    and "EventLog.Open (se_open E) (cf_LogPath c) (cleared c (w_fs w)) = (fs, Inr l)"
    and "fw_idle (w_fw w)" "pl_DisableSudo pol \<Longrightarrow> lockable E" "\<not> docker_panics E c"
    and "all_up (se_attach E)" "se_pid_out E = FOk" "se_ready_out E = FOk"
  shows "(\<exists>rt w'. Start (on_server ctx rnd A E) L en cfg w = Some (Inr rt, w') \<and> loaded (w_fw w') \<and> rt_cfg rt = c
      \<and> rt_policy rt = pol \<and> rt_dns rt = Some (proxy_for c pol))
    \<and> snd (snd (FetchPolicy ctx rnd A (remote_client E c key) g [])) = [policy_request (remote_client E c key) g u]"
proof -
  let ?E = "on_server ctx rnd A E"
  note p = FetchPolicy_accepted [OF assms(5,6,7,8,4), of rnd]
  have lp: "load_policy ?E c g (cleared c (w_fs w)) = Inr (remote_client E c key, pol)"
    unfolding load_policy_remote [OF assms(4)] p by (simp add: fetched_def)
  have "c = defaults (se_getenv ?E) cfg" "se_mkdir ?E = None" "se_gha ?E = Inr g"
    "EventLog.Open (se_open ?E) (cf_LogPath c) (cleared c (w_fs w)) = (fs, Inr l)"
    using assms by simp_all
  from Start_reaches [OF this(1-3) lp this(4), of L en] assms(11,12) obtain rt1 w1 where
    r: "Start ?E L en cfg w = start_bpf ?E L en (merged_hosts c pol) rt1 w1" "rt_cfg rt1 = c" "rt_policy rt1 = pol"
      "w_fw w1 = w_fw w" "rt_dns rt1 = Some (proxy_for c pol)"
    by (auto simp: to_bpf_def)
  have "fw_idle (w_fw w1)" "all_up (se_attach ?E)" "se_pid_out ?E = FOk" "se_ready_out ?E = FOk" using assms r(4) by simp_all
  from start_bpf_live [OF this, of L en "merged_hosts c pol" rt1] r p show ?thesis by auto
qed

definition server0 :: "(request list, unit) api_env" where
  "server0 = (env0 200)\<lparr>ae_unmarshal := \<lambda>b. Inr policy1\<rparr>"

theorem accepted_start_witness:
  "\<exists>rt w'. Start (on_server (\<lambda>i. None) (\<lambda>i. 0) server0 (runner0 policy0 outcomes_ok)) ref_ops LittleEndian remote0 world1 = Some (Inr rt, w')
     \<and> loaded (w_fw w') \<and> map_option px_Allowed (rt_dns rt) = Some [''github.com'']"
proof -
  note s = remote0_setting [where pol = policy0 and out = outcomes_ok]
  have r: "remote (runner0 policy0 outcomes_ok) server0 remote0 gha0 (cleared remote0 (w_fs world1)) ''key'' (''u/v1/agent/policy'', [])"
    by (rule s(4)) (simp_all add: env0_def server0_def)
  have a: "\<forall>i :: nat. (\<lambda>i. None :: error option) i = None" "answers server0 200 ''no''" "ClassifyStatus 200 = FailureNone"
    "ae_unmarshal server0 ''no'' = Inr policy1"
    by (simp_all add: answers_def env0_def server0_def ClassifyStatus_def)
  obtain fs l where op: "EventLog.Open (se_open (runner0 policy0 outcomes_ok)) (cf_LogPath remote0) (cleared remote0 (w_fs world1)) = (fs, Inr l)"
    by (simp add: runner0_def remote0_def config0_def cleared_def world1_def world0_def remove_file_def EventLog.Open_def ok_open_def
        fs0_def Let_def)
  have i: "fw_idle (w_fw world1)" using world0_idle by (simp add: world1_def)
  have k: "pl_DisableSudo policy1 \<Longrightarrow> lockable (runner0 policy0 outcomes_ok)" by (simp add: policy1_def policy0_def)
  have d: "\<not> docker_panics (runner0 policy0 outcomes_ok) remote0" by (simp add: docker_panics_def remote0_def config0_def)
  have o: "all_up (se_attach (runner0 policy0 outcomes_ok))" "se_pid_out (runner0 policy0 outcomes_ok) = FOk"
    "se_ready_out (runner0 policy0 outcomes_ok) = FOk"
    using outcomes_ok_up by (simp_all add: runner0_def)
  have h: "merged_hosts remote0 policy1 = [''github.com'']"
    by (simp add: merged_hosts_def policy1_def policy0_def remote0_def config0_def MergeAllowed_def)
  from accepted_start [OF s(1) [symmetric] s(2,3) r a op i k d o, of "\<lambda>i. 0" ref_ops LittleEndian]
  show ?thesis by (auto simp: proxy_for_def h)
qed

text \<open>C15: The log reaches the server. When the agent of a server shuts down with its log open and readable, it posts the
  content of the log, compressed, with metadata that carry the status handed over at that moment, once or (for a
  status worth retrying) as often as the client is configured for; whatever comes of it, the runtime is closed, and the exit code
  is zero exactly when the server took the upload and closing reported nothing.\<close>

theorem shutdown_delivers:
  assumes "cf_ConfigFile (rt_cfg rt) = [] \<or> cf_APIURL (rt_cfg rt) \<noteq> []" "lg_file (rt_log rt) = Some fd" "cl_sync C = None"
    and "fdata (w_fs (m_world m)) (lg_path (rt_log rt)) = Some raw"
    and "GhaContext.Proto (cl_struct C) (rt_ghac rt) = Inr jc"
    and "ae_marshal (cl_api C) (upload_meta rt (se_version (cl_start C)) (ShutdownStatus (w_fs (m_world m)) rt) jc) = Inr mb"
    and "ae_new_request (cl_api C) (upload_request (cl_api C) (rt_client rt) mb (cl_gzip C raw)) = None"
    and "\<forall>i. cl_ctx C i = None" "answers (cl_api C) code body" "m_net m = []"
    and "run_shutdown C rt m = (exit, m')"
  shows "m_net m' = replicate (requests_for (rt_client rt) code) (upload_request (cl_api C) (rt_client rt) mb (cl_gzip C raw))
    \<and> m_world m' = fst (rt_Close (cl_start C) rt (m_world m))
    \<and> (exit = 0 \<longleftrightarrow> code \<in> {200, 201, 202, 204} \<and> snd (rt_Close (cl_start C) rt (m_world m)) = None)"
proof -
  let ?status = "ShutdownStatus (w_fs (m_world m)) rt"
  let ?meta = "upload_meta rt (se_version (cl_start C)) ?status jc"
  have up: "Upload (cl_ctx C) (cl_rnd C) (cl_api C) (cl_gzip C) (cl_struct C) (se_version (cl_start C)) (cl_sync C) rt
      (w_fs (m_world m)) ?status (m_net m) = UploadLogs (cl_ctx C) (cl_rnd C) (cl_api C) (rt_client rt) ?meta (cl_gzip C raw) []"
    using assms(1-5,10) by (auto simp: Upload_def EventLog.ReadFile_def)
  obtain err s where u: "UploadLogs (cl_ctx C) (cl_rnd C) (cl_api C) (rt_client rt) ?meta (cl_gzip C raw) [] = (err, s)"
    by (metis surj_pair)
  obtain w e where c: "rt_Close (cl_start C) rt (m_world m) = (w, e)" by (metis surj_pair)
  note post = UploadLogs_posture [OF assms(8,9,6,7), of "cl_rnd C", unfolded u]
  show ?thesis
    using assms(11) post c
    by (cases err; cases e) (auto simp: run_shutdown_def up u eprint_def Let_def)
qed

definition runtime0 :: "int Runtime" where
  "runtime0 = \<lparr>rt_cfg = config0, rt_policy = policy0, rt_ghac = gha0, rt_log = \<lparr>lg_file = Some 3, lg_path = ''l''\<rparr>, rt_dns = None,
     rt_lock = None, rt_dnsRedir = None, rt_dockerDNS = None, rt_client = client0, rt_consuming = False\<rparr>"

definition machine1 :: "(ref_trie, ref_lru, (string \<times> string) list, request list) machine" where
  "machine1 = machine0 (world0\<lparr>w_fs := fs0\<lparr>fdata := [''l'' \<mapsto> ''log'', ''s'' \<mapsto> ''failure'' @ [newline]]\<rparr>\<rparr>)"

theorem shutdown_delivers_witness:
  "\<exists>m' mb. run_shutdown (cli0 policy0 outcomes_ok) runtime0 machine1 = (0, m')
     \<and> m_net m' = [upload_request (env0 204) client0 mb ''log'']"
proof -
  let ?C = "cli0 policy0 outcomes_ok"
  obtain exit m' where r: "run_shutdown ?C runtime0 machine1 = (exit, m')" by (metis surj_pair)
  have a: "cf_ConfigFile (rt_cfg runtime0) = [] \<or> cf_APIURL (rt_cfg runtime0) \<noteq> []" "lg_file (rt_log runtime0) = Some 3"
    "cl_sync ?C = None" "fdata (w_fs (m_world machine1)) (lg_path (rt_log runtime0)) = Some ''log''"
    by (simp_all add: runtime0_def config0_def cli0_def machine1_def machine0_def)
  obtain jc where j: "GhaContext.Proto (cl_struct ?C) (rt_ghac runtime0) = Inr jc"
    by (simp add: runtime0_def GhaContext.Proto_def gha0_def)
  have b: "ae_marshal (cl_api ?C) x = Inr ''m''" "ae_new_request (cl_api ?C) y = None" for x y
    by (simp_all add: cli0_def env0_def)
  have d: "\<forall>i. cl_ctx ?C i = None" "answers (cl_api ?C) 204 ''no''" "m_net machine1 = []"
    by (simp_all add: cli0_def env0_def answers_def machine1_def machine0_def)
  have "snd (rt_Close (cl_start ?C) runtime0 (m_world machine1)) = None"
    by (simp add: rt_Close_def close_docker_def close_redir_def close_dns_def close_rest_def runtime0_def keep_first_def
        EventLog.Close_def cli0_def runner0_def Let_def)
  with shutdown_delivers [OF a j b d r] r show ?thesis
    by (auto simp: requests_for_def ClassifyStatus_def Retryable_def cli0_def runtime0_def)
qed

end
