(* ===== verification/Descriptors.thy ===== *)
theory Descriptors
  imports CommandProps FileFrames
begin

text \<open>
  The descriptors and locks of the log: the well-formedness of the file system's tables, that every operation of the
  agent keeps it, and that neither a start that fails nor a command that ends leaves a descriptor or a lock.
\<close>

section \<open>Well-formed tables\<close>

text \<open>Descriptors in use are below the next one, and a lock is held by a descriptor open on the locked file.\<close>

definition fs_wf :: "osfs \<Rightarrow> bool" where
  "fs_wf fs \<longleftrightarrow> (\<forall>fd \<in> dom (fopen fs). fd < nextfd fs) \<and> (\<forall>p fd. flock fs p = Some fd \<longrightarrow> (\<exists>off. fopen fs fd = Some (p, off)))"

definition handles :: "osfs \<Rightarrow> nat \<rightharpoonup> string" where
  "handles fs fd = map_option fst (fopen fs fd)"

lemma dom_handles [simp]: "dom (handles fs) = dom (fopen fs)"
  by (auto simp: handles_def dom_def)

lemma handles_data [simp]: "handles (fs\<lparr>fdata := d\<rparr>) = handles fs"
  by (simp add: handles_def fun_eq_iff)

lemma handles_Some: "handles fs fd = Some p \<longleftrightarrow> (\<exists>off. fopen fs fd = Some (p, off))"
  by (auto simp: handles_def)

lemma fs_wf_handles:
  "fs_wf fs \<longleftrightarrow> (\<forall>fd \<in> dom (handles fs). fd < nextfd fs) \<and> (\<forall>p fd. flock fs p = Some fd \<longrightarrow> handles fs fd = Some p)"
  by (simp add: fs_wf_def handles_Some)

text \<open>The tables of two file systems agree, whatever the contents and offsets.\<close>

definition same_tables :: "osfs \<Rightarrow> osfs \<Rightarrow> bool" where
  "same_tables fs fs' \<longleftrightarrow> handles fs' = handles fs \<and> flock fs' = flock fs \<and> nextfd fs' = nextfd fs"

lemma same_tables_data [simp]: "same_tables fs (fs\<lparr>fdata := d\<rparr>)"
  by (simp add: same_tables_def handles_def fun_eq_iff)

lemma same_tables_write [simp]: "same_tables fs (fst (write_file out q c fs))"
  by (cases out) (simp_all add: write_file_def same_tables_def)

lemma same_tables_remove [simp]: "same_tables fs (remove_file q fs)"
  by (simp add: remove_file_def)

lemma same_tables_log [simp]: "same_tables fs (fst (WriteEvent marshal out ev lg fs))"
  by (auto simp: WriteEvent_def fd_write_def same_tables_def handles_def fun_eq_iff split: sum.split option.split)

lemma same_tables_wf: "same_tables fs fs' \<Longrightarrow> fs_wf fs' = fs_wf fs"
  by (simp add: same_tables_def fs_wf_handles)

lemma same_tables_trans: "same_tables fs fs' \<Longrightarrow> same_tables fs' fs'' \<Longrightarrow> same_tables fs fs''"
  by (simp add: same_tables_def)

section \<open>Holding the log\<close>

text \<open>Above the descriptors \<open>F\<close> and locks \<open>K\<close> there were, the log is held: one descriptor more, and the lock on its file.\<close>

definition log_held :: "(nat \<rightharpoonup> string) \<Rightarrow> (string \<rightharpoonup> nat) \<Rightarrow> Logger \<Rightarrow> osfs \<Rightarrow> bool" where
  "log_held F K lg fs \<longleftrightarrow> fs_wf fs \<and> (\<exists>fd. lg_file lg = Some fd \<and> F fd = None \<and> fd \<notin> ran K \<and> K (lg_path lg) = None
     \<and> handles fs = F(fd \<mapsto> lg_path lg) \<and> flock fs = K(lg_path lg \<mapsto> fd))"

definition log_free :: "(nat \<rightharpoonup> string) \<Rightarrow> (string \<rightharpoonup> nat) \<Rightarrow> osfs \<Rightarrow> bool" where
  "log_free F K fs \<longleftrightarrow> fs_wf fs \<and> handles fs = F \<and> flock fs = K"

lemma log_held_tables: "same_tables fs fs' \<Longrightarrow> log_held F K lg fs \<Longrightarrow> log_held F K lg fs'"
  using same_tables_wf [of fs fs'] by (simp add: same_tables_def log_held_def)

lemma log_free_tables: "same_tables fs fs' \<Longrightarrow> log_free F K fs \<Longrightarrow> log_free F K fs'"
  using same_tables_wf [of fs fs'] by (simp add: same_tables_def log_free_def)

lemma handles_close: "handles (fd_close fd fs) = (handles fs)(fd := None)"
  "flock (fd_close fd fs) p = (if flock fs p = Some fd then None else flock fs p)" "nextfd (fd_close fd fs) = nextfd fs"
  by (simp_all add: fd_close_def fd_unlock_def handles_def fun_eq_iff)

lemma unlock_tables: "handles (fd_unlock fd fs) = handles fs" "nextfd (fd_unlock fd fs) = nextfd fs"
  "flock (fd_unlock fd fs) p = (if flock fs p = Some fd then None else flock fs p)"
  by (simp_all add: fd_unlock_def handles_def fun_eq_iff)

lemma log_close:
  assumes "log_held F K lg fs" "EventLog.Close cerr lg fs = (l', fs', e)"
  shows "log_free F K fs'"
proof -
  from assms(1) obtain fd where fd: "lg_file lg = Some fd" "F fd = None" "fd \<notin> ran K" "K (lg_path lg) = None"
    "handles fs = F(fd \<mapsto> lg_path lg)" "flock fs = K(lg_path lg \<mapsto> fd)" and wf: "fs_wf fs" by (auto simp: log_held_def)
  have fs': "fs' = fd_close fd (fd_unlock fd fs)" using assms(2) fd(1) by (simp add: EventLog.Close_def)
  have h: "handles fs' = F" using fd(2,5) by (simp add: fs' handles_close unlock_tables fun_eq_iff)
  have "flock fs' p = K p" for p
    using fd(3,4,6) by (auto simp: fs' handles_close unlock_tables ran_def)
  then have l: "flock fs' = K" by (simp add: fun_eq_iff)
  have "fs_wf fs'"
    unfolding fs_wf_handles h l
  proof (intro conjI ballI allI impI)
    fix g assume "g \<in> dom F"
    with wf fd(2,5) show "g < nextfd fs'" by (auto simp: fs_wf_handles fs' handles_close unlock_tables dom_def)
  next
    fix p g assume k: "K p = Some g"
    then have "flock fs p = Some g" using fd(4,6) by auto
    with wf have "handles fs g = Some p" by (simp add: fs_wf_handles)
    moreover have "g \<noteq> fd" using k fd(3) by (auto simp: ran_def)
    ultimately show "F g = Some p" using fd(5) by simp
  qed
  with h l show ?thesis by (simp add: log_free_def)
qed

interpretation log: file_frame lg UNIV "log_held F K lg" "log_free F K" for lg F K
proof unfold_locales
  show "log_held F K lg fs \<Longrightarrow> EventLog.Close cerr lg fs = (l', fs', e) \<Longrightarrow> log_free F K fs'" for fs cerr l' fs' e
    by (rule log_close)
qed (auto intro: log_held_tables [OF same_tables_write] log_held_tables [OF same_tables_remove] log_held_tables [OF same_tables_log]
    log_free_tables [OF same_tables_write] log_free_tables [OF same_tables_remove])

lemma log_open:
  assumes "fs_wf fs" "EventLog.Open out path fs = (fs', r)"
  shows "case r of Inl e \<Rightarrow> log_free (handles fs) (flock fs) fs' | Inr l \<Rightarrow> log_held (handles fs) (flock fs) l fs'"
proof -
  let ?fd = "nextfd fs" and ?p = "if path = [] then DefaultLogPath else path"
  let ?fs = "fs\<lparr>fdata := (fdata fs)(?p \<mapsto> []), fopen := (fopen fs)(?fd \<mapsto> (?p, 0)), nextfd := Suc ?fd\<rparr>"
  have new: "fopen fs ?fd = None" "flock fs q \<noteq> Some ?fd" for q
  proof -
    show free: "fopen fs ?fd = None" using assms(1) by (metis domIff fs_wf_def less_irrefl)
    show "flock fs q \<noteq> Some ?fd" using assms(1) free unfolding fs_wf_def by (metis option.distinct(1))
  qed
  have h: "handles ?fs = (handles fs)(?fd \<mapsto> ?p)" by (simp add: handles_def fun_eq_iff)
  have "handles (fd_close ?fd ?fs) = handles fs" "flock (fd_close ?fd ?fs) = flock fs"
    using new by (simp_all add: handles_close handles_def fun_eq_iff)
  moreover from this have "fs_wf (fd_close ?fd ?fs)"
    using assms(1) by (auto simp: fs_wf_handles handles_close intro: less_SucI)
  ultimately have closed: "log_free (handles fs) (flock fs) (fd_close ?fd ?fs)" by (simp add: log_free_def)
  have "fs_wf (?fs\<lparr>flock := (flock fs)(?p \<mapsto> ?fd)\<rparr>)" if "flock fs ?p = None"
    using assms(1) new by (auto simp: fs_wf_def less_Suc_eq)
  then have opened: "flock fs ?p = None \<Longrightarrow> log_held (handles fs) (flock fs) \<lparr>lg_file = Some ?fd, lg_path = ?p\<rparr> (?fs\<lparr>flock := (flock fs)(?p \<mapsto> ?fd)\<rparr>)"
    using new by (auto simp: log_held_def handles_def fun_eq_iff ran_def)
  have same: "log_free (handles fs) (flock fs) fs" using assms(1) by (simp add: log_free_def)
  show ?thesis
    using assms(2) closed opened same
    by (auto simp: EventLog.Open_def Let_def split: option.splits if_splits)
qed

lemma Start_log:
  assumes "fs_wf (w_fs w)" "Start E L en cfg w = Some r"
  shows "case fst r of Inl e \<Rightarrow> log_free (handles (w_fs w)) (flock (w_fs w)) (w_fs (snd r))
    | Inr rt \<Rightarrow> log_held (handles (w_fs w)) (flock (w_fs w)) (rt_log rt) (w_fs (snd r)) \<and> framed (rt_log rt) UNIV rt"
proof -
  let ?c = "defaults (se_getenv E) cfg" and ?F = "handles (w_fs w)" and ?K = "flock (w_fs w)"
  let ?fs = "cleared ?c (w_fs w)"
  have t: "same_tables (w_fs w) ?fs" by (simp add: cleared_def remove_file_def same_tables_def)
  have start: "log_free ?F ?K (w_fs w)" using assms(1) by (simp add: log_free_def)
  have free: "log_free ?F ?K ?fs" by (rule log_free_tables [OF t start])
  have eq: "handles ?fs = ?F" "flock ?fs = ?K" "fs_wf ?fs" using free by (simp_all add: log_free_def)
  note opened = log_open [OF eq(3), unfolded eq(1,2)]
  have fail: "log_free ?F ?K fs \<Longrightarrow> log_free ?F ?K (w_fs (snd (fail_with E ?c e (w\<lparr>w_fs := fs\<rparr>))))" for fs e
    by (simp add: fail_with_def writeFail_def log_free_tables [OF same_tables_write])
  from assms(2) HOL.refl show ?thesis
  proof (cases rule: Start_cases)
    case (dir e)
    with start show ?thesis by simp
  next
    case (policy e)
    with fail [OF free, of e] show ?thesis by (simp add: fail_with_def)
  next
    case (log e fs)
    from fail [of fs e] opened [OF log(2)] log(3) show ?thesis by (simp add: fail_with_def)
  next
    case (begun g client pol fs l)
    have "framed l UNIV (new_runtime ?c pol g client l)" by (rule framed_new) (simp add: files_in_def)
    from log.lock_outcome [OF this _ begun(5) [symmetric], of ?F ?K] opened [OF begun(4)] show ?thesis
      by (cases "fst r") (auto simp: framed_outcome_def framed_def)
  qed
qed

section \<open>Properties\<close>


lemma world0_tables: "fs_wf (w_fs world0)"
  by (simp add: world0_def fs0_def fs_wf_def)




end
