(* ===== verification/Closing.thy ===== *)
theory Closing
  imports RemoteStart Descriptors
begin

text \<open>
  Closing a running agent. \<^verbatim>\<open>Runtime.Close\<close> takes its steps one after the other while handlers, the consumer of
  events and the programs in the kernel go on: the TCP listener is never stopped, and goroutines are not waited for.
\<close>

section \<open>Steps\<close>

datatype closing_phase = CloseDocker | CloseRedir | CloseDns | CloseFirewall | CloseLock | CloseLog | CloseFiles

definition close_order :: "closing_phase list" where
  "close_order = [CloseDocker, CloseRedir, CloseDns, CloseFirewall, CloseLock, CloseLog, CloseFiles]"

text \<open>One step, on the log (which the handlers share) and the world.\<close>

fun closing_step :: "('m, 'p, 'n, 'j) start_env \<Rightarrow> 'j Runtime \<Rightarrow> closing_phase \<Rightarrow> Logger \<times> ('m, 'p, 'n) world \<Rightarrow>
    Logger \<times> ('m, 'p, 'n) world" where
  "closing_step E rt CloseDocker (l, w) = (l, fst (close_docker E rt w))"
| "closing_step E rt CloseRedir (l, w) = (l, fst (close_redir E rt w))"
| "closing_step E rt CloseDns (l, w) = (l, fst (close_dns rt w))"
| "closing_step E rt CloseFirewall (l, w) = (l, w\<lparr>w_fw := DetachFirewall (w_fw w)\<rparr>)"
| "closing_step E rt CloseLock (l, w) = (l, case rt_lock rt of None \<Rightarrow> w | Some k \<Rightarrow> w\<lparr>w_fs := SudoLockdown.Disable k (w_fs w)\<rparr>)"
| "closing_step E rt CloseLog (l, w) =
     (case EventLog.Close (se_log_close E) l (w_fs w) of (l', fs, err) \<Rightarrow> (l', w\<lparr>w_fs := fs\<rparr>))"
| "closing_step E rt CloseFiles (l, w) = (l, w\<lparr>w_fs := remove_file (cf_StatusFile (rt_cfg rt)) (remove_file (cf_PidFile (rt_cfg rt))
     (remove_file (cf_ReadyFile (rt_cfg rt)) (w_fs w)))\<rparr>)"

lemma rt_Close_steps: "fst (rt_Close E rt w) = snd (fold (closing_step E rt) close_order (rt_log rt, w))"
  by (simp add: rt_Close_eq close_order_def close_rest_def Let_def split_def split: option.split)

record ('m, 'p, 'n, 'q) closing =
  cz_run :: "('m, 'p, 'n, 'q) running"
  cz_log :: Logger
  cz_todo :: "closing_phase list"

abbreviation cz_world :: "('m, 'p, 'n, 'q) closing \<Rightarrow> ('m, 'p, 'n) world" where
  "cz_world c \<equiv> ru_world (cz_run c)"

abbreviation with_world :: "('m, 'p, 'n) world \<Rightarrow> ('m, 'p, 'n, 'q) closing \<Rightarrow> ('m, 'p, 'n, 'q) closing" where
  "with_world w c \<equiv> c\<lparr>cz_run := (cz_run c)\<lparr>ru_world := w\<rparr>\<rparr>"

inductive shutdown_step :: "('m, 'p, 'q) surroundings \<Rightarrow> ('m, 'p, 'n, 'j) start_env \<Rightarrow> 'j Runtime \<Rightarrow>
    ('m, 'p, 'n, 'q) closing \<Rightarrow> ('m, 'p, 'n, 'q) closing \<Rightarrow> bool"
  for S :: "('m, 'p, 'q) surroundings" and E :: "('m, 'p, 'n, 'j) start_env" and rt :: "'j Runtime" where
  close: "cz_todo c = t # ts \<Longrightarrow> closing_step E rt t (cz_log c, cz_world c) = (l, w) \<Longrightarrow>
    shutdown_step S E rt c (with_world w c\<lparr>cz_log := l, cz_todo := ts\<rparr>)"
| serve: "serve_step (S\<lparr>su_log := cz_log c\<rparr>) (cz_run c) r \<Longrightarrow> shutdown_step S E rt c (c\<lparr>cz_run := r\<rparr>)"
| consume: "fs = fst (WriteEvent (su_marshal S) out ev (cz_log c) (w_fs (cz_world c))) \<Longrightarrow>
    shutdown_step S E rt c (with_world ((cz_world c)\<lparr>w_fs := fs\<rparr>) c)"

inductive shutdown_run :: "('m, 'p, 'q) surroundings \<Rightarrow> ('m, 'p, 'n, 'j) start_env \<Rightarrow> 'j Runtime \<Rightarrow>
    ('m, 'p, 'n, 'q) running \<Rightarrow> ('m, 'p, 'n, 'q) closing \<Rightarrow> bool"
  for S :: "('m, 'p, 'q) surroundings" and E :: "('m, 'p, 'n, 'j) start_env" and rt :: "'j Runtime"
    and s :: "('m, 'p, 'n, 'q) running" where
  begun: "shutdown_run S E rt s \<lparr>cz_run = s, cz_log = rt_log rt, cz_todo = close_order\<rparr>"
| step: "shutdown_run S E rt s c \<Longrightarrow> shutdown_step S E rt c c' \<Longrightarrow> shutdown_run S E rt s c'"

text \<open>Steps taken without interference.\<close>

lemma close_prefix:
  "shutdown_run S E rt s c \<Longrightarrow> cz_todo c = ts @ us \<Longrightarrow>
   \<exists>c'. shutdown_run S E rt s c' \<and> cz_todo c' = us \<and> ru_received (cz_run c') = ru_received (cz_run c) \<and> (cz_log c', cz_world c') = fold (closing_step E rt) ts (cz_log c, cz_world c)"
proof (induction ts arbitrary: c)
  case (Cons t ts)
  obtain l w where st: "closing_step E rt t (cz_log c, cz_world c) = (l, w)" by (metis surj_pair)
  let ?c = "with_world w c\<lparr>cz_log := l, cz_todo := ts @ us\<rparr>"
  have "shutdown_run S E rt s ?c"
    using Cons.prems by (intro shutdown_run.step [OF Cons.prems(1)] shutdown_step.close [OF _ st]) simp
  from Cons.IH [OF this] st show ?case by simp
qed auto

section \<open>What a step keeps\<close>

lemma serve_fw:
  assumes "serve_step S s s'" "fw_inv (w_fw (ru_world s))"
  shows "fw_inv (w_fw (ru_world s')) \<and> loaded (w_fw (ru_world s')) = loaded (w_fw (ru_world s))"
  using assms(1)
proof cases
  case (effect before q e es after f fs)
  from effect_fw [OF effect(3) assms(2)] show ?thesis by (simp add: effect(1))
qed (use assms(2) in \<open>simp_all add: fw_inv_objs\<close>)

text \<open>Serving changes files only through the log.\<close>

lemma serve_files:
  assumes "serve_step S s s'"
  shows "w_fs (ru_world s') = w_fs (ru_world s)
    \<or> (\<exists>out ev. w_fs (ru_world s') = fst (WriteEvent (su_marshal S) out ev (su_log S) (w_fs (ru_world s))))"
  using assms
proof cases
  case (effect before q e es after f fs)
  from effect(3) show ?thesis by (cases e) (auto simp: effect(1) split: bind_splits)
qed simp_all

lemma Close_nil: "EventLog.Close cerr l fs = (l', fs', e) \<Longrightarrow> lg_file l' = None"
  by (cases "lg_file l") (auto simp: EventLog.Close_def)

lemma closed_log_write: "lg_file l = None \<Longrightarrow> fst (WriteEvent marshal out ev l fs) = fs"
  by (simp add: WriteEvent_def split: sum.split)

lemma held_log_write:
  "log_held F K l fs \<Longrightarrow> q \<noteq> lg_path l \<Longrightarrow> fdata (fst (WriteEvent marshal out ev l fs)) q = fdata fs q"
proof -
  assume h: "log_held F K l fs" and q: "q \<noteq> lg_path l"
  from h obtain fd where "lg_file l = Some fd" "handles fs fd = Some (lg_path l)" by (auto simp: log_held_def)
  with q show ?thesis by (auto simp: WriteEvent_def fd_write_def handles_Some split: sum.split option.split)
qed

section \<open>The invariant of a shutdown\<close>

definition lock_files :: "'j Runtime \<Rightarrow> string set" where
  "lock_files rt = (case rt_lock rt of None \<Rightarrow> {} | Some k \<Rightarrow> {fst (paths k), snd (paths k)})"

definition run_files :: "'j Runtime \<Rightarrow> string set" where
  "run_files rt = {cf_ReadyFile (rt_cfg rt), cf_PidFile (rt_cfg rt), cf_StatusFile (rt_cfg rt)}"

definition log_state :: "(nat \<rightharpoonup> string) \<Rightarrow> (string \<rightharpoonup> nat) \<Rightarrow> 'j Runtime \<Rightarrow> bool \<Rightarrow> Logger \<Rightarrow> osfs \<Rightarrow> bool" where
  "log_state F K rt closed l fs \<longleftrightarrow>
     (if closed then lg_file l = None \<and> log_free F K fs else l = rt_log rt \<and> log_held F K (rt_log rt) fs)"

definition gone :: "string set \<Rightarrow> osfs \<Rightarrow> bool" where
  "gone W fs \<longleftrightarrow> (\<forall>p \<in> W. fdata fs p = None)"

definition shut_inv :: "(nat \<rightharpoonup> string) \<Rightarrow> (string \<rightharpoonup> nat) \<Rightarrow> 'j Runtime \<Rightarrow> ('m, 'p, 'n, 'q) closing \<Rightarrow> bool" where
  "shut_inv F K rt c \<longleftrightarrow> suffix (cz_todo c) close_order
     \<and> fw_inv (w_fw (cz_world c)) \<and> (loaded (w_fw (cz_world c)) \<longrightarrow> CloseFirewall \<in> set (cz_todo c))
     \<and> log_state F K rt (CloseLog \<notin> set (cz_todo c)) (cz_log c) (w_fs (cz_world c))
     \<and> (CloseLock \<in> set (cz_todo c) \<or> gone (lock_files rt) (w_fs (cz_world c)))
     \<and> (CloseFiles \<in> set (cz_todo c) \<or> gone (run_files rt) (w_fs (cz_world c)))"

lemma todo_cases:
  assumes "suffix (t # ts) close_order"
  shows "(t, ts) \<in> {(CloseDocker, [CloseRedir, CloseDns, CloseFirewall, CloseLock, CloseLog, CloseFiles]),
    (CloseRedir, [CloseDns, CloseFirewall, CloseLock, CloseLog, CloseFiles]), (CloseDns, [CloseFirewall, CloseLock, CloseLog, CloseFiles]),
    (CloseFirewall, [CloseLock, CloseLog, CloseFiles]), (CloseLock, [CloseLog, CloseFiles]), (CloseLog, [CloseFiles]), (CloseFiles, [])}"
  using assms unfolding suffix_def close_order_def by (auto simp: Cons_eq_append_conv)

lemma todo_log_files: "suffix ts close_order \<Longrightarrow> CloseFiles \<notin> set ts \<Longrightarrow> CloseLog \<notin> set ts"
  unfolding suffix_def close_order_def by (auto simp: Cons_eq_append_conv)

lemma gone_remove: "gone W fs \<Longrightarrow> gone W (remove_file p fs)" "gone (insert p W) (remove_file p fs) = gone W (remove_file p fs)"
  by (auto simp: gone_def)

lemma gone_files:
  "gone (run_files rt) (remove_file (cf_StatusFile (rt_cfg rt)) (remove_file (cf_PidFile (rt_cfg rt)) (remove_file (cf_ReadyFile (rt_cfg rt)) fs)))"
  by (auto simp: gone_def run_files_def)

lemma detached: "fw_inv f \<Longrightarrow> fw_inv (DetachFirewall f) \<and> \<not> loaded (DetachFirewall f)"
  using detach_idle [of f] idle_inv by (auto simp: fw_idle_def)

lemma log_state_tables: "same_tables fs fs' \<Longrightarrow> log_state F K rt b l fs \<Longrightarrow> log_state F K rt b l fs'"
  by (auto simp: log_state_def dest: log_held_tables log_free_tables split: if_splits)

text \<open>A write of the log, by a handler or the consumer.\<close>

lemma shut_log:
  assumes "shut_inv F K rt c" "lg_path (rt_log rt) \<notin> lock_files rt"
    and "fs = fst (WriteEvent marshal out ev (cz_log c) (w_fs (cz_world c)))"
  shows "log_state F K rt (CloseLog \<notin> set (cz_todo c)) (cz_log c) fs
     \<and> (CloseLock \<in> set (cz_todo c) \<or> gone (lock_files rt) fs) \<and> (CloseFiles \<in> set (cz_todo c) \<or> gone (run_files rt) fs)"
proof (cases "CloseLog \<in> set (cz_todo c)")
  case False
  with assms(1) have "fs = w_fs (cz_world c)"
    by (simp add: assms(3) shut_inv_def log_state_def closed_log_write)
  with assms(1) show ?thesis by (simp add: shut_inv_def)
next
  case True
  with assms(1) have held: "cz_log c = rt_log rt" "log_held F K (rt_log rt) (w_fs (cz_world c))"
    and files: "CloseFiles \<in> set (cz_todo c)"
    using todo_log_files [of "cz_todo c"] by (auto simp: shut_inv_def log_state_def)
  have "fdata fs q = fdata (w_fs (cz_world c)) q" if "q \<in> lock_files rt" for q
    using that assms(2) unfolding assms(3) held(1) by (intro held_log_write [OF held(2)]) auto
  then have "gone (lock_files rt) fs = gone (lock_files rt) (w_fs (cz_world c))" by (simp add: gone_def)
  with assms(1) files log_held_tables [OF same_tables_log held(2)] show ?thesis
    by (simp add: shut_inv_def log_state_def True assms(3) held(1))
qed

lemma shut_serve:
  assumes "shut_inv F K rt c" "lg_path (rt_log rt) \<notin> lock_files rt" "serve_step (S\<lparr>su_log := cz_log c\<rparr>) (cz_run c) r"
  shows "shut_inv F K rt (c\<lparr>cz_run := r\<rparr>)"
proof -
  have fw: "fw_inv (w_fw (ru_world r)) \<and> loaded (w_fw (ru_world r)) = loaded (w_fw (cz_world c))"
    using serve_fw [OF assms(3)] assms(1) by (simp add: shut_inv_def)
  from serve_files [OF assms(3)] have "log_state F K rt (CloseLog \<notin> set (cz_todo c)) (cz_log c) (w_fs (ru_world r))
     \<and> (CloseLock \<in> set (cz_todo c) \<or> gone (lock_files rt) (w_fs (ru_world r)))
     \<and> (CloseFiles \<in> set (cz_todo c) \<or> gone (run_files rt) (w_fs (ru_world r)))"
  proof
    assume "w_fs (ru_world r) = w_fs (cz_world c)"
    with assms(1) show ?thesis by (simp add: shut_inv_def)
  next
    assume "\<exists>out ev. w_fs (ru_world r) = fst (WriteEvent (su_marshal (S\<lparr>su_log := cz_log c\<rparr>)) out ev (su_log (S\<lparr>su_log := cz_log c\<rparr>))
        (w_fs (cz_world c)))"
    then obtain out ev where "w_fs (ru_world r) = fst (WriteEvent (su_marshal S) out ev (cz_log c) (w_fs (cz_world c)))" by auto
    from shut_log [OF assms(1,2) this] show ?thesis .
  qed
  with fw assms(1) show ?thesis by (simp add: shut_inv_def)
qed

lemma shut_close:
  assumes "shut_inv F K rt c" "framed (rt_log rt) UNIV rt" "cz_todo c = t # ts"
    and "closing_step E rt t (cz_log c, cz_world c) = (l, w)"
  shows "shut_inv F K rt (with_world w c\<lparr>cz_log := l, cz_todo := ts\<rparr>)"
proof -
  have suf: "suffix (t # ts) close_order" and inv: "fw_inv (w_fw (cz_world c))" using assms(1,3) by (simp_all add: shut_inv_def)
  have ts: "suffix ts close_order" using suf by (rule suffix_ConsD)
  note old = assms(1) [unfolded shut_inv_def assms(3)]
  from todo_cases [OF suf] consider
    (docker) "t = CloseDocker" "ts = [CloseRedir, CloseDns, CloseFirewall, CloseLock, CloseLog, CloseFiles]"
    | (net) "t = CloseRedir \<or> t = CloseDns" "set [CloseFirewall, CloseLock, CloseLog, CloseFiles] \<subseteq> set ts"
    | (fw) "t = CloseFirewall" "ts = [CloseLock, CloseLog, CloseFiles]"
    | (lock) "t = CloseLock" "ts = [CloseLog, CloseFiles]" | (log) "t = CloseLog" "ts = [CloseFiles]" | (files) "t = CloseFiles" "ts = []"
    by auto
  then show ?thesis
  proof cases
    case docker
    have "log_held F K (rt_log rt) (w_fs (cz_world c))" using old docker by (simp add: log_state_def)
    note log.close_docker_keeps [OF assms(2) this, of E]
    with docker old assms(4) ts show ?thesis by (auto simp: shut_inv_def log_state_def close_parts)
  next
    case net
    with assms(4) have "w_fw w = w_fw (cz_world c)" "w_fs w = w_fs (cz_world c)" "l = cz_log c"
      by (auto simp: close_parts log.close_others)
    with net old ts show ?thesis by (auto simp: shut_inv_def)
  next
    case fw
    with assms(4) old ts detached [OF inv] show ?thesis by (auto simp: shut_inv_def)
  next
    case lock
    let ?w = "case rt_lock rt of None \<Rightarrow> cz_world c | Some k \<Rightarrow> (cz_world c)\<lparr>w_fs := SudoLockdown.Disable k (w_fs (cz_world c))\<rparr>"
    have w: "w = ?w" "l = cz_log c" using assms(4) lock(1) by simp_all
    have "same_tables (w_fs (cz_world c)) (w_fs ?w)"
      by (auto simp: SudoLockdown.Disable_def same_tables_def remove_file_def split: option.split)
    moreover have "gone (lock_files rt) (w_fs ?w)"
      by (auto simp: gone_def lock_files_def SudoLockdown.Disable_def split: option.split)
    ultimately show ?thesis using lock old ts log_state_tables [of "w_fs (cz_world c)" "w_fs w"] w
      by (auto simp: shut_inv_def split: option.splits)
  next
    case log
    obtain l' fs' e where cl: "EventLog.Close (se_log_close E) (cz_log c) (w_fs (cz_world c)) = (l', fs', e)" by (metis prod_cases3)
    have held: "cz_log c = rt_log rt" "log_held F K (rt_log rt) (w_fs (cz_world c))" using old log by (auto simp: log_state_def)
    have "log_free F K fs'" using log_close [OF held(2)] cl held(1) by simp
    moreover have "lg_file l' = None" using cl by (rule Close_nil)
    moreover have "gone (lock_files rt) fs'" using old log log_close_fdata [OF cl] by (simp add: gone_def)
    moreover have "l = l'" "w = (cz_world c)\<lparr>w_fs := fs'\<rparr>" using assms(4) log(1) cl by simp_all
    ultimately show ?thesis using old log ts by (simp add: shut_inv_def log_state_def)
  next
    case files
    with assms(4) have w: "l = cz_log c" "w = (cz_world c)\<lparr>w_fs := remove_file (cf_StatusFile (rt_cfg rt)) (remove_file (cf_PidFile (rt_cfg rt))
     (remove_file (cf_ReadyFile (rt_cfg rt)) (w_fs (cz_world c))))\<rparr>" by simp_all
    have "same_tables (w_fs (cz_world c)) (w_fs w)" by (simp add: w(2) same_tables_def remove_file_def)
    with files old ts w(1) log_state_tables [of "w_fs (cz_world c)" "w_fs w"] gone_files [of rt "w_fs (cz_world c)"]
    show ?thesis by (auto simp: shut_inv_def w(2) intro!: gone_remove)
  qed
qed

lemma shut_run:
  assumes "shutdown_run S E rt s c" "fw_inv (w_fw (ru_world s))" "log_held F K (rt_log rt) (w_fs (ru_world s))"
    and "framed (rt_log rt) UNIV rt" "lg_path (rt_log rt) \<notin> lock_files rt"
  shows "shut_inv F K rt c"
  using assms(1)
proof induction
  case begun
  with assms(2,3) show ?case by (simp add: shut_inv_def log_state_def close_order_def)
next
  case (step c c')
  from step.hyps(2) show ?case
  proof cases
    case (close t ts l w)
    with shut_close [OF step.IH assms(4)] show ?thesis by simp
  next
    case (serve r)
    with shut_serve [OF step.IH assms(5)] show ?thesis by simp
  next
    case (consume fs out ev)
    from shut_log [OF step.IH assms(5) consume(2)] step.IH show ?thesis by (simp add: consume(1) shut_inv_def)
  qed
qed

lemma framed_any: "framed (rt_log rt) UNIV rt"
  by (cases "rt_dockerDNS rt"; cases "rt_lock rt") (simp_all add: framed_def files_in_def)

section \<open>Properties\<close>



text \<open>A query arrives while an agent with its filter attached is being closed.\<close>

definition fs_logging :: osfs where
  "fs_logging = fs0\<lparr>fopen := [3 \<mapsto> (''l'', 0)], flock := [''l'' \<mapsto> 3], nextfd := 4\<rparr>"

lemma fs_logging_held: "log_held Map.empty Map.empty (rt_log runtime0) fs_logging"
proof -
  have h: "handles fs_logging = [3 \<mapsto> ''l'']" by (simp add: handles_def fs_logging_def fun_eq_iff)
  have "fs_wf fs_logging" by (simp add: fs_wf_def fs_logging_def fs0_def)
  then show ?thesis unfolding log_held_def h by (simp add: runtime0_def fs_logging_def)
qed


end
