(* ===== verification/UpstreamRoute.thy ===== *)
theory UpstreamRoute
  imports StartLive
begin

text \<open>
  Where the queries of the proxy itself go. The rules of \<^verbatim>\<open>internal/dnsredir/redirect.go\<close> redirect every query to port 53
  outside the loopback network, and the proxy of \<^verbatim>\<open>internal/dns/proxy.go\<close> sends its own queries to such an address:
  the start (\<^verbatim>\<open>internal/agent/runtime.go\<close>), the NAT table and the handler are put together here.
\<close>

section \<open>The NAT table applied to a query\<close>

text \<open>A dotted IPv4 address, and the network the rules leave alone.\<close>

definition dotted :: "string \<Rightarrow> bool" where
  "dotted ip \<longleftrightarrow> ip \<noteq> [] \<and> set ip \<subseteq> set ''0123456789.''"

definition loopback :: "string \<Rightarrow> bool" where
  "loopback ip = prefix ''127.'' ip"

text \<open>A failing \<^verbatim>\<open>Enable\<close> does not say it is installed.\<close>

lemma Enable_failed:
  assumes "pickIptables LookPath = Inr b" "Enable LookPath run r s = (r', s', Some e)" "\<not> installed r"
  shows "\<not> installed r'"
proof -
  have n: "\<not> installed (prepared b r)" using assms(3) by (simp add: prepared_def)
  have "add_rules run q rules t = (q', t', Some x) \<Longrightarrow> \<not> installed q \<Longrightarrow> \<not> installed q'" for q rules t q' t' x
    by (induction rules arbitrary: t) (auto simp: Remove_def split: prod.splits option.splits if_splits)
  with n assms(2) show ?thesis
    by (auto simp: Enable_prepared [OF assms(1)] simp del: add_rules.simps split: prod.splits option.splits)
qed

text \<open>
  What is relied on of the NAT table beyond keeping the rules: a query to port 53 of an IPv4 address outside the loopback
  network goes where the first rule for its protocol says, and without such a rule every query goes to its address.
\<close>

locale dns_route = nat_table run chain
  for run :: "'s command" and chain :: "'s \<Rightarrow> (string \<times> string) list" +
  fixes route :: "'s \<Rightarrow> string \<Rightarrow> string \<Rightarrow> string"
  assumes matched: "dotted ip \<Longrightarrow> \<not> loopback ip \<Longrightarrow> find (\<lambda>rl. fst rl = proto) (chain s) = Some rl \<Longrightarrow>
      route s proto (ip @ '':53'') = snd rl"
    and unmatched: "find (\<lambda>rl. fst rl = proto) (chain s) = None \<Longrightarrow> route s proto addr = addr"
begin

text \<open>On a table without DNS rules, an \<^verbatim>\<open>Enable\<close> that succeeds captures the queries to such addresses, one that fails none.\<close>

lemma Enable_routes:
  assumes "chain s = []" "\<And>b. pickIptables LookPath = Inr b \<Longrightarrow> b \<noteq> [] \<and> b \<noteq> ''conntrack''"
    and "Enable LookPath run r s = (r', s', err)" "\<not> installed r" "dotted ip" "\<not> loopback ip"
  shows "route s' ''udp'' (ip @ '':53'') = (if installed r' then dest_of (prepared [] r) else ip @ '':53'')"
proof (cases "pickIptables LookPath")
  case (Inl e)
  with assms(3,4) have "\<not> installed r'" "s' = s" by (auto simp: Enable_def Let_def split: if_splits)
  with assms(1) show ?thesis by (simp add: unmatched)
next
  case (Inr b)
  from assms(2) [OF this] have b: "b \<noteq> []" "b \<noteq> ''conntrack''" by simp_all
  have d: "dest_of (prepared b r) = dest_of (prepared [] r)" "dest_of ((prepared b r)\<lparr>installed := True\<rparr>) = dest_of (prepared [] r)"
    by (simp_all add: dest_of_def prepared_def)
  note ch = Enable_chain [OF Inr b assms(3)]
  show ?thesis
  proof (cases err)
    case None
    with ch(1) assms(1) have "installed r'" "chain s' = [(''udp'', dest_of (prepared [] r)), (''tcp'', dest_of (prepared [] r))]"
      by (simp_all add: d)
    with matched [OF assms(5,6), of "''udp''" s' "(''udp'', dest_of (prepared [] r))"] show ?thesis by simp
  next
    case (Some e)
    with ch(2) assms(1) have "chain s' = []" by simp
    moreover have "\<not> installed r'" using Enable_failed [OF Inr] assms(3,4) Some by simp
    ultimately show ?thesis by (simp add: unmatched)
  qed
qed

end

text \<open>The table that is only its rules.\<close>

definition ref_route :: "(string \<times> string) list \<Rightarrow> string \<Rightarrow> string \<Rightarrow> string" where
  "ref_route s proto addr =
     (let ip = take (length addr - 3) addr in
      if dotted ip \<and> \<not> loopback ip \<and> addr = ip @ '':53''
      then (case find (\<lambda>rl. fst rl = proto) s of Some rl \<Rightarrow> snd rl | None \<Rightarrow> addr) else addr)"

interpretation refroute: dns_route ref_run "\<lambda>s. s" ref_route
  by unfold_locales (auto simp: ref_route_def Let_def)

lemma ref_dns_route: "dns_route ref_run (\<lambda>s. s) ref_route"
  by (rule refroute.dns_route_axioms)

section \<open>What a start leaves of the redirect\<close>

definition redirected :: "('m, 'p, 'n, 'j) start_env \<Rightarrow> Config \<Rightarrow> 'n \<Rightarrow> Redirect option \<times> 'n" where
  "redirected E c s =
     (if cf_GitHubActions c \<or> cf_DNSRedirect c then
        (case splitHostPort (cf_DNSListen c) of (host, port) \<Rightarrow>
         case Enable (se_LookPath E) (se_command E) \<lparr>ListenHost = host, ListenPort = port, backend = [], installed = False\<rparr> s of
           (r, s', err) \<Rightarrow> (Some r, s'))
      else (None, s))"

lemma note_event_nat [simp]: "w_nat (note_event E ty rule l w) = w_nat w"
  by (simp add: note_event_def)

lemma start_ready_nat:
  "start_ready E b rt w = (Inr rt', w') \<Longrightarrow> rt' = rt \<and> w_nat w' = w_nat w"
  by (auto simp: start_ready_def fail_close_def fail_with_def split: prod.splits option.splits)

lemma seeds_nat [simp]:
  "seed_cidrs E L en rt w = Some w' \<Longrightarrow> w_nat w' = w_nat w"
  "seed_hosts E L en allowed rt w = Some w' \<Longrightarrow> w_nat w' = w_nat w"
  by (auto simp: seed_cidrs_def seed_hosts_def Let_def split: bind_splits if_splits)

text \<open>From the redirect on, a started runtime keeps it, and the proxy.\<close>

lemma bpf_nat:
  assumes "start_bpf E L en allowed rt w = Some (Inr rt', w')"
  shows "rt_dnsRedir rt' = rt_dnsRedir rt \<and> rt_dns rt' = rt_dns rt \<and> w_nat w' = w_nat w"
proof -
  obtain f err where a: "AttachFirewall (se_attach E) (pl_Mode (rt_policy rt) = MODE_MONITOR) (pl_WatchSudo (rt_policy rt)) (w_fw w) = (f, err)"
    by (metis surj_pair)
  have "fail_close E rt e w1 \<noteq> (Inr rt', w')" for e w1 by (metis Inl_Inr_False fail_close_err fst_conv)
  with assms show ?thesis
    by (cases err) (auto simp: start_bpf_def a Let_def split: if_splits bind_splits dest!: start_ready_nat)
qed

lemma docker_nat:
  assumes "start_docker E L en allowed host rt w = Some (Inr rt', w')"
  shows "rt_dnsRedir rt' = rt_dnsRedir rt \<and> rt_dns rt' = rt_dns rt \<and> w_nat w' = w_nat w"
  using assms
  by (auto simp: start_docker_def Let_def split: if_splits bind_splits option.splits dest!: bpf_nat)

lemma redirect_nat:
  assumes "start_redirect E L en allowed rt w = Some (Inr rt', w')" "rt_dnsRedir rt = None"
  shows "(rt_dnsRedir rt', w_nat w') = redirected E (rt_cfg rt) (w_nat w) \<and> rt_dns rt' = rt_dns rt"
  using assms
  by (auto simp: start_redirect_def redirected_def Let_def split: if_splits prod.splits option.splits dest!: docker_nat bpf_nat)

lemma dns_nat:
  assumes "start_dns E L en rt w = Some (Inr rt', w')" "rt_dnsRedir rt = None"
  shows "(rt_dnsRedir rt', w_nat w') = redirected E (rt_cfg rt) (w_nat w) \<and> rt_dns rt' = Some (proxy_for (rt_cfg rt) (rt_policy rt))"
  using assms
  by (auto simp: start_dns_def DnsProxy.Start_def Let_def proxy_for_def merged_hosts_def dest!: redirect_nat)

lemma lock_nat:
  assumes "start_lock E L en rt w = Some (Inr rt', w')" "rt_dnsRedir rt = None"
  shows "(rt_dnsRedir rt', w_nat w') = redirected E (rt_cfg rt) (w_nat w) \<and> rt_dns rt' = Some (proxy_for (rt_cfg rt) (rt_policy rt))"
  using assms
  by (auto simp: start_lock_def Let_def fail_with_def split: if_splits prod.splits option.splits dest!: dns_nat)

lemma Start_nat:
  assumes "Start E L en cfg w = Some (Inr rt, w')" "c = defaults (se_getenv E) cfg"
  obtains pol where "(rt_dnsRedir rt, w_nat w') = redirected E c (w_nat w)" "rt_dns rt = Some (proxy_for c pol)"
  using assms(1,2)
proof (cases rule: Start_cases)
  case (begun g client pol fs l)
  from lock_nat [OF begun(5) [symmetric]] show ?thesis by (intro that [of pol]) simp_all
qed (auto simp: fail_with_def)

section \<open>The way of a query\<close>

text \<open>A query is at the proxy, has reached a resolver elsewhere, or was answered without one.\<close>

datatype 'q place = AtProxy 'q | AtResolver 'q string | Refused

definition upstreams :: "'q effect list \<Rightarrow> ('q \<times> string) list" where
  "upstreams es = concat (map (\<lambda>e. case e of Exchange q a \<Rightarrow> [(q, a)] | _ \<Rightarrow> []) es)"

text \<open>One hop: the handler runs, and what it sends upstream is delivered by the NAT table, to the proxy's own
  address back to the proxy.\<close>

fun hop :: "(string \<Rightarrow> string) \<Rightarrow> 'q dns_lib \<Rightarrow> ('q \<Rightarrow> string \<Rightarrow> string + 'q) \<Rightarrow> (string \<Rightarrow> string \<Rightarrow> string) \<Rightarrow> string \<Rightarrow> Proxy \<Rightarrow>
    'q place \<Rightarrow> 'q place" where
  "hop uni D exchange deliver listen p (AtProxy r) =
     (case upstreams (ServeDNS uni D exchange p r) of
        [] \<Rightarrow> Refused
      | (q, a) # _ \<Rightarrow> if deliver ''udp'' a = listen then AtProxy q else AtResolver q (deliver ''udp'' a))"
| "hop uni D exchange deliver listen p (AtResolver r a) = AtResolver r a"
| "hop uni D exchange deliver listen p Refused = Refused"

definition forwarded :: "(string \<Rightarrow> string) \<Rightarrow> 'q dns_lib \<Rightarrow> Proxy \<Rightarrow> 'q \<Rightarrow> bool" where
  "forwarded uni D p r \<longleftrightarrow> dl_Question D r \<noteq> [] \<and> (query_allowed uni D p r \<or> px_Mode p = MODE_MONITOR)"

lemma upstreams_simps [simp]:
  "upstreams [] = []" "upstreams (Exchange q a # es) = (q, a) # upstreams es" "upstreams (WriteMsg m # es) = upstreams es"
  "upstreams (OnEvent h ac rl # es) = upstreams es" "upstreams (OnAllow ip # es) = upstreams es"
  "upstreams (es @ fs) = upstreams es @ upstreams fs"
  by (simp_all add: upstreams_def)

lemma upstreams_on [simp]: "upstreams (on_event p h a rl) = []" "upstreams (on_answer p rrs) = []"
proof -
  show "upstreams (on_event p h a rl) = []" by (simp add: on_event_def)
  show "upstreams (on_answer p rrs) = []" by (induction p rrs rule: on_answer.induct) (auto split: RR.split)
qed

lemma upstreams_forward: "upstreams (forward D exchange p dec r) = [(r, px_Upstream p)]"
  by (simp add: forward_def split: sum.split)

text \<open>The handler asks its upstream once, for the query as it came, or not at all.\<close>

lemma upstreams_handler:
  "upstreams (ServeDNS uni D exchange p r) = (if forwarded uni D p r then [(r, px_Upstream p)] else [])"
  by (cases "dl_Question D r")
    (auto simp: ServeDNS_def handle_def Let_def forwarded_def query_allowed_def upstreams_forward)

lemma hop_forwarded:
  "forwarded uni D p r \<Longrightarrow> hop uni D exchange deliver listen p (AtProxy r)
     = (if deliver ''udp'' (px_Upstream p) = listen then AtProxy r else AtResolver r (deliver ''udp'' (px_Upstream p)))"
  by (simp add: upstreams_handler)

lemma hops:
  "forwarded uni D p r \<Longrightarrow> (hop uni D exchange deliver listen p ^^ Suc n) (AtProxy r)
     = (if deliver ''udp'' (px_Upstream p) = listen then AtProxy r else AtResolver r (deliver ''udp'' (px_Upstream p)))"
  by (induction n) (simp_all add: hop_forwarded del: hop.simps(1))

section \<open>Property\<close>


text \<open>A runner on GitHub, with the default addresses: a query for an allowed host is still at the proxy after a thousand hops.\<close>

definition redirecting0 :: Config where
  "redirecting0 = config0\<lparr>cf_DNSListen := ''127.0.0.1:53'', cf_DNSUpstream := ''8.8.8.8:53'', cf_GitHubActions := True\<rparr>"

definition policy2 :: AgentPolicy where
  "policy2 = policy0\<lparr>pl_AllowedHosts := [''github.com'']\<rparr>"

lemma redirecting0_defaults: "defaults (se_getenv (runner0 pol out)) redirecting0 = redirecting0"
  by (simp add: runner0_def defaults_def or_default_def redirecting0_def config0_def)

lemma redirecting0_redirects:
  "redirected (runner0 pol out) redirecting0 [] = (Some \<lparr>ListenHost = ''127.0.0.1'', ListenPort = ''53'', backend = ''iptables-nft'',
     installed = True\<rparr>, [(''udp'', ''127.0.0.1:53''), (''tcp'', ''127.0.0.1:53'')])"
proof -
  have "splitHostPort ''127.0.0.1:53'' = (''127.0.0.1'', ''53'')" by code_simp
  moreover have "pickIptables Some = Inr ''iptables-nft''" by (simp add: pickIptables_def)
  ultimately show ?thesis
    by (simp add: redirected_def redirecting0_def runner0_def config0_def Enable_def ref_run_def rule_args_def Let_def dest_of_def)
qed

lemma redirecting0_starts:
  "\<exists>rt w'. Start (runner0 policy2 outcomes_ok) L en redirecting0 world0 = Some (Inr rt, w')
     \<and> rt_dns rt = Some (proxy_for redirecting0 policy2)"
proof -
  let ?E = "runner0 policy2 outcomes_ok"
  obtain client fs l where i: "load_policy ?E redirecting0 gha0 (cleared redirecting0 (w_fs world0)) = Inr (client, policy2)"
      "EventLog.Open (se_open ?E) (cf_LogPath redirecting0) (cleared redirecting0 (w_fs world0)) = (fs, Inr l)"
    by (simp add: runner0_def load_policy_def redirecting0_def config0_def cleared_def world0_def read_file_def remove_file_def
        EventLog.Open_def ok_open_def fs0_def Let_def)
  have p: "\<not> docker_panics ?E redirecting0" "\<not> pl_DisableSudo policy2"
    by (simp_all add: docker_panics_def runner0_def codec0_def policy2_def policy0_def)
  from Start_reaches [OF redirecting0_defaults [symmetric] runner0_inputs(1,2) [OF HOL.refl] i, of L en] p obtain rt1 w1 where
    r: "Start ?E L en redirecting0 world0 = start_bpf ?E L en (merged_hosts redirecting0 policy2) rt1 w1"
      "w_fw w1 = w_fw world0" "rt_dns rt1 = Some (proxy_for redirecting0 policy2)"
    by (auto simp: to_bpf_def)
  have "fw_idle (w_fw w1)" "all_up (se_attach ?E)" "se_pid_out ?E = FOk" "se_ready_out ?E = FOk"
    using world0_idle outcomes_ok_up by (simp_all add: r(2) runner0_def)
  from start_bpf_live [OF this, of L en "merged_hosts redirecting0 policy2" rt1] r show ?thesis by auto
qed


end
