(* ===== verification/EgressHook.thy ===== *)
theory EgressHook
  imports FirewallProps
begin

text \<open>
  Where the filter is hooked in: the choice of the interface (\<^verbatim>\<open>attach_linux.go\<close>), the classic clsact filter and the
  cgroup hooks (\<^verbatim>\<open>attach_cgroup_linux.go\<close>), and the no-op firewall of other systems (\<^verbatim>\<open>attach_stub.go\<close>,
  \<^verbatim>\<open>cidr_stub.go\<close>, \<^verbatim>\<open>events_stub.go\<close>). The interfaces, their addresses and the netlink calls come from outside.
\<close>

section \<open>Interface\<close>

record iface =
  if_Index :: int
  if_Name :: string
  if_Up :: bool
  if_Loopback :: bool
  if_Addrs :: "string + string list"

fun first_egress :: "iface list \<Rightarrow> string + iface" where
  "first_egress [] = Inl ''no suitable egress interface''"
| "first_egress (i # ifs) =
     (if \<not> if_Up i \<or> if_Loopback i then first_egress ifs
      else case if_Addrs i of
        Inl e \<Rightarrow> first_egress ifs
      | Inr addrs \<Rightarrow> if length addrs = 0 then first_egress ifs else Inr i)"

definition egressInterface :: "(string \<Rightarrow> string) \<Rightarrow> (string \<Rightarrow> string + iface) \<Rightarrow> string + iface list \<Rightarrow> string + iface" where
  "egressInterface getenv byName ifs =
     (if getenv ''CENSOR_INTERFACE'' \<noteq> [] then byName (getenv ''CENSOR_INTERFACE'')
      else case ifs of Inl e \<Rightarrow> Inl e | Inr l \<Rightarrow> first_egress l)"

definition eligible :: "iface \<Rightarrow> bool" where
  "eligible i \<longleftrightarrow> if_Up i \<and> \<not> if_Loopback i \<and> (case if_Addrs i of Inl e \<Rightarrow> False | Inr l \<Rightarrow> l \<noteq> [])"

text \<open>Without a configured name, the first eligible interface is filtered; any further one is not.\<close>

lemma first_egress_find:
  "first_egress l = (case find eligible l of None \<Rightarrow> Inl ''no suitable egress interface'' | Some i \<Rightarrow> Inr i)"
  by (induction l) (auto simp: eligible_def split: sum.split)

lemma egress_unique:
  assumes "getenv ''CENSOR_INTERFACE'' = []" "egressInterface getenv byName (Inr l) = Inr i"
  shows "\<exists>before after. l = before @ i # after \<and> eligible i \<and> list_all (\<lambda>j. \<not> eligible j) before"
proof -
  from assms have "find eligible l = Some i"
    by (simp add: egressInterface_def first_egress_find split: option.splits)
  then obtain k where k: "k < length l" "eligible (l ! k)" "i = l ! k" "\<forall>j < k. \<not> eligible (l ! j)"
    by (auto simp: find_Some_iff)
  then have "l = take k l @ i # drop (Suc k) l" by (simp add: id_take_nth_drop)
  moreover have "list_all (\<lambda>j. \<not> eligible j) (take k l)" using k by (auto simp: list_all_length)
  ultimately show ?thesis using k by blast
qed

section \<open>Classic filter\<close>

record BpfFilter =
  bf_LinkIndex :: int
  bf_Parent :: nat
  bf_Handle :: nat
  bf_Protocol :: nat
  bf_Priority :: nat
  bf_Fd :: nat
  bf_Name :: string
  bf_DirectAction :: bool

text \<open>The traffic control state of the kernel: the interfaces with a clsact queueing discipline, and the filters.
  Replacing a filter removes the one with the same place.\<close>

record tc_state =
  tc_clsact :: "int list"
  tc_filters :: "BpfFilter list"

definition filter_place :: "BpfFilter \<Rightarrow> int \<times> nat \<times> nat \<times> nat" where
  "filter_place f = (bf_LinkIndex f, bf_Parent f, bf_Handle f, bf_Priority f)"

definition QdiscAdd :: "string option \<Rightarrow> int \<Rightarrow> tc_state \<Rightarrow> tc_state \<times> string option" where
  "QdiscAdd out i t = (case out of Some e \<Rightarrow> (t, Some e) | None \<Rightarrow> (t\<lparr>tc_clsact := i # tc_clsact t\<rparr>, None))"

definition QdiscReplace :: "string option \<Rightarrow> int \<Rightarrow> tc_state \<Rightarrow> tc_state \<times> string option" where
  "QdiscReplace out i t =
     (case out of Some e \<Rightarrow> (t, Some e)
      | None \<Rightarrow> (if i \<in> set (tc_clsact t) then t else t\<lparr>tc_clsact := i # tc_clsact t\<rparr>, None))"

definition FilterReplace :: "string option \<Rightarrow> BpfFilter \<Rightarrow> tc_state \<Rightarrow> tc_state \<times> string option" where
  "FilterReplace out f t =
     (case out of Some e \<Rightarrow> (t, Some e)
      | None \<Rightarrow> (t\<lparr>tc_filters := f # filter (\<lambda>g. filter_place g \<noteq> filter_place f) (tc_filters t)\<rparr>, None))"

definition FilterDel :: "string option \<Rightarrow> BpfFilter \<Rightarrow> tc_state \<Rightarrow> tc_state \<times> string option" where
  "FilterDel out f t =
     (case out of Some e \<Rightarrow> (t, Some e)
      | None \<Rightarrow> (t\<lparr>tc_filters := filter (\<lambda>g. filter_place g \<noteq> filter_place f) (tc_filters t)\<rparr>, None))"

text \<open>\<^verbatim>\<open>HANDLE_MIN_EGRESS\<close> is 0xFFFFFFF3, \<^verbatim>\<open>MakeHandle(0, 1)\<close> is 1, \<^verbatim>\<open>ETH_P_ALL\<close> is 3.\<close>

definition clsact_filter :: "int \<Rightarrow> nat \<Rightarrow> BpfFilter" where
  "clsact_filter ifindex fd = \<lparr>bf_LinkIndex = ifindex, bf_Parent = 0xFFFFFFF3, bf_Handle = 1, bf_Protocol = 3, bf_Priority = 1,
     bf_Fd = fd, bf_Name = ''censor_egress'', bf_DirectAction = True\<rparr>"

definition attachClsactFilter :: "string option \<Rightarrow> string option \<Rightarrow> string option \<Rightarrow> int \<Rightarrow> nat \<Rightarrow> tc_state \<Rightarrow> tc_state \<times> (string + BpfFilter)" where
  "attachClsactFilter qout rout fout ifindex fd t =
     (case (case QdiscAdd qout ifindex t of (t, Some e) \<Rightarrow> fst (QdiscReplace rout ifindex t) | (t, None) \<Rightarrow> t) of
        t \<Rightarrow>
          (case FilterReplace fout (clsact_filter ifindex fd) t of
             (t, Some e) \<Rightarrow> (t, Inl e)
           | (t, None) \<Rightarrow> (t, Inr (clsact_filter ifindex fd))))"

text \<open>Deleting the filter on close restores the filters; the queueing discipline stays.\<close>

lemma clsact_close:
  assumes "attachClsactFilter None rout fout i fd t = (t1, Inr f)" "\<forall>g \<in> set (tc_filters t). filter_place g \<noteq> filter_place f"
  shows "fst (FilterDel None f t1) = t\<lparr>tc_clsact := i # tc_clsact t\<rparr>"
proof -
  have "filter (\<lambda>g. filter_place g \<noteq> filter_place f) (tc_filters t) = tc_filters t"
    using assms(2) by (intro filter_True) blast
  with assms(1) show ?thesis
    by (auto simp: attachClsactFilter_def QdiscAdd_def FilterReplace_def FilterDel_def split: option.splits)
qed

section \<open>Connect hooks\<close>

record cgroup_options =
  cg_Path :: string
  cg_Attach :: string
  cg_Program :: nat

definition attachConnect4 :: "(cgroup_options \<Rightarrow> string + handle) \<Rightarrow> nat \<Rightarrow> string + handle" where
  "attachConnect4 attachCgroup prog =
     attachCgroup \<lparr>cg_Path = ''/sys/fs/cgroup'', cg_Attach = ''AttachCGroupInet4Connect'', cg_Program = prog\<rparr>"

definition attachConnect6 :: "(cgroup_options \<Rightarrow> string + handle) \<Rightarrow> nat \<Rightarrow> string + handle" where
  "attachConnect6 attachCgroup prog =
     attachCgroup \<lparr>cg_Path = ''/sys/fs/cgroup'', cg_Attach = ''AttachCGroupInet6Connect'', cg_Program = prog\<rparr>"

section \<open>Events and the stubs\<close>

definition Events :: "('m, 'p) fw \<Rightarrow> bool" where
  "Events s = eventCh s"

definition stub_AttachFirewall :: "bool \<Rightarrow> bool \<Rightarrow> 'w \<Rightarrow> 'w \<times> string option" where
  "stub_AttachFirewall auditMode watchSudo w = (w, Some ''ebpf attach requires linux'')"

definition stub_DetachFirewall :: "'w \<Rightarrow> 'w" where
  "stub_DetachFirewall w = w"

definition stub_AllowIP :: "Addr \<Rightarrow> 'w \<Rightarrow> 'w \<times> string option" where
  "stub_AllowIP addr w = (w, None)"

definition stub_allowV4Prefix :: "u32 \<Rightarrow> u32 \<Rightarrow> 'w \<Rightarrow> 'w \<times> string option" where
  "stub_allowV4Prefix addrBE prefixLen w = (w, None)"

definition stub_allowV6Prefix :: "u32 list \<Rightarrow> u32 \<Rightarrow> 'w \<Rightarrow> 'w \<times> string option" where
  "stub_allowV6Prefix addr prefixLen w = (w, None)"

definition stub_Events :: bool where
  "stub_Events = False"

text \<open>On other systems the package behaves as the Linux one does while nothing is loaded.\<close>

lemma stub_unloaded:
  assumes "\<not> loaded s"
  shows "DetachFirewall s = stub_DetachFirewall s" "AllowIP L en a s = Some (stub_AllowIP a s)"
    "allowV4Prefix L en w n s = stub_allowV4Prefix w n s" "allowV6Prefix L en ws n s = stub_allowV6Prefix ws n s"
  using assms
  by (simp_all add: DetachFirewall_def stub_DetachFirewall_def AllowIP_def stub_AllowIP_def allowV4Prefix_def
      stub_allowV4Prefix_def allowV6Prefix_def stub_allowV6Prefix_def)

end
