(* ===== verification/Bindings.thy ===== *)
theory Bindings
  imports FirewallProps "HOL-Library.Multiset"
begin

text \<open>
  The bindings of the BPF object, \<^verbatim>\<open>bpf/censor_bpfel.go\<close> and \<^verbatim>\<open>bpf/censor_bpfeb.go\<close>: which file a build selects, the
  objects by name, loading them, and closing them one after the other. Parsing the ELF file, creating the objects and closing a
  descriptor belong to the \<^verbatim>\<open>cilium/ebpf\<close> library and are parameters; what is relied on of closing is the
  locale \<open>fd_closer\<close>.
\<close>

section \<open>Build\<close>

text \<open>The build constraints of the two files, and the object each embeds.\<close>

definition bpfel_archs :: "string list" where
  "bpfel_archs = [''386'', ''amd64'', ''arm'', ''arm64'', ''loong64'', ''mips64le'', ''mipsle'', ''ppc64le'', ''riscv64'', ''wasm'']"

definition bpfeb_archs :: "string list" where
  "bpfeb_archs = [''mips'', ''mips64'', ''ppc64'', ''s390x'']"

definition CensorBytes :: "'b \<Rightarrow> 'b \<Rightarrow> string \<Rightarrow> 'b option" where
  "CensorBytes bpfel_o bpfeb_o arch =
     (if arch \<in> set bpfel_archs then Some bpfel_o else if arch \<in> set bpfeb_archs then Some bpfeb_o else None)"

lemma archs_apart: "set bpfel_archs \<inter> set bpfeb_archs = {}"
  by (simp add: bpfel_archs_def bpfeb_archs_def)

section \<open>Objects\<close>

definition CensorMapAllowV4 :: string where "CensorMapAllowV4 = ''allow_v4''"
definition CensorMapAllowV6 :: string where "CensorMapAllowV6 = ''allow_v6''"
definition CensorMapConfig :: string where "CensorMapConfig = ''config''"
definition CensorMapEvents :: string where "CensorMapEvents = ''events''"
definition CensorMapSockPid :: string where "CensorMapSockPid = ''sock_pid''"
definition CensorProgCensorConnect4 :: string where "CensorProgCensorConnect4 = ''censor_connect4''"
definition CensorProgCensorConnect6 :: string where "CensorProgCensorConnect6 = ''censor_connect6''"
definition CensorProgCensorEgress :: string where "CensorProgCensorEgress = ''censor_egress''"
definition CensorProgCensorExec :: string where "CensorProgCensorExec = ''censor_exec''"

record 'p CensorPrograms =
  CensorConnect4 :: 'p
  CensorConnect6 :: 'p
  CensorEgress :: 'p
  CensorExec :: 'p

record 'm CensorMaps =
  MapAllowV4 :: 'm
  MapAllowV6 :: 'm
  MapConfig :: 'm
  MapEvents :: 'm
  MapSockPid :: 'm

text \<open>\<^verbatim>\<open>CensorObjects\<close> embeds both; the struct of the specifications is the same with specifications in place of descriptors.\<close>

record ('p, 'm) CensorObjects =
  Programs :: "'p CensorPrograms"
  Maps :: "'m CensorMaps"

type_synonym ('ps, 'ms) CensorSpecs = "('ps, 'ms) CensorObjects"

text \<open>The struct tags: what the library looks up in a collection for each field.\<close>

definition tagged_programs :: "(string \<rightharpoonup> 'p) \<Rightarrow> 'p option CensorPrograms" where
  "tagged_programs look = \<lparr>CensorConnect4 = look CensorProgCensorConnect4, CensorConnect6 = look CensorProgCensorConnect6,
     CensorEgress = look CensorProgCensorEgress, CensorExec = look CensorProgCensorExec\<rparr>"

definition tagged_maps :: "(string \<rightharpoonup> 'm) \<Rightarrow> 'm option CensorMaps" where
  "tagged_maps look = \<lparr>MapAllowV4 = look CensorMapAllowV4, MapAllowV6 = look CensorMapAllowV6, MapConfig = look CensorMapConfig,
     MapEvents = look CensorMapEvents, MapSockPid = look CensorMapSockPid\<rparr>"

section \<open>Loading\<close>

definition LoadCensor :: "('b \<Rightarrow> string + 'spec) \<Rightarrow> 'b \<Rightarrow> string + 'spec" where
  "LoadCensor LoadCollectionSpecFromReader bytes =
     (case LoadCollectionSpecFromReader bytes of
        Inl err \<Rightarrow> Inl (''can'' @ [CHR 0x27] @ ''t load Censor: '' @ err)
      | Inr spec \<Rightarrow> Inr spec)"

definition LoadCensorObjects :: "('b \<Rightarrow> string + 'spec) \<Rightarrow> ('spec \<Rightarrow> 'w \<Rightarrow> 'w \<times> (string + 'o)) \<Rightarrow> 'b \<Rightarrow> 'w \<Rightarrow> 'w \<times> (string + 'o)" where
  "LoadCensorObjects LoadCollectionSpecFromReader LoadAndAssign bytes w =
     (case LoadCensor LoadCollectionSpecFromReader bytes of
        Inl err \<Rightarrow> (w, Inl err)
      | Inr spec \<Rightarrow> LoadAndAssign spec w)"

section \<open>Closing\<close>

type_synonym 'w closer = "'w \<Rightarrow> 'w \<times> string option"

text \<open>\<^verbatim>\<open>_CensorClose\<close>: the first error ends the loop.\<close>

fun CensorClose :: "'w closer list \<Rightarrow> 'w closer" where
  "CensorClose [] w = (w, None)"
| "CensorClose (closer # closers) w =
     (case closer w of
        (w, Some err) \<Rightarrow> (w, Some err)
      | (w, None) \<Rightarrow> CensorClose closers w)"

definition Programs_Close :: "('p \<Rightarrow> 'w closer) \<Rightarrow> 'p CensorPrograms \<Rightarrow> 'w closer" where
  "Programs_Close close p = CensorClose
     [close (CensorConnect4 p), close (CensorConnect6 p), close (CensorEgress p), close (CensorExec p)]"

definition Maps_Close :: "('m \<Rightarrow> 'w closer) \<Rightarrow> 'm CensorMaps \<Rightarrow> 'w closer" where
  "Maps_Close close m = CensorClose
     [close (MapAllowV4 m), close (MapAllowV6 m), close (MapConfig m), close (MapEvents m), close (MapSockPid m)]"

definition Objects_Close :: "('p \<Rightarrow> 'w closer) \<Rightarrow> ('m \<Rightarrow> 'w closer) \<Rightarrow> ('p, 'm) CensorObjects \<Rightarrow> 'w closer" where
  "Objects_Close closeP closeM obs = CensorClose [Programs_Close closeP (Programs obs), Maps_Close closeM (Maps obs)]"

text \<open>The descriptors in the order they are closed.\<close>

definition descriptors :: "('h, 'h) CensorObjects \<Rightarrow> 'h list" where
  "descriptors obs =
     (let p = Programs obs in [CensorConnect4 p, CensorConnect6 p, CensorEgress p, CensorExec p])
     @ (let m = Maps obs in [MapAllowV4 m, MapAllowV6 m, MapConfig m, MapEvents m, MapSockPid m])"

lemma CensorClose_append:
  "CensorClose (cs @ ds) w = (case CensorClose cs w of (w, Some err) \<Rightarrow> (w, Some err) | (w, None) \<Rightarrow> CensorClose ds w)"
  by (induction cs arbitrary: w) (auto split: prod.split option.split)

lemma CensorClose_nested: "CensorClose [CensorClose cs, CensorClose ds] w = CensorClose (cs @ ds) w"
  unfolding CensorClose_append by (auto split: prod.split option.split)

text \<open>Closing the two embedded structs is one loop over the nine descriptors.\<close>

lemma Objects_Close_flat: "Objects_Close close close obs w = CensorClose (map close (descriptors obs)) w"
proof -
  have eta: "Programs_Close close p = CensorClose [close (CensorConnect4 p), close (CensorConnect6 p), close (CensorEgress p), close (CensorExec p)]"
    "Maps_Close close m = CensorClose [close (MapAllowV4 m), close (MapAllowV6 m), close (MapConfig m), close (MapEvents m), close (MapSockPid m)]"
    for p m by (simp_all only: fun_eq_iff Programs_Close_def Maps_Close_def, simp_all)
  show ?thesis
    unfolding Objects_Close_def eta CensorClose_nested by (simp only: descriptors_def Let_def list.map append.simps)
qed

text \<open>What is relied on of closing one descriptor: without an error exactly it is gone; with one, at most it is.\<close>

locale fd_closer =
  fixes close :: "'h \<Rightarrow> 'w closer" and held :: "'w \<Rightarrow> 'h multiset"
  assumes closed: "close h w = (w', None) \<Longrightarrow> held w' = held w - {#h#}"
    and kept: "close h w = (w', Some e) \<Longrightarrow> held w - {#h#} \<subseteq># held w'"
begin

lemma closes_all: "CensorClose (map close hs) w = (w', None) \<Longrightarrow> held w' = held w - mset hs"
  by (induction hs arbitrary: w) (auto dest!: closed split: prod.splits option.splits)

text \<open>An error leaves the descriptors after the failing one open.\<close>

lemma stops_open:
  assumes "CensorClose (map close hs) w = (w', Some e)" "mset hs \<subseteq># held w"
  shows "\<exists>pre h post. hs = pre @ h # post \<and> mset post \<subseteq># held w'"
  using assms
proof (induction hs arbitrary: w)
  case (Cons h hs)
  obtain w1 err where c: "close h w = (w1, err)" by (metis surj_pair)
  show ?case
  proof (cases err)
    case None
    have "mset hs \<subseteq># held w1"
      using Cons.prems(2) closed [of h w w1] c None by (simp add: insert_subset_eq_iff)
    from Cons.IH [OF _ this] Cons.prems(1) c None obtain pre h' post where "hs = pre @ h' # post" "mset post \<subseteq># held w'"
      by auto
    then show ?thesis by (intro exI [of _ "h # pre"]) auto
  next
    case (Some x)
    with Cons.prems(1) c kept [of h w w1 x] have "held w - {#h#} \<subseteq># held w'" by simp
    with Cons.prems(2) have "mset hs \<subseteq># held w'" by (auto simp: insert_subset_eq_iff intro: subset_mset.order_trans)
    then show ?thesis by (intro exI [of _ "[]"]) auto
  qed
qed simp

end

text \<open>The kernel handles of the firewall, closed with the failures given.\<close>

definition release_unless :: "(handle \<Rightarrow> string option) \<Rightarrow> handle \<Rightarrow> ('m, 'p) fw closer" where
  "release_unless fails h s = (case fails h of None \<Rightarrow> (release (Some h) s, None) | Some e \<Rightarrow> (s, Some e))"

lemma release_held: "mset (live (release (Some h) s)) = mset (live s) - {#h#}"
  by (auto simp: release_def diff_single_trivial)

interpretation fw_fds: fd_closer "release_unless fails" "\<lambda>s. mset (live s)" for fails
  by unfold_locales (auto simp: release_unless_def release_held split: option.splits)

text \<open>\<^verbatim>\<open>Close\<close> on the objects: without an error all nine descriptors are closed and nothing else; an error of one leaves
  every later one open. The firewall ignores the error, so its model holds one handle for the nine only as long as
  no close fails.\<close>

lemma Objects_Close_closes:
  "Objects_Close (release_unless fails) (release_unless fails) obs s = (s', None) \<Longrightarrow>
   mset (live s') = mset (live s) - mset (descriptors obs)"
  unfolding Objects_Close_flat by (rule fw_fds.closes_all)

lemma Objects_Close_stops:
  "Objects_Close (release_unless fails) (release_unless fails) obs s = (s', Some e) \<Longrightarrow> mset (descriptors obs) \<subseteq># mset (live s) \<Longrightarrow>
   \<exists>pre h post. descriptors obs = pre @ h # post \<and> mset post \<subseteq># mset (live s')"
  unfolding Objects_Close_flat by (rule fw_fds.stops_open)

lemma CensorClose_good: "(\<And>h. h \<in> set hs \<Longrightarrow> fails h = None) \<Longrightarrow> snd (CensorClose (map (release_unless fails) hs) s) = None"
  by (induction hs arbitrary: s) (auto simp: release_unless_def)

text \<open>One handle stands for the nine: releasing the objects of the model and closing the descriptors take related states
  to states with the same handles.\<close>

definition stands_for :: "('m, 'p) fw \<Rightarrow> (handle, handle) CensorObjects \<Rightarrow> ('m, 'p) fw \<Rightarrow> bool" where
  "stands_for s obs t \<longleftrightarrow> (\<exists>h. objsH s = Some h \<and> h \<in> set (live s) \<and> mset (live t) = mset (live s) - {#h#} + mset (descriptors obs))"

lemma Objects_Close_refines:
  assumes "stands_for s obs t" "Objects_Close (release_unless (\<lambda>h. None)) (release_unless (\<lambda>h. None)) obs t = (t', err)"
  shows "err = None \<and> mset (live t') = mset (live (closeObjs s))"
proof -
  have e: "err = None"
    using assms(2) CensorClose_good [of "descriptors obs" "\<lambda>h. None" t] unfolding Objects_Close_flat by simp
  from assms(1) obtain h where h: "objsH s = Some h" "h \<in> set (live s)" "mset (live t) = mset (live s) - {#h#} + mset (descriptors obs)"
    by (auto simp: stands_for_def)
  from Objects_Close_closes [OF assms(2) [unfolded e]] h(3) have "mset (live t') = mset (live s) - {#h#}" by simp
  with e h(1,2) show ?thesis by (simp add: closeObjs_def release_held)
qed

end
