(* ===== verification/TwoAgents.thy ===== *)
theory TwoAgents
  imports Descriptors ReadySignal
begin

text \<open>
  A second \<^verbatim>\<open>censor start\<close> beside a running agent (\<^verbatim>\<open>internal/agent/runtime.go\<close>, \<^verbatim>\<open>internal/events/logger.go\<close>): the processes share
  the file system, and the lock on the log is all that keeps them apart. The start clears files and truncates the log
  before it finds the lock taken.
\<close>

section \<open>Opening a log that is held\<close>

lemma Open_held:
  assumes "flock fs path \<noteq> None" "path \<noteq> []" "EventLog.Open out path fs = (fs', r)"
  shows "\<exists>e. r = Inl e" "fdata fs' = fdata fs \<or> fdata fs' = (fdata fs)(path \<mapsto> [])"
    "fd \<noteq> nextfd fs \<Longrightarrow> fopen fs' fd = fopen fs fd"
  using assms by (auto simp: EventLog.Open_def Let_def fd_close_def fd_unlock_def split: option.splits if_splits)

lemma Open_held_ok:
  assumes "flock fs path \<noteq> None" "path \<noteq> []" "oo_mkdir out = None" "oo_open out = None" "oo_chmod out = None"
  shows "\<exists>fs'. EventLog.Open out path fs = (fs', Inl ''flock: resource temporarily unavailable'') \<and> fdata fs' = (fdata fs)(path \<mapsto> [])"
  using assms by (simp add: EventLog.Open_def Let_def fd_close_def fd_unlock_def)

text \<open>The holder keeps the log through the attempt of another.\<close>

lemma held_open:
  assumes "log_held F K lg fs" "EventLog.Open out path fs = (fs', Inl e)"
  shows "log_held F K lg fs'"
proof -
  have wf: "fs_wf fs" using assms(1) by (simp add: log_held_def)
  from log_open [OF wf assms(2)] have "fs_wf fs'" "handles fs' = handles fs" "flock fs' = flock fs" by (simp_all add: log_free_def)
  with assms(1) show ?thesis by (simp add: log_held_def)
qed

lemma cleared_tables: "same_tables fs (cleared c fs)"
  by (simp add: cleared_def remove_file_def same_tables_def handles_def fun_eq_iff)

lemma cleared_others: "q \<notin> {cf_ReadyFile c, cf_FailureFile c, cf_StatusFile c} \<Longrightarrow> fdata (cleared c fs) q = fdata fs q"
  by (simp add: cleared_def)

section \<open>The second start\<close>

text \<open>What a start finds on a log that is held: it fails before or at the log, having changed only files.\<close>

lemma Start_held:
  assumes "c = defaults (se_getenv E) cfg" "se_mkdir E = None" "log_held F K lg (w_fs w)" "lg_path lg = cf_LogPath c"
  obtains e fs where "Start E L en cfg w = Some (fail_with E c e (w\<lparr>w_fs := fs\<rparr>))" "log_held F K lg fs"
    "fdata fs = fdata (cleared c (w_fs w)) \<or> fdata fs = (fdata (cleared c (w_fs w)))(cf_LogPath c \<mapsto> [])"
proof -
  have held: "log_held F K lg (cleared c (w_fs w))" by (rule log_held_tables [OF cleared_tables assms(3)])
  then have lock: "flock (cleared c (w_fs w)) (cf_LogPath c) \<noteq> None" by (auto simp: log_held_def assms(4))
  have path: "cf_LogPath c \<noteq> []" by (simp add: assms(1))
  from HOL.refl assms(1) show thesis
  proof (cases rule: Start_cases [where w = w and L = L and en = en])
    case (dir e)
    with assms(2) show thesis by simp
  next
    case (policy e)
    with held show thesis by (intro that [of e "cleared c (w_fs w)"]) simp_all
  next
    case (log e fs)
    from log(3) held_open [OF held log(2)] Open_held(2) [OF lock path log(2)] show thesis by (rule that)
  next
    case (begun g client pol fs l)
    from Open_held(1) [OF lock path begun(4)] show thesis by simp
  qed
qed

lemma Open_path: "EventLog.Open out path fs = (fs', Inr l) \<Longrightarrow> path \<noteq> [] \<Longrightarrow> lg_path l = path"
  by (auto simp: EventLog.Open_def Let_def split: option.splits if_splits)

text \<open>A started agent holds the log of its configuration.\<close>

lemma Start_holds:
  assumes "fs_wf (w_fs w)" "Start E L en cfg w = Some (Inr rt, w')" "c = defaults (se_getenv E) cfg"
  shows "log_held (handles (w_fs w)) (flock (w_fs w)) (rt_log rt) (w_fs w') \<and> lg_path (rt_log rt) = cf_LogPath c"
proof -
  have "lg_path (rt_log rt) = cf_LogPath c"
    using assms(2,3)
  proof (cases rule: Start_cases)
    case (begun g client pol fs l)
    let ?c = "new_runtime c pol g client l"
    have "framed l UNIV ?c" by (rule framed_new) (simp add: files_in_def)
    moreover have "log_held (handles (cleared c (w_fs w))) (flock (cleared c (w_fs w))) l fs"
      using log_open [OF _ begun(4)] same_tables_wf [OF cleared_tables, of c "w_fs w"] assms(1) by simp
    ultimately have "framed_outcome l UNIV (log_held (handles (cleared c (w_fs w))) (flock (cleared c (w_fs w))) l)
        (log_free (handles (cleared c (w_fs w))) (flock (cleared c (w_fs w)))) (Inr rt, w')"
      using log.lock_outcome [OF _ _ begun(5) [symmetric]] by simp
    then have "rt_log rt = l" by (simp add: framed_outcome_def framed_def)
    moreover have "cf_LogPath c \<noteq> []" by (simp add: assms(3))
    ultimately show ?thesis using Open_path [OF begun(4)] by simp
  qed (simp_all add: fail_with_def)
  with Start_log [OF assms(1,2)] show ?thesis by simp
qed

section \<open>What it does to the running agent\<close>

text \<open>A write at an offset beyond the end of the truncated log leaves a gap of NUL bytes.\<close>

lemma write_after_truncation:
  assumes "lg_file lg = Some fd" "fopen fs fd = Some (p, off)" "fdata fs p = Some []" "marshal ev = Inr b" "wo_write out = None"
  shows "fdata (fst (WriteEvent marshal out ev lg fs)) p = Some (replicate off (CHR 0x00) @ b @ [newline])"
  using assms by (simp add: WriteEvent_def fd_write_def splice_def)

text \<open>With everything else in order, the second start reports its failure in the file that the first agent's clients
  wait on, and the log of the first agent is emptied under it.\<close>

lemma second_start_harms:
  assumes "c = defaults (se_getenv E) cfg" "se_mkdir E = None" "log_held F K lg (w_fs w)" "lg_path lg = cf_LogPath c"
    and "se_gha E = Inr g" "load_policy E c g (cleared c (w_fs w)) = Inr (client, pol)"
    and "oo_mkdir (se_open E) = None" "oo_open (se_open E) = None" "oo_chmod (se_open E) = None"
    and "se_fail_out E = FOk" "cf_FailureFile c \<noteq> cf_LogPath c"
    and "lg_file lg = Some fd" "fopen (w_fs w) fd = Some (lg_path lg, off)"
  shows "\<exists>fs. Start E L en cfg w = Some (Inl ''flock: resource temporarily unavailable'', w\<lparr>w_fs := fs\<rparr>)
    \<and> wait_turn (cf_ReadyFile c) (cf_FailureFile c) \<lparr>mo_now = now, mo_failure = fs, mo_ready = fs\<rparr>
        = Some (Some (''censor failed: '' @ trim_space (''flock: resource temporarily unavailable'' @ [newline])))
    \<and> (marshal ev = Inr b \<and> wo_write out = None \<longrightarrow>
        fdata (fst (WriteEvent marshal out ev lg fs)) (cf_LogPath c) = Some (replicate off (CHR 0x00) @ b @ [newline]))"
proof -
  let ?fs = "cleared c (w_fs w)" and ?e = "''flock: resource temporarily unavailable''"
  have held: "log_held F K lg ?fs" by (rule log_held_tables [OF cleared_tables assms(3)])
  then have lock: "flock ?fs (cf_LogPath c) \<noteq> None" by (auto simp: log_held_def assms(4))
  have path: "cf_LogPath c \<noteq> []" "cf_FailureFile c \<noteq> []" by (simp_all add: assms(1))
  obtain fs where op: "EventLog.Open (se_open E) (cf_LogPath c) ?fs = (fs, Inl ?e)" "fdata fs = (fdata ?fs)(cf_LogPath c \<mapsto> [])"
    using Open_held_ok [OF lock path(1) assms(7-9)] by blast
  have s: "Start E L en cfg w = Some (fail_with E c ?e (w\<lparr>w_fs := fs\<rparr>))"
    using assms(2,5,6) op(1) unfolding assms(1) by (simp add: Start_def Let_def cleared_def)
  let ?fs' = "writeFail FOk (cf_FailureFile c) ?e fs"
  have "fd < nextfd ?fs"
    using held assms(12,13) unfolding log_held_def fs_wf_def by (auto simp: handles_def dom_def cleared_def remove_file_def)
  then have "fopen fs fd = Some (cf_LogPath c, off)"
    using Open_held(3) [OF lock path(1) op(1), of fd] assms(4,13) by (simp add: cleared_def remove_file_def)
  then have "fopen ?fs' fd = Some (cf_LogPath c, off)" "fdata ?fs' (cf_LogPath c) = Some []"
    using op(2) assms(11) path by (simp_all add: writeFail_def write_file_def)
  from write_after_truncation [OF assms(12) this, of marshal ev b out] s path(2) show ?thesis
    by (intro exI [of _ ?fs']) (simp add: fail_with_def assms(10) wait_turn_def read_file_def writeFail_fdata)
qed

text \<open>A ready file of an agent that is no more answers for the next one, until that one's start has cleared it.\<close>

lemma stale_ready:
  assumes "fdata fs failure = None \<or> fdata fs failure = Some []" "fdata fs ready \<noteq> None" "now < start + timeout"
    and "ready \<noteq> []" "failure \<noteq> []" "m 0 = \<lparr>mo_now = now, mo_failure = fs, mo_ready = fs\<rparr>"
  shows "WaitReady start m ready failure timeout = Some None"
  using assms by (auto simp: WaitReady_def or_default_def wait_loop.simps [of m _ _ _ 0] wait_turn_def read_file_def)

section \<open>Properties\<close>



end
