(* ===== verification/SmallParts.thy ===== *)
theory SmallParts
  imports CommandProps
begin

text \<open>
  What remains: the version (\<^verbatim>\<open>internal/version/version.go\<close>), the decoding of the policy (\<^verbatim>\<open>internal/agent/protojson.go\<close>), the HTTP
  client and the wrapped error of \<^verbatim>\<open>internal/api\<close>, the path of the log, the kinds of events and the helper of the tests in
  \<^verbatim>\<open>internal/dns/proxy.go\<close>, each with what ties it to the rest.
\<close>

section \<open>Version and policy\<close>

text \<open>The variable as compiled in, unless the linker sets it.\<close>

definition version_default :: string where
  "version_default = ''dev''"

definition version_String :: "string option \<Rightarrow> string" where
  "version_String injected = (case injected of None \<Rightarrow> version_default | Some v \<Rightarrow> v)"

definition protoJSONUnmarshal :: "(string \<Rightarrow> string + 'p) \<Rightarrow> string \<Rightarrow> string + 'p" where
  "protoJSONUnmarshal protojson_Unmarshal b = protojson_Unmarshal b"

text \<open>A start from a local file is one whose policy is decoded so; the version goes into the client it leaves.\<close>

lemma load_policy_local:
  "cf_ConfigFile c \<noteq> [] \<Longrightarrow> load_policy E c g fs
     = (case read_file fs (cf_ConfigFile c) of Inl e \<Rightarrow> Inl e
        | Inr b \<Rightarrow> (case protoJSONUnmarshal (se_unmarshal E) b of
            Inl e \<Rightarrow> Inl e
          | Inr pol \<Rightarrow> Inr (\<lparr>BaseURL = cf_APIURL c, APIKey = [], Version = se_version E, Attempts = 0\<rparr>, pol)))"
  by (simp add: load_policy_def protoJSONUnmarshal_def Let_def split: sum.split)

section \<open>Client\<close>

text \<open>The transport: the one configured, else a new one with a timeout of thirty seconds.\<close>

definition http_client :: "(int \<Rightarrow> 'c) \<Rightarrow> 'c option \<Rightarrow> 'c" where
  "http_client new HTTPClient = (case HTTPClient of Some c \<Rightarrow> c | None \<Rightarrow> new (30 * 1000000000))"

text \<open>\<^verbatim>\<open>Unwrap\<close> of the errors that wrap another.\<close>

fun Unwrap :: "error \<Rightarrow> error option" where
  "Unwrap (APIError c s e) = Some e"
| "Unwrap (Wrap n m e) = Some e"
| "Unwrap _ = None"

lemma Unwrap_size: "Unwrap e = Some e' \<Longrightarrow> size e' < size e"
  by (cases e) auto

text \<open>The searches of the retry loop are the walk along \<^verbatim>\<open>Unwrap\<close> that the \<^verbatim>\<open>errors\<close> package documents.\<close>

lemma as_api_walk:
  "as_api e = (case e of APIError c s e' \<Rightarrow> Some c | _ \<Rightarrow> (case Unwrap e of None \<Rightarrow> None | Some e' \<Rightarrow> as_api e'))"
  by (cases e) simp_all

lemma is_err_walk:
  "is_err t e = (t = e \<or> (case Unwrap e of None \<Rightarrow> False | Some e' \<Rightarrow> is_err t e'))"
  by (cases e) simp_all

section \<open>Log and events\<close>

definition Path :: "Logger \<Rightarrow> string" where
  "Path l = lg_path l"

lemma Path_Open:
  "EventLog.Open out path fs = (fs', Inr l) \<Longrightarrow> Path l = (if path = [] then DefaultLogPath else path)"
  by (auto simp: Path_def EventLog.Open_def Let_def split: option.splits if_splits)

definition EventKindNet :: u8 where "EventKindNet = 0"
definition EventKindSudo :: u8 where "EventKindSudo = 1"

lemma event_kinds: "EventKindNet = EVENT_KIND_NET" "EventKindSudo = EVENT_KIND_SUDO"
  by (simp_all add: EventKindNet_def EventKindSudo_def EVENT_KIND_NET_def EVENT_KIND_SUDO_def)

section \<open>A free address\<close>

text \<open>The port the system chose, or its error.\<close>

definition ListenPacket :: "string + u16 \<Rightarrow> string \<times> string option" where
  "ListenPacket bound = (case bound of Inl e \<Rightarrow> ([], Some e) | Inr port \<Rightarrow> (''127.0.0.1:'' @ dec_digits (unat port), None))"

lemma SplitHostPort_join:
  assumes "set h \<inter> {CHR '':'', CHR ''['', CHR '']''} = {}" "set p \<inter> {CHR '':'', CHR ''['', CHR '']''} = {}"
  shows "SplitHostPort (h @ CHR '':'' # p) = Some (h, p)"
proof -
  let ?s = "h @ CHR '':'' # p"
  have "takeWhile (\<lambda>x. x \<noteq> CHR '':'') (rev p @ CHR '':'' # rev h) = rev p"
    using assms(2) by (subst takeWhile_append2) auto
  then have "last_index ?s (CHR '':'') = Some (length h)" by (simp add: last_index_def)
  moreover have "?s ! 0 \<noteq> CHR ''[''" using assms(1) by (cases h) auto
  moreover have "CHR ''['' \<notin> set ?s" "CHR '']'' \<notin> set ?s" "CHR '':'' \<notin> set (take (length h) ?s)" using assms by auto
  ultimately show ?thesis by (simp add: SplitHostPort_def)
qed

text \<open>The address is split back into host and port by the start that listens on it.\<close>

lemma ListenPacket_splits: "splitHostPort (fst (ListenPacket (Inr port))) = (''127.0.0.1'', dec_digits (unat port))"
proof -
  have "list_all is_digit (dec_digits (unat port))" using dec_digits_facts by blast
  then have "set (dec_digits (unat port)) \<inter> {CHR '':'', CHR ''['', CHR '']''} = {}" by (auto simp: list_all_iff is_digit_def)
  from SplitHostPort_join [OF _ this, of "''127.0.0.1''"] show ?thesis by (simp add: splitHostPort_def ListenPacket_def)
qed

end
