(* ===== verification/Conformance.thy ===== *)
theory Conformance
  imports TwoAgents SmallParts
begin

text \<open>
  The unit tests of the repository that do not test the kernel, the resolver or a codec of the libraries, run on the model by
  evaluation: each lemma is a test function, named after it, with the inputs and the expected results of the Go code. What a test gets from its surroundings (a server, an
  upstream resolver, the clock, a decoder of JSON for the text of the test) is what the test sets up. All pass but one, the run of the
  egress program, whose expectation is refuted.
\<close>

section \<open>Policy\<close>

lemma TestMatchHost:
  "MatchHost id ''github.com'' ''github.com''" "\<not> MatchHost id ''github.com'' ''api.github.com''"
  "MatchHost id ''*.github.com'' ''api.github.com''" "\<not> MatchHost id ''*.github.com'' ''foo.bar.github.com''"
  "MatchHost id ''**.github.com'' ''api.github.com''" "MatchHost id ''**.github.com'' ''foo.bar.github.com''"
  "MatchHost id ''**.npmjs.org'' ''registry.npmjs.org''" "MatchHost id ''a.*.c'' ''a.b.c''"
  "\<not> MatchHost id ''a.*.c'' ''a.b.d.c''" "MatchHost id ''GITHUB.COM'' ''github.com''"
  by code_simp+

lemma TestEvaluateHostPrecedence:
  "EvaluateHost id [''**.example.com''] [''evil.example.com''] ''evil.example.com'' = \<lparr>Allow = False, Rule = ''deniedHosts''\<rparr>"
  "EvaluateHost id [''github.com''] [] ''gitlab.com'' = \<lparr>Allow = False, Rule = ''default''\<rparr>"
  by code_simp+

text \<open>Trimming, on the strings of the tests.\<close>

lemma trim_id: "trimmed t \<Longrightarrow> trim_space t = t"
  by (simp add: trimmed_def trim_space_def trim_left_same)

lemma trim_blank: "trim_space (CHR '' '' # s) = trim_space s"
proof -
  have "find (\<lambda>w. w \<noteq> [] \<and> prefix w (CHR '' '' # s)) go_spaces = Some '' ''"
    by (simp add: go_spaces_def char_of_def bit_Suc_0_iff)
  then have "trim_left go_spaces (CHR '' '' # s) = trim_left go_spaces s" by (simp add: trim_left.simps [of go_spaces "CHR '' '' # s"])
  then show ?thesis by (simp add: trim_space_def)
qed

lemma trimmed_tests: "trimmed ''google.co*''" "trimmed ''**.github.com''" "trimmed ''secret-key''" "trimmed ''{m}''"
  by (simp_all add: trimmed_def go_spaces_def char_of_def bit_Suc_0_iff)

lemma TestValidatePattern:
  "ValidatePattern id ''google.co*'' = Some (PartialLabelWildcard ''google.co*'')" "ValidatePattern id ''**.github.com'' = None"
  by (simp add: ValidatePattern_def trim_id trimmed_tests, code_simp)+

lemma TestMergeAllowed:
  "length DefaultHosts \<le> length (MergeAllowed True [''registry.npmjs.org'', ''github.com''])"
  "''registry.npmjs.org'' \<in> set (MergeAllowed True [''registry.npmjs.org'', ''github.com''])"
  "length (filter (\<lambda>h. h = ''github.com'') (MergeAllowed True [''registry.npmjs.org'', ''github.com''])) = 1"
  by (simp_all add: MergeAllowed_spec DefaultHosts_def)

lemma TestDefaultHostsMatchAPI:
  "Allow (EvaluateHost id (MergeAllowed True []) [] ''api.github.com'')"
  "Allow (EvaluateHost id (MergeAllowed True []) [] ''raw.githubusercontent.com'')"
proof -
  have "MatchHost id ''api.github.com'' ''api.github.com''" "MatchHost id ''**.githubusercontent.com'' ''raw.githubusercontent.com''"
    by code_simp+
  moreover have "{''api.github.com'', ''**.githubusercontent.com''} \<subseteq> set (MergeAllowed True [])"
    by (simp add: set_MergeAllowed DefaultHosts_def)
  ultimately have "list_ex (\<lambda>p. MatchHost id p ''api.github.com'') (MergeAllowed True [])"
    "list_ex (\<lambda>p. MatchHost id p ''raw.githubusercontent.com'') (MergeAllowed True [])" by (auto simp: list_ex_iff)
  then show "Allow (EvaluateHost id (MergeAllowed True []) [] ''api.github.com'')"
    "Allow (EvaluateHost id (MergeAllowed True []) [] ''raw.githubusercontent.com'')" by (simp_all add: EvaluateHost_def)
qed

section \<open>Data\<close>

definition key1 :: Key where
  "key1 = \<lparr>PID = 1, Dst = ''1.2.3.4'', Dport = 443, Proto = 6, Allowed = 0, Kind = 0\<rparr>"

lemma TestCacheSuppressesDuplicates:
  "map fst (emitted_by ShouldEmit (New (3600 * Second)) [(key1, 0), (key1, 1), (key1\<lparr>Dport := 80\<rparr>, 2)])
     = [key1, key1\<lparr>Dport := 80\<rparr>]"
  by (simp add: ShouldEmit_def New_def Second_def key1_def)

lemma TestCacheTTLExpiry:
  "map snd (emitted_by ShouldEmit (New 10000000) [(key1, 0), (key1, 25000000)]) = [0, 25000000]"
  by (simp add: ShouldEmit_def New_def Second_def key1_def)

lemma TestNewLPMKeyV4:
  "NewLPMKeyV4 (Addr4 0x01020304) = Some (Inr \<lparr>PrefixLen = 32, LAddr = 0x01020304\<rparr>)"
  "NewLPMKeyV4 (Addr6 0 0 0 1) = Some (Inl ''address is not IPv4'')"
  by code_simp+

text \<open>A digest long enough for the twelve hexadecimal digits of the test.\<close>

lemma TestJobIDStable:
  "JobID plain_enc (map (\<lambda>c. of_char c)) ''build'' [(''os'', JStr ''ubuntu''), (''go'', JStr ''1.27'')]
   = JobID plain_enc (map (\<lambda>c. of_char c)) ''build'' [(''go'', JStr ''1.27''), (''os'', JStr ''ubuntu'')]"
  "length ''build:'' + 12 \<le> length (JobID plain_enc (map (\<lambda>c. of_char c)) ''build'' [(''os'', JStr ''ubuntu''), (''go'', JStr ''1.27'')])"
  "JobID plain_enc (map (\<lambda>c. of_char c)) ''build'' [] = ''build''"
  by code_simp+

definition env_test :: "string \<Rightarrow> string" where
  "env_test = (\<lambda>k. if k = ''GITHUB_REPOSITORY'' then ''FourLeggedLabs/censor'' else if k = ''GITHUB_JOB'' then ''test''
     else if k = ''GITHUB_RUN_ID'' then ''99'' else if k = ''CENSOR_MATRIX'' then ''{m}'' else [])"

lemma TestFromEnv:
  "case FromEnv plain_enc (map (\<lambda>c. of_char c)) (\<lambda>s. Inr [(''os'', JStr ''ubuntu-latest'')]) env_test of
     Inl e \<Rightarrow> False
   | Inr c \<Rightarrow> RepoOwner c = ''FourLeggedLabs'' \<and> RepoName c = ''censor'' \<and> JobId c \<noteq> ''test''"
proof -
  have "SplitN2 ''FourLeggedLabs/censor'' (CHR ''/'') = [''FourLeggedLabs'', ''censor'']" by code_simp
  moreover have "length (JobID plain_enc (map (\<lambda>c. of_char c)) ''test'' [(''os'', JStr ''ubuntu-latest'')]) \<noteq> length ''test''" by code_simp
  then have "JobID plain_enc (map (\<lambda>c. of_char c)) ''test'' [(''os'', JStr ''ubuntu-latest'')] \<noteq> ''test''" by metis
  ultimately show ?thesis by (simp add: FromEnv_def env_test_def Let_def trim_id trimmed_tests)
qed

section \<open>Host\<close>

lemma TestIsSudoComm:
  "IsSudoComm ''sudo''" "IsSudoComm ''/usr/bin/sudo''" "\<not> IsSudoComm ''curl''"
  by code_simp+

lemma TestExclusiveLogger:
  "case EventLog.Open ok_open ''l'' fs0 of
     (fs, Inr l) \<Rightarrow> (case EventLog.Open ok_open ''l'' fs of (fs', Inl e) \<Rightarrow> True | (fs', Inr l') \<Rightarrow> False)
   | (fs, Inl e) \<Rightarrow> False"
  by (simp add: EventLog.Open_def ok_open_def fs0_def Let_def)

lemma TestRedirectRemoveIdempotent:
  "DnsRedirect.Remove run \<lparr>ListenHost = ''127.0.0.1'', ListenPort = ''53'', backend = [], installed = False\<rparr> s
     = (\<lparr>ListenHost = ''127.0.0.1'', ListenPort = ''53'', backend = [], installed = False\<rparr>, s, None)"
  by (simp add: DnsRedirect.Remove_def)

lemma TestLoadAPIKey:
  "LoadAPIKey (\<lambda>p. Inr (''  secret-key'' @ [newline])) ''p'' = Inr ''secret-key''"
  using trim_space_line [OF trimmed_tests(3)] by (simp add: LoadAPIKey_def trim_blank)

definition lockdown_test :: Lockdown where
  "lockdown_test = \<lparr>SudoersFile = ''/t/zz-censor'', StateFile = ''/t/.state'', Username = ''runner'', AllowCmds = [''/usr/bin/docker'']\<rparr>"

lemma TestLockdownRoundTrip:
  "case SudoLockdown.Enable (Inl ''no user'') (\<lambda>u. False) FOk FOk lockdown_test fs0 of
     (fs, err) \<Rightarrow> err = None \<and> (\<exists>b. fdata fs ''/t/zz-censor'' = Some b \<and> sublist ''NOPASSWD: /usr/bin/docker'' b)
       \<and> fdata (SudoLockdown.Disable lockdown_test fs) ''/t/zz-censor'' = None"
proof -
  have "sublist ''NOPASSWD: /usr/bin/docker'' (sudoers_text ''runner'' [''/usr/bin/docker''])" by code_simp
  then show ?thesis
    by (simp add: SudoLockdown.Enable_def SudoLockdown.Disable_def lockdown_test_def lockdown_user_def contains_any_def unsafe_chars_def
        newline_def write_file_def paths_def)
qed

definition parse_test :: "string \<Rightarrow> string + Prefix" where
  "parse_test s = (if s = ''10.0.0.0/8'' then Inr \<lparr>pAddr = Addr4 0x0A000000, pBits = 8\<rparr>
     else if s = ''fd00::/8'' then Inr \<lparr>pAddr = Addr6 0xFD000000 0 0 0, pBits = 8\<rparr> else Inl ''no prefix'')"

lemma TestParseAndAllowCIDRs:
  "map_option (\<lambda>(s, n, errs). (n, length errs))
     (ParseAndAllowCIDRs parse_test ref_ops LittleEndian [''10.0.0.0/8'', ''not-a-cidr'', ''fd00::/8''] (fw_init ref_boot)) = Some (2, 1)"
  by code_simp

text \<open>The decoded configuration of the test has one other key, which the written one keeps.\<close>

definition codec_test :: "int daemon_codec" where
  "codec_test = \<lparr>dc_unmarshal = (\<lambda>b. Inr (Some [(''log-driver'', JStr ''json-file'')])),
     dc_marshal = (\<lambda>m. if m = [(''log-driver'', JStr ''json-file''), (''dns'', JArr [JStr ''172.17.0.1''])] then Inr ''both'' else Inr ''lost'')\<rparr>"

lemma TestDockerDNSRoundTrip:
  "case docker_Enable codec_test None FOk \<lparr>DaemonJSON = ''/t/daemon.json'', DNS = [''172.17.0.1''], backup = [], hadFile = False, enabled = False\<rparr>
       (fs0\<lparr>fdata := [''/t/daemon.json'' \<mapsto> ''orig'']\<rparr>) of
     None \<Rightarrow> False
   | Some (d, fs, err) \<Rightarrow> err = None \<and> fdata fs ''/t/daemon.json'' = Some (''both'' @ [newline])
       \<and> fdata (fst (docker_Disable FOk d fs)) ''/t/daemon.json'' = Some ''orig''"
  by (simp add: docker_Enable_def docker_Disable_def codec_test_def docker_path_def write_file_def Let_def)

section \<open>Requests\<close>

lemma TestFetchPolicy:
  "rq_url (policy_request client0 (context0\<lparr>JobId := ''build:deadbeef''\<rparr>) (''https://x'' @ policyPath, [])) = ''https://x/v1/agent/policy''"
  "map_of (rq_headers (policy_request client0 (context0\<lparr>JobId := ''build:deadbeef''\<rparr>) u)) ''Authorization'' = Some ''Bearer k''"
  "map_of (rq_query (policy_request client0 (context0\<lparr>JobId := ''build:deadbeef''\<rparr>) (url, []))) ''job_id'' = Some ''build:deadbeef''"
  by (simp_all add: policy_request_def policyPath_def client0_def policy_params_def context0_def)

text \<open>A server that counts: bad gateway twice, then no content; and one that knows nothing.\<close>

definition server_test :: "(nat \<Rightarrow> int) \<Rightarrow> (nat, unit) api_env" where
  "server_test status = \<lparr>ae_url_parse = (\<lambda>s. Inr (s, [])), ae_new_request = (\<lambda>r. None),
     ae_do = (\<lambda>rq n. (Suc n, Inr \<lparr>rs_status = status (Suc n), rs_body = Inr []\<rparr>)),
     ae_unmarshal = (\<lambda>b. Inr (policy0\<lparr>pl_CorrelationId := ''x''\<rparr>)), ae_marshal = (\<lambda>m. Inr ''m''), ae_content_type = []\<rparr>"

lemma TestUploadRetriesThenSucceeds:
  "UploadLogs (\<lambda>i. None) (\<lambda>i. 0) (server_test (\<lambda>n. if n < 3 then 502 else 204)) client0 upload0 ''gz'' 0 = (None, 3)"
  by code_simp

lemma TestFetchPolicyNoRetryOn404:
  "case FetchPolicy (\<lambda>i. None) (\<lambda>i. 0) (server_test (\<lambda>n. 404)) client0 context0 0 of
     (err, pol, n) \<Rightarrow> (case err of Some (APIError c s e) \<Rightarrow> c = FailureNotFound | _ \<Rightarrow> False) \<and> n = 1"
  by code_simp

lemma TestFetchPolicyOK:
  "case FetchPolicy (\<lambda>i. None) (\<lambda>i. 0) (server_test (\<lambda>n. 200)) client0 context0 0 of
     (err, pol, n) \<Rightarrow> err = None \<and> map_option pl_CorrelationId pol = Some ''x''"
  by code_simp

section \<open>Proxy\<close>

definition upstream_test :: "bytes \<Rightarrow> toy \<Rightarrow> string \<Rightarrow> string + toy" where
  "upstream_test ip r a = Inr (fst r, [RR_A ip], 0)"

lemma TestProxyEnforceNXDOMAIN:
  "ServeDNS id toy_lib (upstream_test [9, 9, 9, 9]) (proxy0\<lparr>px_OnAllow := False\<rparr>) ([''evil.example.''], [], 0)
     = [WriteMsg ([''evil.example.''], [], RcodeNameError), OnEvent ''evil.example'' ACTION_DENY ''default'']"
  "last (ServeDNS id toy_lib (upstream_test [9, 9, 9, 9]) (proxy0\<lparr>px_OnAllow := False\<rparr>) ([''github.com.''], [], 0))
     = WriteMsg ([''github.com.''], [RR_A [9, 9, 9, 9]], 0)"
  by code_simp+

lemma TestProxyMonitorForwardsDenied:
  "last (ServeDNS id toy_lib (upstream_test [1, 2, 3, 4])
       (proxy0\<lparr>px_Mode := MODE_MONITOR, px_Allowed := [], px_OnEvent := False, px_OnAllow := False\<rparr>) ([''blocked.example.''], [], 0))
     = WriteMsg ([''blocked.example.''], [RR_A [1, 2, 3, 4]], 0)"
  by code_simp

section \<open>Egress program\<close>

text \<open>The packet of the test, 54 bytes with the destination 1.2.3.4, and the states of the maps at its three runs: nothing
  allowed in enforce mode, the key of the test inserted, nothing allowed in monitor mode.\<close>

definition test_skb :: bytes where
  "test_skb = replicate 12 0 @ [8, 0] @ [69, 0, 0, 0, 0, 0, 0, 0, 0, 6, 0, 0, 0, 0, 0, 0, 1, 2, 3, 4] @ [0, 0, 1, 187] @ replicate 16 0"

definition test_put :: "endian \<Rightarrow> (ref_trie, ref_lru) kstate" where
  "test_put en = ref_boot\<lparr>allow_v4 := (case ref_update (allow_v4 ref_boot) 32 (mem32 en 0x01020304) 1 of Inr m \<Rightarrow> m | Inl e \<Rightarrow> [])\<rparr>"

definition test_runs :: "endian \<Rightarrow> int option list" where
  "test_runs en = map (map_option fst \<circ> censor_egress ref_ops en hooks0 test_skb)
     [ref_boot, test_put en, ref_boot\<lparr>config := [1, 0]\<rparr>]"

text \<open>The test expects the verdicts shot, pass, pass. On a little-endian host the second run is shot as well, for the
  key stored is that of 4.3.2.1; on a big-endian host already the first one passes.\<close>

lemma TestEgressTestRunAllowDeny_refuted:
  "test_runs LittleEndian = [Some TC_ACT_SHOT, Some TC_ACT_SHOT, Some TC_ACT_OK]"
  "test_runs BigEndian = [Some TC_ACT_OK, Some TC_ACT_OK, Some TC_ACT_OK]"
  by code_simp+

section \<open>Agent\<close>

text \<open>The start from a local file in monitor mode, and the wait for it.\<close>

lemma TestStartWaitReadyWithLocalConfig:
  "\<exists>rt w'. Start (runner0 (policy0\<lparr>pl_Mode := MODE_MONITOR, pl_AllowedHosts := [''github.com''], pl_WatchSudo := True\<rparr>) outcomes_ok)
       ref_ops LittleEndian config0 world0 = Some (Inr rt, w')
     \<and> fdata (w_fs w') ''r'' = Some (''ok bpf=1'' @ [newline])"
proof -
  let ?pol = "policy0\<lparr>pl_Mode := MODE_MONITOR, pl_AllowedHosts := [''github.com''], pl_WatchSudo := True\<rparr>"
  have "\<not> pl_DisableSudo ?pol" by (simp add: policy0_def)
  from runner0_up [OF this, of ref_ops LittleEndian] obtain rt w' where
    s: "Start (runner0 ?pol outcomes_ok) ref_ops LittleEndian config0 world0 = Some (Inr rt, w')" "loaded (w_fw w')" by blast
  have "ready_apart (defaults (se_getenv (runner0 ?pol outcomes_ok)) config0)" unfolding runner0_defaults by (rule runner0_apart(2))
  from Start_outcome [OF world0_idle runner0_apart(1) this s(1)] s show ?thesis
    unfolding runner0_defaults by (auto simp: outcome_ok_def start_ok_def config0_def)
qed

end
