(* ===== verification/Spec2Isabelle.thy ===== *)
theory Spec2Isabelle
  imports Closing UpstreamRoute EgressHook Bindings Conformance
begin

text \<open>
  The censor eBPF agent: a verification development.

  \<^bold>\<open>The program.\<close> An agent for CI runners that lets a job reach only the hosts its policy allows. \<^verbatim>\<open>censor start\<close>
  (\<^verbatim>\<open>cmd/censor/main.go\<close>) loads a policy from a file or from the API, opens an NDJSON log, optionally withdraws sudo,
  serves DNS on a local address, redirects port 53 and docker's resolver to it, loads the BPF programs, opens them for
  the prefixes of the policy and for what is already in use, and says so in a ready file (\<^verbatim>\<open>internal/agent/runtime.go\<close>).
  From then on the egress program (\<^verbatim>\<open>bpf/censor.c\<close>) drops every packet whose destination is in neither allow map; the
  DNS proxy (\<^verbatim>\<open>internal/dns\<close>) answers for allowed hosts only and inserts the addresses it hands out into those maps;
  the programs report what they saw through a ring buffer, which a reader decodes and a consumer coalesces into the
  log. \<^verbatim>\<open>censor stop\<close> hands over the status of the job and signals the agent, which uploads its log and undoes all of
  it. \<^verbatim>\<open>censor wait-ready\<close> polls the ready and failure files.

  \<^bold>\<open>Theories, bottom up, and the code they model.\<close>
  \<^item> Prelude: bytes, byte order, decimal and hexadecimal text, the string functions of Go the code calls, rules for
    the option and sum results used everywhere, the shared collections of simplification rules.
  \<^item> HostPolicy (\<^verbatim>\<open>policy/host.go\<close>), GithubHosts (\<^verbatim>\<open>githubhosts/hosts.go\<close>): patterns over labels, the decision,
    the validator; the built-in list and its merge.
  \<^item> Dedupe (\<^verbatim>\<open>dedupe/cache.go\<close>): the cache that coalesces events, as an association list with its collection.
  \<^item> NetAddr, Firewall, FirewallProps (\<^verbatim>\<open>ebpf/attach_linux.go\<close>, \<^verbatim>\<open>attach_cgroup_linux.go\<close>, \<^verbatim>\<open>keys.go\<close>,
    \<^verbatim>\<open>cidr.go\<close>, \<^verbatim>\<open>cidr_linux.go\<close>): addresses of \<^verbatim>\<open>net/netip\<close>, the package's global handles as a record, attach and
    detach with all kernel handles, insertion of addresses and prefixes.
  \<^item> BpfMaps, CensorBpf, BpfProps (\<^verbatim>\<open>bpf/censor.c\<close>): the map operations as the locales \<open>lpm_trie\<close> and \<open>lru_hash\<close>
    with a reference implementation that interprets them; the four programs over packet bytes, with every bounds
    check of the source as an \<open>option\<close>; their meaning on flows.
  \<^item> AgentTypes, EventLog (\<^verbatim>\<open>events/logger.go\<close>): the messages, and the log over a small file system.
  \<^item> BpfEvents, EventPath (the reader in \<^verbatim>\<open>attach_linux.go\<close>, \<^verbatim>\<open>agent/events.go\<close>): record decoder, bounded channel with
    every interleaving of reader and consumer, the consumer; and the path from a dropped packet to its log line.
  \<^item> DnsProxy (\<^verbatim>\<open>dns/proxy.go\<close>), Enforcement (the closures in \<^verbatim>\<open>runtime.go\<close>): a handler as the list of its effects,
    and what those effects do to firewall and log.
  \<^item> Prepopulate (\<^verbatim>\<open>prepopulate/prepopulate.go\<close>): socket tables, resolver, seeding.
  \<^item> Retry, GhaContext, ApiClient (\<^verbatim>\<open>api/retry.go\<close>, \<^verbatim>\<open>gha/context.go\<close>, \<^verbatim>\<open>api/client.go\<close>): status classes and the
    retry loop, the environment and job id, the two requests.
  \<^item> HostFiles, SudoLockdown, DnsRedirect (\<^verbatim>\<open>sudo/lockdown.go\<close>, \<^verbatim>\<open>dnsredir\<close>): host files, the sudoers drop-in, the
    NAT rules and docker's \<^verbatim>\<open>daemon.json\<close>, each with its undo.
  \<^item> Runtime, RuntimeProps, StartLive (\<^verbatim>\<open>agent/runtime.go\<close>): \<open>Start\<close> cut at the points where it may fail
    (\<open>start_lock\<close>, \<open>start_dns\<close>, \<open>start_redirect\<close>, \<open>start_docker\<close>, \<open>start_bpf\<close>, \<open>start_ready\<close>) and \<open>rt_Close\<close>, over a
    world of firewall, files, sockets and NAT table; when a start fails, when it succeeds, what it opens.
  \<^item> FileFrames: what a start and a close do to files, proved once in the locale \<open>file_frame\<close>; Descriptors: the interpretation
    for the descriptor and the lock of the log.
  \<^item> Lifecycle, ReadySignal: the status hand-over, the upload, \<open>WaitReady\<close>, and what it reports of a start.
  \<^item> RemoteStart: a start whose policy comes from the API client.
  \<^item> CommandLine, CommandProps (\<^verbatim>\<open>cmd/censor/main.go\<close>): flags, exit codes, messages, signals.
  \<^item> AgentRun: the running agent as a step relation: queries received, handlers advancing effect by effect in any
    order, packets, connects, process starts, the reader draining the ring, files changing.
  \<^item> Closing: \<open>rt_Close\<close> as the phases \<open>close_order\<close>, interleaved with whatever the agent still serves meanwhile.
  \<^item> TwoAgents: a second start beside a running agent, which the lock on the log rejects.
  \<^item> SmallParts: version, decoding of the policy, default transport, wrapped errors, kinds of events.
  \<^item> Conformance: the unit tests of the repository, test by test, evaluated on the model.
  \<^item> UpstreamRoute: where the proxy's own queries go, with the NAT rules of a start, the handler and the locale \<open>dns_route\<close>
    put together.
  \<^item> Bindings (\<^verbatim>\<open>bpf/censor_bpfel.go\<close>, \<^verbatim>\<open>bpf/censor_bpfeb.go\<close>): the object built in, its programs and maps by name, loading and
    closing them over the locale \<open>fd_closer\<close>.
  \<^item> EgressHook: choice of the interface and the attachment details, and the no-op stubs for other systems.

  \<^bold>\<open>How the code is rendered.\<close> A Go struct is a record, an enumeration a datatype, an integer of fixed width a word;
  an error result is an \<open>option\<close> (the nil error is \<open>None\<close>) or a sum, as the signature has it. A function that may panic
  returns an \<open>option\<close> whose \<open>None\<close> is the panic, and the properties show where that is impossible. State is passed
  explicitly. Mutable package variables (the firewall's handles) and the operating system (files, sockets, NAT rules)
  are records handed through. A handler of the DNS library is the list of what it does in order, run one by one, so
  that concurrent handlers can be interleaved.

  \<^bold>\<open>Parameters.\<close> What is not in the repository is an argument: what the kernel calls of an attach return
  (\<open>outcomes\<close>), the map operations (\<open>bpf_ops\<close>, under the laws of the locales), the DNS library (\<open>dns_lib\<close>) and the
  upstream exchange, the HTTP transport, JSON and protobuf marshalling, the environment, the clock, the outcome of each
  file and command operation (\<open>start_env\<close>, \<open>cli\<close>). Every theorem with such hypotheses is applied, right after it, to
  concrete parameters.

  \<^bold>\<open>What is shown.\<close>
  \<^item> The whole: a start that fails leaves nothing attached and no ready file, one that succeeds enforces (RuntimeProps);
    it succeeds when its surroundings let it (StartLive); through any run afterwards a packet passes only for the policy,
    the seeding, or an answer to an allowed query (AgentRun); a rejected agent does not start and has changed nothing
    (RemoteStart); commands leave nothing behind, reach the agent, wait for a bounded time (CommandProps, Lifecycle,
    ReadySignal).
  \<^item> Descriptors and locks: a started agent holds its log open and locked exactly once, a failed one and every finished
    command hold nothing (Descriptors); closing undoes everything even while queries, packets and log writes go on between its
    steps (Closing).
  \<^item> Exclusion: two agents never run on one log, and what a rejected start may touch (TwoAgents).
  \<^item> Conformance: the unit tests that can be run on the model hold but one, the run of the egress program, whose expectation is
    refuted.
  \<^item> The resolver: with the redirect in place a query never leaves the proxy (UpstreamRoute).
  \<^item> The filter: the byte-level program equals a function of the flow; exactly which packets drop; attribution of
    records to processes; inertness on big-endian hosts (BpfProps).
  \<^item> The maps: handles are neither leaked nor closed twice in any reachable state, attach is all or nothing, what an
    insertion admits on either byte order (FirewallProps).
  \<^item> The policy: the decision as a predicate, the matcher against its documentation, merging (HostPolicy, GithubHosts).
  \<^item> Data: round trips of records, tables, addresses, log, NAT rules, files; the bounded cache against an unbounded
    one; the retry loop and its waits, with the attempt at which the product wraps around.

  \<^bold>\<open>Bounds.\<close> The only loop of the program that is not structural is \<open>WaitReady\<close>: it is a partial function into
  \<open>option\<close>, and \<open>WaitReady_returns\<close> shows that it returns, within the turns the timeout has room for, on any clock
  that advances with the sleeps. The retry loop recurses on the attempts left. No fuel is used.

  \<^bold>\<open>What the model showed.\<close> Map keys are written in host byte order but compared in network order, so on little-endian
  hosts the address admitted is the reversed one, and the destinations logged are reversed; the filter is inert on
  big-endian hosts; the proxy's own upstream is not admitted, and with the redirect its queries come back to it; the double star matches less than documented unless it
  is final; retry waits overflow from attempt 37; a TCP listener survives a shutdown; \<^verbatim>\<open>null\<close> as docker's
  configuration panics, and a failed write of it is not undone; an error of closing one BPF object leaves the later ones
  open. Each is proved where it is stated.

  \<^bold>\<open>Not modelled.\<close> The parsing of the ELF object and the library behind the generated bindings (parameters), the
  unused type \<^verbatim>\<open>WatchEvent\<close>, what the flag package prints by itself, and real time: a handler's
  effects are atomic one by one, and so are the programs in the kernel.
\<close>

end
